theory Spec2Isabelle
  imports Main "HOL-Library.Word" "HOL-Library.Sublist"
begin

section \<open>The DRTI decoration pass (drti-decorate.cpp)\<close>

subsection \<open>Process environment and fatal errors\<close>

text \<open>
  \<^verbatim>\<open>llvm::report_fatal_error\<close> aborts the process with a message; it is the
  \<open>Inl\<close> branch of every fallible function below.
\<close>

datatype error = Fatal string

text \<open>
  The pass reads two environment variables and possibly one file, writes one
  unconditional line to \<^verbatim>\<open>llvm::dbgs()\<close> when it skips a module, and prints every
  function it has decorated to \<^verbatim>\<open>llvm::dbgs()\<close>. These effects are recorded, in
  order, in the \<open>trace\<close> of the world the pass runs in. Output guarded by
  \<^verbatim>\<open>DEBUG_WITH_TYPE\<close> is not modelled.
\<close>

datatype event = Getenv string | OpenFile string | Dbgs string

record world =
  environ :: "string \<Rightarrow> string option"
  files :: "string \<Rightarrow> string option"
  trace :: "event list"

definition getenv :: "string \<Rightarrow> world \<Rightarrow> string option \<times> world" where
  "getenv name w = (environ w name, w\<lparr>trace := trace w @ [Getenv name]\<rparr>)"

text \<open>
  \<^verbatim>\<open>std::ifstream stream(path)\<close>: the contents of the file; a file that cannot be
  opened gives a stream on which every extraction fails, as the empty stream does.
\<close>

definition ifstream :: "string \<Rightarrow> world \<Rightarrow> string \<times> world" where
  "ifstream path w =
     ((case files w path of None \<Rightarrow> [] | Some contents \<Rightarrow> contents),
      w\<lparr>trace := trace w @ [OpenFile path]\<rparr>)"

subsection \<open>TargetSpecification: \<open>split_stream\<close> and \<open>targets_from_environment\<close>\<close>

text \<open>\<^verbatim>\<open>std::isspace\<close> in the classic locale: space, and HT, LF, VT, FF, CR.\<close>

definition isspace :: "char \<Rightarrow> bool" where
  "isspace c = (c = CHR '' '' \<or> c = CHR 0x09 \<or> c = CHR 0x0A \<or> c = CHR 0x0B
                \<or> c = CHR 0x0C \<or> c = CHR 0x0D)"

text \<open>
  \<^verbatim>\<open>stream >> symbol\<close>: skip leading whitespace; fail when nothing is left,
  otherwise read up to the next whitespace. The result is the symbol and the rest of
  the stream.
\<close>

definition extract_symbol :: "string \<Rightarrow> (string \<times> string) option" where
  "extract_symbol stream =
     (let s = dropWhile isspace stream
      in if s = [] then None
         else Some (takeWhile (\<lambda>c. \<not> isspace c) s, dropWhile (\<lambda>c. \<not> isspace c) s))"

lemma extract_symbol_shorter: "extract_symbol stream = Some (symbol, rest) \<Longrightarrow> length rest < length stream"
proof -
  assume a: "extract_symbol stream = Some (symbol, rest)"
  let ?s = "dropWhile isspace stream"
  from a have ne: "?s \<noteq> []" and r: "rest = dropWhile (\<lambda>c. \<not> isspace c) ?s"
    by (auto simp: extract_symbol_def Let_def split: if_splits)
  from ne have "\<not> isspace (hd ?s)" by (rule hd_dropWhile)
  with ne have "length rest < length ?s"
    unfolding r by (cases ?s) (auto simp: le_imp_less_Suc length_dropWhile_le)
  also have "length ?s \<le> length stream" by (rule length_dropWhile_le)
  finally show ?thesis .
qed

function split_stream :: "string \<Rightarrow> string set \<Rightarrow> string set" where
  "split_stream stream symbols =
     (case extract_symbol stream of
        None \<Rightarrow> symbols
      | Some (symbol, rest) \<Rightarrow> split_stream rest (insert symbol symbols))"
  by pat_completeness auto
termination
  by (relation "measure (\<lambda>(stream, symbols). length stream)") (auto dest: extract_symbol_shorter)

declare split_stream.simps [simp del]

definition no_targets_message :: string where
  "no_targets_message =
     ''No target functions found. Have you set DRTI_TARGET_NAMES and/or DRTI_TARGETS_FILE?''"

definition targets_from_environment :: "world \<Rightarrow> error + (string set \<times> world)" where
  "targets_from_environment w0 =
     (let result = {};
          (target_names, w1) = getenv ''DRTI_TARGET_NAMES'' w0;
          result = (case target_names of
                      None \<Rightarrow> result
                    | Some names \<Rightarrow> split_stream names result);
          (targets_file, w2) = getenv ''DRTI_TARGETS_FILE'' w1;
          (result, w3) = (case targets_file of
                      None \<Rightarrow> (result, w2)
                    | Some path \<Rightarrow>
                        (let (stream, w) = ifstream path w2
                         in (split_stream stream result, w)))
      in if result = {} then Inl (Fatal no_targets_message)
         else Inr (result, w3))"

subsection \<open>LLVM IR: types, values, instructions\<close>

text \<open>
  Types are uniqued in an LLVM context, so pointer equality of \<^verbatim>\<open>llvm::Type*\<close> is
  equality of the terms below. A named struct type is its name; its body is kept by the
  module (\<open>named_structs\<close>). Pointers are typed (\<^verbatim>\<open>getElementType\<close>).
\<close>

datatype ty =
    VoidTy
  | IntegerTy nat
  | PointerTy ty
  | FunctionTy ty "ty list"
  | StructTy string
  | ArrayTy ty nat
  | OtherTy nat

text \<open>
  A \<^verbatim>\<open>llvm::Value\<close> carries its type. Functions are identified by name, as in textual
  IR; global variables, instructions and basic blocks by an identity (their address in
  the C++ program), since the pass creates several with the same requested name.
  \<open>ConstantExprBitCast c t\<close> is the constant that denotes \<open>c\<close> at type \<open>t\<close> (LLVM may
  print it in a folded but equivalent form).
\<close>

datatype val =
    FunctionV string ty "ty list"
  | GlobalVariableV nat ty
  | ConstantInt nat nat
  | ConstantPointerNull ty
  | ConstantAggregateZero ty
  | ConstantDataArray string
  | ConstantArray ty "val list"
  | ConstantStruct ty "val list"
  | ConstantExprBitCast val ty
  | OtherConstant nat ty
  | InlineAsmV nat ty
  | InstructionV nat ty
  | ArgumentV nat ty

fun getType :: "val \<Rightarrow> ty" where
  "getType (FunctionV name ret params) = PointerTy (FunctionTy ret params)"
| "getType (GlobalVariableV g t) = PointerTy t"
| "getType (ConstantInt bits n) = IntegerTy bits"
| "getType (ConstantPointerNull t) = t"
| "getType (ConstantAggregateZero t) = t"
| "getType (ConstantDataArray bytes) = ArrayTy (IntegerTy 8) (length bytes)"
| "getType (ConstantArray t elems) = t"
| "getType (ConstantStruct t members) = t"
| "getType (ConstantExprBitCast c t) = t"
| "getType (OtherConstant n t) = t"
| "getType (InlineAsmV n t) = t"
| "getType (InstructionV i t) = t"
| "getType (ArgumentV n t) = t"

text \<open>\<^verbatim>\<open>llvm::isa<llvm::Constant>\<close>\<close>

fun isConstant :: "val \<Rightarrow> bool" where
  "isConstant (InlineAsmV n t) = False"
| "isConstant (InstructionV i t) = False"
| "isConstant (ArgumentV n t) = False"
| "isConstant v = True"

text \<open>\<^verbatim>\<open>llvm::ConstantExpr::getBitCast\<close>: a cast to the constant's own type is the constant.\<close>

definition getBitCast :: "val \<Rightarrow> ty \<Rightarrow> val" where
  "getBitCast c t = (if getType c = t then c else ConstantExprBitCast c t)"

text \<open>\<^verbatim>\<open>ConstantDataArray::getString\<close> appends the terminating NUL.\<close>

definition getString :: "string \<Rightarrow> val" where
  "getString s = ConstantDataArray (s @ [CHR 0x00])"

datatype tail_call_kind = TCK_None | TCK_Tail | TCK_MustTail | TCK_NoTail

text \<open>The three subclasses of \<^verbatim>\<open>llvm::CallBase\<close>; only a \<^verbatim>\<open>CallInst\<close> has a tail-call kind.\<close>

datatype call_kind = CallInst tail_call_kind | InvokeInst | CallBrInst

text \<open>
  The instructions the pass inspects or creates; every other instruction is
  \<open>OtherInst\<close> (with whether it is a terminator). Branch targets and the incoming
  blocks of a phi are block identities.
\<close>

datatype opcode =
    Alloca ty
  | CallBase call_kind val "val list"
  | BitCast val ty
  | PtrToInt val ty
  | IntToPtr val ty
  | And val val
  | ICmpEQ val val
  | GetElementPtr bool val "val list"
  | Load val
  | PHI "(val \<times> nat) list"
  | Br nat
  | CondBr val nat nat
  | OtherInst bool

record instr =
  iid :: nat
  iname :: string
  itype :: ty
  iop :: opcode

record block =
  bid :: nat
  bname :: string
  insts :: "instr list"

datatype fnattr = OptimizeNone | NoInline | OtherAttr nat

record func =
  fname :: string
  fret :: ty
  fparams :: "ty list"
  fattrs :: "fnattr set"
  blocks :: "block list"

datatype linkage = InternalLinkage | ExternalLinkage | OtherLinkage nat

record gvar =
  gid :: nat
  gname :: string
  gtype :: ty
  gconstant :: bool
  glinkage :: linkage
  ginit :: "val option"

text \<open>
  \<open>next_id\<close> stands for the allocator: the identity of the next instruction, block or
  global variable created in the module.
\<close>

record module =
  triple :: string
  function_list :: "func list"
  globals :: "gvar list"
  named_structs :: "string \<Rightarrow> ty list option"
  next_id :: nat

definition value_of :: "instr \<Rightarrow> val" where
  "value_of i = InstructionV (iid i) (itype i)"

definition function_value :: "func \<Rightarrow> val" where
  "function_value f = FunctionV (fname f) (fret f) (fparams f)"

definition getFunctionType :: "func \<Rightarrow> ty" where
  "getFunctionType f = FunctionTy (fret f) (fparams f)"

definition global_value :: "gvar \<Rightarrow> val" where
  "global_value g = GlobalVariableV (gid g) (gtype g)"

definition isDeclaration :: "func \<Rightarrow> bool" where
  "isDeclaration f = (blocks f = [])"

text \<open>\<^verbatim>\<open>Function::isIntrinsic\<close>: the name starts with \<^verbatim>\<open>llvm.\<close>\<close>

definition isIntrinsic :: "func \<Rightarrow> bool" where
  "isIntrinsic f = (take 5 (fname f) = ''llvm.'')"

definition getFunction :: "module \<Rightarrow> string \<Rightarrow> func option" where
  "getFunction m name = find (\<lambda>f. fname f = name) (function_list m)"

definition getTypeByName :: "module \<Rightarrow> string \<Rightarrow> ty option" where
  "getTypeByName m name = (case named_structs m name of None \<Rightarrow> None | Some body \<Rightarrow> Some (StructTy name))"

text \<open>
  \<^verbatim>\<open>StructType::getElementType(n)\<close>; \<open>None\<close> where LLVM's assertion on the index (or on
  the type being a struct with a body) fails.
\<close>

definition getElementType :: "module \<Rightarrow> ty \<Rightarrow> nat \<Rightarrow> ty option" where
  "getElementType m t n =
     (case t of
        StructTy name \<Rightarrow>
          (case named_structs m name of
             None \<Rightarrow> None
           | Some body \<Rightarrow> if n < length body then Some (body ! n) else None)
      | _ \<Rightarrow> None)"

text \<open>
  \<^verbatim>\<open>new llvm::GlobalVariable(module, type, isConstant, linkage, initializer, name,
  insertBefore)\<close>: the variable gets a fresh identity and goes before the variable
  \<open>before\<close>, or to the end of the module's list. The requested name is kept as it is.
\<close>

fun insert_before_global :: "nat \<Rightarrow> gvar \<Rightarrow> gvar list \<Rightarrow> gvar list" where
  "insert_before_global b g [] = [g]"
| "insert_before_global b g (x # xs) =
     (if gid x = b then g # x # xs else x # insert_before_global b g xs)"

definition new_GlobalVariable ::
  "ty \<Rightarrow> bool \<Rightarrow> linkage \<Rightarrow> val \<Rightarrow> string \<Rightarrow> nat option \<Rightarrow> module \<Rightarrow> val \<times> module" where
  "new_GlobalVariable t is_const link init name before m =
     (let g = \<lparr>gid = next_id m, gname = name, gtype = t, gconstant = is_const,
               glinkage = link, ginit = Some init\<rparr>
      in (global_value g,
          m\<lparr>globals := (case before of
                          None \<Rightarrow> globals m @ [g]
                        | Some b \<Rightarrow> insert_before_global b g (globals m)),
            next_id := Suc (next_id m)\<rparr>))"

text \<open>
  \<^verbatim>\<open>Module::getOrInsertFunction(name, ret, params...)\<close>: the function of that name, cast
  to the requested type when its type differs; a new declaration at the end of the
  module when there is none. A global variable of that name is found too.
\<close>

definition getNamedValue :: "module \<Rightarrow> string \<Rightarrow> val option" where
  "getNamedValue m name =
     (case getFunction m name of
        Some f \<Rightarrow> Some (function_value f)
      | None \<Rightarrow> map_option global_value (find (\<lambda>g. gname g = name) (globals m)))"

definition getOrInsertFunction :: "string \<Rightarrow> ty \<Rightarrow> ty list \<Rightarrow> module \<Rightarrow> val \<times> module" where
  "getOrInsertFunction name ret params m =
     (case getNamedValue m name of
        None \<Rightarrow>
          (FunctionV name ret params,
           m\<lparr>function_list := function_list m @
                [\<lparr>fname = name, fret = ret, fparams = params, fattrs = {}, blocks = []\<rparr>]\<rparr>)
      | Some v \<Rightarrow>
          (if getType v \<noteq> PointerTy (FunctionTy ret params)
           then ConstantExprBitCast v (PointerTy (FunctionTy ret params))
           else v,
           m))"

subsection \<open>What the pass takes from outside this file\<close>

text \<open>
  The support bitcode (\<^verbatim>\<open>_binary_drti_inline_bc_start\<close>), LLVM's bitcode reader, writer
  and linker, and the declarations of \<^verbatim>\<open>drti/drti-common.hpp\<close> are parameters:
  \<^item> \<open>parseBitcodeFile\<close>: the support module, or the reader's error;
  \<^item> \<open>linkInModule dst src\<close>: whether linking failed, and the destination afterwards;
  \<^item> \<open>writeModule\<close>: the bitcode of a module (with its string table);
  \<^item> \<open>visit_listed_globals\<close>: the global variables the visitor selects;
  \<^item> \<open>PrintFunctionPass m name\<close>: what \<^verbatim>\<open>llvm::PrintFunctionPass().run\<close> writes for
    the function \<open>name\<close> of the module \<open>m\<close>;
  \<^item> \<open>DRTI_RETALIGN\<close>, \<open>DRTI_MAGIC\<close>: the alignment and the magic constant.
\<close>

record extern =
  parseBitcodeFile :: "string + module"
  linkInModule :: "module \<Rightarrow> module \<Rightarrow> bool \<times> module"
  writeModule :: "module \<Rightarrow> string"
  visit_listed_globals :: "module \<Rightarrow> gvar list"
  PrintFunctionPass :: "module \<Rightarrow> string \<Rightarrow> string"
  DRTI_RETALIGN :: nat
  DRTI_MAGIC :: nat

subsection \<open>The pass object\<close>

record InlineHelpers =
  m_drti_landing_site_type :: "ty option"
  m_drti_callsite_type :: "ty option"
  m_drti_treenode_type :: "ty option"
  m_drti_reflect_type :: "ty option"
  m_drti_landed :: "func option"
  m_drti_call_from :: "func option"

text \<open>
  \<open>m_target_functions\<close> is a \<^verbatim>\<open>DenseSet<Function*>\<close>: its iteration order is not
  specified, so it is a list here and nothing below depends on its order.
  A null \<open>m_reflect_global\<close> and an empty \<open>m_inline\<close> are \<open>None\<close>.
\<close>

record DecoratePass =
  m_target_function_names :: "string set"
  m_module :: module
  m_target_functions :: "string list"
  m_target_function_types :: "ty set"
  m_inline :: "InlineHelpers option"
  m_reflect_global :: "val option"

definition new_DecoratePass :: "module \<Rightarrow> world \<Rightarrow> error + (DecoratePass \<times> world)" where
  "new_DecoratePass m w =
     (case targets_from_environment w of
        Inl e \<Rightarrow> Inl e
      | Inr (names, w') \<Rightarrow>
          Inr (\<lparr>m_target_function_names = names, m_module = m, m_target_functions = [],
                m_target_function_types = {}, m_inline = None, m_reflect_global = None\<rparr>, w'))"

subsection \<open>TargetDiscovery\<close>

fun find_target_functions_loop :: "func list \<Rightarrow> DecoratePass \<Rightarrow> DecoratePass" where
  "find_target_functions_loop [] st = st"
| "find_target_functions_loop (f # fs) st =
     find_target_functions_loop fs
       (if fname f \<in> m_target_function_names st
        then st\<lparr>m_target_functions := List.insert (fname f) (m_target_functions st),
                m_target_function_types := insert (getFunctionType f) (m_target_function_types st)\<rparr>
        else st)"

definition find_target_functions :: "DecoratePass \<Rightarrow> bool \<times> DecoratePass" where
  "find_target_functions st =
     (let st' = find_target_functions_loop (function_list (m_module st)) st
      in (m_target_functions st' \<noteq> [], st'))"

subsection \<open>SupportLinker and LayoutValidator\<close>

definition add_helpers :: "extern \<Rightarrow> DecoratePass \<Rightarrow> error + (bool \<times> DecoratePass)" where
  "add_helpers x st =
     (case parseBitcodeFile x of
        Inl err \<Rightarrow> Inl (Fatal err)
      | Inr support \<Rightarrow>
          (let (failed, linked) = linkInModule x (m_module st) support
           in Inr (\<not> failed, st\<lparr>m_module := linked\<rparr>)))"

definition new_InlineHelpers :: "module \<Rightarrow> InlineHelpers" where
  "new_InlineHelpers m =
     \<lparr>m_drti_landing_site_type = getTypeByName m ''struct.drti::landing_site'',
      m_drti_callsite_type = getTypeByName m ''struct.drti::static_callsite'',
      m_drti_treenode_type = getTypeByName m ''struct.drti::treenode'',
      m_drti_reflect_type = getTypeByName m ''struct.drti::reflect'',
      m_drti_landed = getFunction m ''_drti_landed'',
      m_drti_call_from = getFunction m ''_drti_call_from''\<rparr>"

definition ok :: "InlineHelpers \<Rightarrow> bool" where
  "ok h =
     (if m_drti_landing_site_type h = None \<or> m_drti_callsite_type h = None \<or>
         m_drti_treenode_type h = None \<or> m_drti_reflect_type h = None
      then False
      else if m_drti_landed h = None \<or> m_drti_call_from h = None
      then False
      else True)"

definition lookup_helpers :: "DecoratePass \<Rightarrow> bool \<times> DecoratePass" where
  "lookup_helpers st =
     (let h = new_InlineHelpers (m_module st)
      in (ok h, st\<lparr>m_inline := Some h\<rparr>))"

subsection \<open>SymbolCollector and SelfSnapshotBuilder\<close>

definition removeFnAttrs :: "func \<Rightarrow> func" where
  "removeFnAttrs f = f\<lparr>fattrs := fattrs f - {OptimizeNone} - {NoInline}\<rparr>"

fun collect_globals_loop :: "func list \<Rightarrow> val list \<Rightarrow> val list \<times> func list" where
  "collect_globals_loop [] result = (result, [])"
| "collect_globals_loop (f # fs) result =
     (if isIntrinsic f then
        (let (r, fs') = collect_globals_loop fs result in (r, f # fs'))
      else if isDeclaration f then
        (let (r, fs') = collect_globals_loop fs (result @ [function_value f]) in (r, f # fs'))
      else
        (let (r, fs') = collect_globals_loop fs result in (r, removeFnAttrs f # fs')))"

definition collect_globals :: "extern \<Rightarrow> module \<Rightarrow> val list \<times> module" where
  "collect_globals x m =
     (let result = map global_value (visit_listed_globals x m);
          (result, fs) = collect_globals_loop (function_list m) result
      in (result, m\<lparr>function_list := fs\<rparr>))"

definition raw_bitcode :: "extern \<Rightarrow> module \<Rightarrow> string" where
  "raw_bitcode x m = writeModule x m"

definition void_star :: ty where
  "void_star = PointerTy (IntegerTy 8)"

text \<open>
  \<open>m_inline->\<close> and the struct types and functions it holds are dereferenced without a
  check in the C++: the pass reaches this code only after \<open>ok\<close> held. \<open>the\<close> stands
  for these dereferences.
\<close>

definition create_self :: "extern \<Rightarrow> DecoratePass \<Rightarrow> DecoratePass" where
  "create_self x st =
     (let (globals, m1) = collect_globals x (m_module st);
          buffer = raw_bitcode x m1;
          as_constant = ConstantDataArray buffer;
          (bitcode_global, m2) =
            new_GlobalVariable (getType as_constant) True InternalLinkage as_constant
              ''__drti_bitcode'' None m1;
          cast_bitcode = getBitCast bitcode_global void_star;
          extern_addresses = map (\<lambda>g. getBitCast g void_star) globals;
          globals_array = ConstantArray (ArrayTy void_star (length extern_addresses)) extern_addresses;
          (globals_variable, m3) =
            new_GlobalVariable (getType globals_array) True InternalLinkage globals_array
              ''__drti_globals'' None m2;
          cast_globals = getBitCast globals_variable (PointerTy void_star);
          reflect_members =
            [cast_bitcode, ConstantInt 64 (length buffer),
             cast_globals, ConstantInt 64 (length extern_addresses)];
          reflect_type = the (m_drti_reflect_type (the (m_inline st)));
          reflect_constant = ConstantStruct reflect_type reflect_members;
          (reflect_global, m4) =
            new_GlobalVariable reflect_type True InternalLinkage reflect_constant
              ''__drti_self'' None m3
      in st\<lparr>m_module := m4, m_reflect_global := Some reflect_global\<rparr>)"

subsection \<open>Editing a function body: \<^verbatim>\<open>llvm::IRBuilder\<close>\<close>

text \<open>
  While one function is instrumented, the state is the module together with the blocks
  of that function; the blocks are stored back into the module afterwards
  (\<open>set_blocks\<close>). An insertion point is before an instruction or at the end of a block.
\<close>

type_synonym editing = "module \<times> block list"

datatype insert_point = BeforeInst nat | AtEnd nat

fun insert_before :: "nat \<Rightarrow> instr \<Rightarrow> instr list \<Rightarrow> instr list" where
  "insert_before c new [] = []"
| "insert_before c new (i # is) =
     (if iid i = c then new # i # is else i # insert_before c new is)"

definition update_block :: "nat \<Rightarrow> (block \<Rightarrow> block) \<Rightarrow> block list \<Rightarrow> block list" where
  "update_block b g bs = map (\<lambda>blk. if bid blk = b then g blk else blk) bs"

definition insert_inst :: "insert_point \<Rightarrow> instr \<Rightarrow> block list \<Rightarrow> block list" where
  "insert_inst ip new bs =
     (case ip of
        BeforeInst c \<Rightarrow> map (\<lambda>blk. blk\<lparr>insts := insert_before c new (insts blk)\<rparr>) bs
      | AtEnd b \<Rightarrow> update_block b (\<lambda>blk. blk\<lparr>insts := insts blk @ [new]\<rparr>) bs)"

definition update_inst :: "nat \<Rightarrow> (instr \<Rightarrow> instr) \<Rightarrow> block list \<Rightarrow> block list" where
  "update_inst c g bs =
     map (\<lambda>blk. blk\<lparr>insts := map (\<lambda>i. if iid i = c then g i else i) (insts blk)\<rparr>) bs"

definition find_inst :: "nat \<Rightarrow> block list \<Rightarrow> instr option" where
  "find_inst c bs = find (\<lambda>i. iid i = c) (concat (map insts bs))"

definition Insert :: "insert_point \<Rightarrow> string \<Rightarrow> ty \<Rightarrow> opcode \<Rightarrow> editing \<Rightarrow> val \<times> editing" where
  "Insert ip name t operation s =
     (case s of (m, bs) \<Rightarrow>
        (let i = \<lparr>iid = next_id m, iname = name, itype = t, iop = operation\<rparr>
         in (value_of i, (m\<lparr>next_id := Suc (next_id m)\<rparr>, insert_inst ip i bs))))"

text \<open>
  \<^verbatim>\<open>IRBuilder::CreateBitCast\<close> inserts no instruction when the value has the type
  already, or is a constant (the cast is then a constant expression).
\<close>

definition CreateBitCast :: "insert_point \<Rightarrow> val \<Rightarrow> ty \<Rightarrow> string \<Rightarrow> editing \<Rightarrow> val \<times> editing" where
  "CreateBitCast ip v dest name s =
     (if getType v = dest then (v, s)
      else if isConstant v then (getBitCast v dest, s)
      else Insert ip name dest (BitCast v dest) s)"

text \<open>
  The other casts of the pass have an instruction result of another type as operand, so
  an instruction is always inserted.
\<close>

definition CreatePtrToInt :: "insert_point \<Rightarrow> val \<Rightarrow> ty \<Rightarrow> string \<Rightarrow> editing \<Rightarrow> val \<times> editing" where
  "CreatePtrToInt ip v dest name s = Insert ip name dest (PtrToInt v dest) s"

definition CreateIntToPtr :: "insert_point \<Rightarrow> val \<Rightarrow> ty \<Rightarrow> string \<Rightarrow> editing \<Rightarrow> val \<times> editing" where
  "CreateIntToPtr ip v dest name s = Insert ip name dest (IntToPtr v dest) s"

text \<open>\<^verbatim>\<open>IRBuilder::CreateAnd\<close> returns the left operand when the right one is all ones.\<close>

definition isMinusOne :: "val \<Rightarrow> bool" where
  "isMinusOne v = (case v of ConstantInt bits n \<Rightarrow> n = 2 ^ bits - 1 | _ \<Rightarrow> False)"

definition CreateAnd :: "insert_point \<Rightarrow> val \<Rightarrow> val \<Rightarrow> string \<Rightarrow> editing \<Rightarrow> val \<times> editing" where
  "CreateAnd ip lhs rhs name s =
     (if isMinusOne rhs then (lhs, s)
      else Insert ip name (getType lhs) (And lhs rhs) s)"

definition CreateICmpEQ :: "insert_point \<Rightarrow> val \<Rightarrow> val \<Rightarrow> string \<Rightarrow> editing \<Rightarrow> val \<times> editing" where
  "CreateICmpEQ ip lhs rhs name s = Insert ip name (IntegerTy 1) (ICmpEQ lhs rhs) s"

definition CreateGEP :: "insert_point \<Rightarrow> val \<Rightarrow> val list \<Rightarrow> string \<Rightarrow> editing \<Rightarrow> val \<times> editing" where
  "CreateGEP ip ptr idx name s = Insert ip name (getType ptr) (GetElementPtr False ptr idx) s"

definition gep_error :: error where
  "gep_error = Fatal ''Invalid GetElementPtrInst indices for type!''"

text \<open>
  \<^verbatim>\<open>IRBuilder::CreateStructGEP(ptr, idx)\<close>: an inbounds \<^verbatim>\<open>getelementptr\<close> with the
  indices \<open>i32 0, i32 idx\<close>; its type is a pointer to that element of the struct.
  LLVM asserts that the operand points to a struct with such an element.
\<close>

definition CreateStructGEP :: "insert_point \<Rightarrow> val \<Rightarrow> nat \<Rightarrow> string \<Rightarrow> editing \<Rightarrow> error + val \<times> editing" where
  "CreateStructGEP ip ptr idx name s =
     (case getType ptr of
        PointerTy t \<Rightarrow>
          (case getElementType (fst s) t idx of
             None \<Rightarrow> Inl gep_error
           | Some e \<Rightarrow>
               Inr (Insert ip name (PointerTy e)
                     (GetElementPtr True ptr [ConstantInt 32 0, ConstantInt 32 idx]) s))
      | _ \<Rightarrow> Inl gep_error)"

definition getPointerElementType :: "ty \<Rightarrow> ty" where
  "getPointerElementType t = (case t of PointerTy e \<Rightarrow> e | _ \<Rightarrow> t)"

definition CreateLoad :: "insert_point \<Rightarrow> val \<Rightarrow> string \<Rightarrow> editing \<Rightarrow> val \<times> editing" where
  "CreateLoad ip ptr name s =
     Insert ip name (getPointerElementType (getType ptr)) (Load ptr) s"

definition CreateCall :: "insert_point \<Rightarrow> ty \<Rightarrow> val \<Rightarrow> val list \<Rightarrow> string \<Rightarrow> editing \<Rightarrow> val \<times> editing" where
  "CreateCall ip ret callee args name s =
     Insert ip name ret (CallBase (CallInst TCK_None) callee args) s"

definition CreateCondBr :: "insert_point \<Rightarrow> val \<Rightarrow> nat \<Rightarrow> nat \<Rightarrow> editing \<Rightarrow> val \<times> editing" where
  "CreateCondBr ip cond t f s = Insert ip [] VoidTy (CondBr cond t f) s"

definition CreateBr :: "insert_point \<Rightarrow> nat \<Rightarrow> editing \<Rightarrow> val \<times> editing" where
  "CreateBr ip dest s = Insert ip [] VoidTy (Br dest) s"

definition CreatePHI :: "insert_point \<Rightarrow> ty \<Rightarrow> string \<Rightarrow> editing \<Rightarrow> val \<times> editing" where
  "CreatePHI ip t name s = Insert ip name t (PHI []) s"

definition addIncoming :: "val \<Rightarrow> val \<Rightarrow> nat \<Rightarrow> block list \<Rightarrow> block list" where
  "addIncoming phi v b bs =
     (case phi of
        InstructionV p t \<Rightarrow>
          update_inst p (\<lambda>i. case iop i of PHI inc \<Rightarrow> i\<lparr>iop := PHI (inc @ [(v, b)])\<rparr> | _ \<Rightarrow> i) bs
      | _ \<Rightarrow> bs)"

definition getOrInsertFunction_editing ::
  "string \<Rightarrow> ty \<Rightarrow> ty list \<Rightarrow> editing \<Rightarrow> val \<times> editing" where
  "getOrInsertFunction_editing name ret params s =
     (case s of (m, bs) \<Rightarrow>
        (let (callee, m') = getOrInsertFunction name ret params m in (callee, (m', bs))))"

fun isTerminator :: "opcode \<Rightarrow> bool" where
  "isTerminator (Br d) = True"
| "isTerminator (CondBr c t f) = True"
| "isTerminator (OtherInst t) = t"
| "isTerminator (CallBase InvokeInst callee args) = True"
| "isTerminator (CallBase CallBrInst callee args) = True"
| "isTerminator operation = False"

definition isAllocaInst :: "instr \<Rightarrow> bool" where
  "isAllocaInst i = (case iop i of Alloca t \<Rightarrow> True | _ \<Rightarrow> False)"

definition getTerminator :: "block \<Rightarrow> instr option" where
  "getTerminator b =
     (if insts b = [] then None
      else if isTerminator (iop (last (insts b))) then Some (last (insts b))
      else None)"

text \<open>
  \<^verbatim>\<open>BasicBlock::splitBasicBlock(I, name)\<close>: the instructions from \<open>I\<close> on move to a
  new block placed right after the old one, the old block gets a branch to the new one,
  and the phi nodes that named the old block as predecessor name the new one. In
  well-formed IR those phi nodes are in the successors of the moved terminator; here
  every phi node of the function is visited.
\<close>

definition replacePhiUsesWith :: "nat \<Rightarrow> nat \<Rightarrow> instr \<Rightarrow> instr" where
  "replacePhiUsesWith old new i =
     (case iop i of
        PHI inc \<Rightarrow> i\<lparr>iop := PHI (map (\<lambda>(v, p). (v, if p = old then new else p)) inc)\<rparr>
      | _ \<Rightarrow> i)"

definition splitBasicBlock :: "nat \<Rightarrow> nat \<Rightarrow> string \<Rightarrow> editing \<Rightarrow> nat \<times> editing" where
  "splitBasicBlock b split_at name s =
     (case s of (m, bs) \<Rightarrow>
        (let new = next_id m;
             br = \<lparr>iid = Suc (next_id m), iname = [], itype = VoidTy, iop = Br new\<rparr>;
             split = concat (map (\<lambda>blk.
               if bid blk = b
               then [blk\<lparr>insts := takeWhile (\<lambda>i. iid i \<noteq> split_at) (insts blk) @ [br]\<rparr>,
                     \<lparr>bid = new, bname = name,
                      insts = dropWhile (\<lambda>i. iid i \<noteq> split_at) (insts blk)\<rparr>]
               else [blk]) bs)
         in (new,
             (m\<lparr>next_id := Suc (Suc (next_id m))\<rparr>,
              map (\<lambda>blk. blk\<lparr>insts := map (replacePhiUsesWith b new) (insts blk)\<rparr>) split))))"

definition BasicBlock_Create :: "string \<Rightarrow> editing \<Rightarrow> nat \<times> editing" where
  "BasicBlock_Create name s =
     (case s of (m, bs) \<Rightarrow>
        (next_id m,
         (m\<lparr>next_id := Suc (next_id m)\<rparr>, bs @ [\<lparr>bid = next_id m, bname = name, insts = []\<rparr>])))"

text \<open>\<^verbatim>\<open>block->back().eraseFromParent()\<close>\<close>

definition erase_back :: "nat \<Rightarrow> editing \<Rightarrow> editing" where
  "erase_back b s =
     (case s of (m, bs) \<Rightarrow> (m, update_block b (\<lambda>blk. blk\<lparr>insts := butlast (insts blk)\<rparr>) bs))"

subsection \<open>LandingInstrumenter\<close>

definition malformed_entry_block :: "string \<Rightarrow> error" where
  "malformed_entry_block function_name =
     Fatal (''drti-decorate: Malformed entry block in function '' @ function_name)"

text \<open>
  The C++ expression \<^verbatim>\<open>-DRTI_RETALIGN / sizeof(int64_t)\<close> is evaluated in
  \<^verbatim>\<open>size_t\<close> (64 bits, \<open>DRTI_RETALIGN\<close> being an \<^verbatim>\<open>int\<close> or \<^verbatim>\<open>size_t\<close>
  constant): the negation wraps around before the division.
\<close>

definition magic_index :: "extern \<Rightarrow> nat" where
  "magic_index x = ((2 ^ 64 - DRTI_RETALIGN x mod 2 ^ 64) mod 2 ^ 64) div 8"

text \<open>\<^verbatim>\<open>DRTI_RETALIGN - 1\<close> as the \<^verbatim>\<open>uint64_t\<close> that \<^verbatim>\<open>ConstantInt::get\<close> takes.\<close>

definition retalign_mask :: "extern \<Rightarrow> nat" where
  "retalign_mask x = (DRTI_RETALIGN x + 2 ^ 64 - 1) mod 2 ^ 64"

text \<open>
  The function is given by its name and, in the editing state, its blocks. The pass calls
  this on definitions only; the entry block of a function without blocks does not exist.
\<close>

definition add_landing_update ::
  "extern \<Rightarrow> DecoratePass \<Rightarrow> string \<Rightarrow> val \<Rightarrow> editing \<Rightarrow> error + val \<times> editing" where
  "add_landing_update x st function_name landing_global s0 =
     (case snd s0 of
        [] \<Rightarrow> Inl (malformed_entry_block function_name)
      | entryBlock # other_blocks \<Rightarrow>
          (case (case find (\<lambda>i. \<not> isAllocaInst i) (insts entryBlock) of
                   Some i \<Rightarrow> Some i
                 | None \<Rightarrow> getTerminator entryBlock) of
             None \<Rightarrow> Inl (malformed_entry_block function_name)
           | Some splitPoint \<Rightarrow>
               (let inl = the (m_inline st);
                    entry = bid entryBlock;
                    (land1, s) = splitBasicBlock entry (iid splitPoint) ''drti_land1'' s0;
                    (land2, s) = BasicBlock_Create ''drti_land2'' s;
                    (land3, s) = BasicBlock_Create ''drti_land3'' s;
                    s = erase_back entry s;
                    builder = AtEnd entry;
                    zero32 = ConstantInt 32 0;
                    zero64 = ConstantInt 64 0;
                    voidpType = PointerTy (IntegerTy 8);
                    (builtinRet, s) =
                      getOrInsertFunction_editing ''llvm.returnaddress'' voidpType [getType zero32] s;
                    (returnAddress, s) =
                      CreateCall builder voidpType builtinRet [zero32] ''drtiRetAddress'' s;
                    drtiRetAlign = ConstantInt 64 (retalign_mask x);
                    (returnAddress, s) =
                      CreatePtrToInt builder returnAddress (getType drtiRetAlign) ''drtiRetAddressCast'' s;
                    (masked, s) = CreateAnd builder returnAddress drtiRetAlign ''drtiAndRetalign'' s;
                    (isZero, s) = CreateICmpEQ builder masked zero64 ''drtiRetIsAligned'' s;
                    (br, s) = CreateCondBr builder isZero land2 land1 s;
                    builder = BeforeInst (iid splitPoint);
                    treenode_pointer_type = PointerTy (the (m_drti_treenode_type inl));
                    null_treenode_pointer = ConstantPointerNull treenode_pointer_type;
                    (caller, s) = CreatePHI builder treenode_pointer_type ''drtiCallerTreenode'' s;
                    builder = AtEnd land2;
                    ptr_int64_t = PointerTy (IntegerTy 64);
                    (returnAddressCast, s) =
                      CreateIntToPtr builder returnAddress ptr_int64_t ''drtiRetAddressCast'' s;
                    indexes = [ConstantInt 64 (magic_index x)];
                    (gep, s) = CreateGEP builder returnAddressCast indexes ''drtiGep'' s;
                    (maybeMagic, s) = CreateLoad builder gep ''drtiMaybeMagic'' s;
                    magic = ConstantInt 64 (DRTI_MAGIC x mod 2 ^ 64);
                    (matches, s) = CreateICmpEQ builder maybeMagic magic ''drtiMatches'' s;
                    (br, s) = CreateCondBr builder matches land3 land1 s;
                    builder = AtEnd land3;
                    (drtiCaller, s) =
                      getOrInsertFunction_editing ''_drti_caller'' treenode_pointer_type [] s;
                    (treenode, s) =
                      CreateCall builder treenode_pointer_type drtiCaller [] ''drtiTreenode'' s;
                    arguments = [landing_global, treenode];
                    landed = the (m_drti_landed inl);
                    (call, s) =
                      CreateCall builder (fret landed) (function_value landed) arguments [] s;
                    (br, s) = CreateBr builder land1 s;
                    bs = addIncoming caller null_treenode_pointer entry (snd s);
                    bs = addIncoming caller null_treenode_pointer land2 bs;
                    bs = addIncoming caller treenode land3 bs
                in Inr (caller, (fst s, bs)))))"

subsection \<open>CallSiteInstrumenter\<close>

definition setCalledOperand :: "val \<Rightarrow> instr \<Rightarrow> instr" where
  "setCalledOperand v i =
     (case iop i of CallBase kind callee args \<Rightarrow> i\<lparr>iop := CallBase kind v args\<rparr> | _ \<Rightarrow> i)"

text \<open>\<^verbatim>\<open>dyn_cast<CallInst>\<close> followed by \<^verbatim>\<open>setTailCallKind\<close>: only a \<^verbatim>\<open>CallInst\<close> changes.\<close>

definition setTailCallKind :: "tail_call_kind \<Rightarrow> instr \<Rightarrow> instr" where
  "setTailCallKind k i =
     (case iop i of
        CallBase (CallInst old) callee args \<Rightarrow> i\<lparr>iop := CallBase (CallInst k) callee args\<rparr>
      | _ \<Rightarrow> i)"

text \<open>
  \<open>callInst\<close> is the identity of a call instruction of the function: the pointers
  collected by \<open>collect_calls\<close> stay valid while instructions are inserted. The
  branches for an identity that is absent, or is no call, are never taken by the pass.
\<close>

definition decorate_call :: "DecoratePass \<Rightarrow> val \<Rightarrow> nat \<Rightarrow> val \<Rightarrow> editing \<Rightarrow> error + editing" where
  "decorate_call st caller callInst callsite s0 =
     (case find_inst callInst (snd s0) of
        None \<Rightarrow> Inr s0
      | Some ci \<Rightarrow>
          (case iop ci of
             CallBase kind calledOperand args \<Rightarrow>
               (let inl = the (m_inline st);
                    builder = BeforeInst callInst;
                    (oldTarget, s) = CreateBitCast builder calledOperand void_star ''castOldTarget'' s0;
                    callFromArgs = [callsite, caller, oldTarget];
                    call_from = the (m_drti_call_from inl);
                    (treenode, s) =
                      CreateCall builder (fret call_from) (function_value call_from) callFromArgs
                        ''treenode'' s
                in case CreateStructGEP builder treenode 5 ''resolved_target'' s of
                     Inl e \<Rightarrow> Inl e
                   | Inr (resolved_target, s) \<Rightarrow>
                       (let (loaded, s) = CreateLoad builder resolved_target [] s;
                            (newTarget, s) =
                              CreateBitCast builder loaded (getType calledOperand)
                                ''castResolvedTarget'' s;
                            (drtiSetCaller, s) =
                              getOrInsertFunction_editing ''_drti_set_caller'' VoidTy
                                [getType treenode] s;
                            setCallerArgs = [treenode];
                            (call, s) = CreateCall builder VoidTy drtiSetCaller setCallerArgs [] s;
                            bs = update_inst callInst (setCalledOperand newTarget) (snd s);
                            bs = update_inst callInst (setTailCallKind TCK_NoTail) bs
                        in Inr (fst s, bs)))
           | _ \<Rightarrow> Inr s0))"

definition isInlineAsm :: "val \<Rightarrow> bool" where
  "isInlineAsm callee = (case callee of InlineAsmV n t \<Rightarrow> True | _ \<Rightarrow> False)"

text \<open>\<^verbatim>\<open>dyn_cast<llvm::Function>\<close>: the function's name, when the value is a function.\<close>

definition dyn_cast_Function :: "val \<Rightarrow> string option" where
  "dyn_cast_Function v = (case v of FunctionV name ret params \<Rightarrow> Some name | _ \<Rightarrow> None)"

text \<open>
  One step of the loop of \<open>collect_calls\<close>, on the list collected so far and the
  \<^verbatim>\<open>unsigned\<close> (32-bit) \<open>call_number\<close>.
\<close>

definition collect_calls_step ::
  "DecoratePass \<Rightarrow> instr \<Rightarrow> (32 word \<times> nat) list \<times> 32 word \<Rightarrow> (32 word \<times> nat) list \<times> 32 word" where
  "collect_calls_step st instruction acc =
     (case acc of (result, call_number) \<Rightarrow>
        (case iop instruction of
           CallBase kind callee args \<Rightarrow>
             if \<not> isInlineAsm callee then
               (let global = dyn_cast_Function callee;
                    type = getPointerElementType (getType callee)
                in (if type \<in> m_target_function_types st
                    then (if global \<noteq> None \<and> the global \<notin> set (m_target_functions st)
                          then result
                          else result @ [(call_number, iid instruction)])
                    else result,
                    call_number + 1))
             else (result, call_number)
         | _ \<Rightarrow> (result, call_number)))"

definition collect_calls :: "DecoratePass \<Rightarrow> block list \<Rightarrow> (32 word \<times> nat) list" where
  "collect_calls st bs =
     fst (fold (\<lambda>blk acc. fold (collect_calls_step st) (insts blk) acc) bs ([], 0))"

text \<open>The identity of a global variable, for the \<open>insertBefore\<close> argument.\<close>

definition global_id :: "val \<Rightarrow> nat option" where
  "global_id v = (case v of GlobalVariableV g t \<Rightarrow> Some g | _ \<Rightarrow> None)"

definition create_landing_global :: "DecoratePass \<Rightarrow> string \<Rightarrow> module \<Rightarrow> val \<times> module" where
  "create_landing_global st function_name m0 =
     (let variableName = ''_drti_landing_'' @ function_name;
          name_initializer = getString variableName;
          (name_global, m) =
            new_GlobalVariable (getType name_initializer) True InternalLinkage name_initializer
              ''__drti_landing_site_name'' None m0;
          function_name_initializer = getString function_name;
          (function_name_global, m) =
            new_GlobalVariable (getType function_name_initializer) True InternalLinkage
              function_name_initializer ''__drti_landing_site_function_name''
              (global_id name_global) m;
          zero = ConstantInt 64 0;
          landing_site_members =
            [zero, getBitCast name_global void_star, getBitCast function_name_global void_star,
             the (m_reflect_global st)];
          landing_site_constant =
            ConstantStruct (the (m_drti_landing_site_type (the (m_inline st)))) landing_site_members
      in new_GlobalVariable (getType landing_site_constant) False InternalLinkage
           landing_site_constant variableName (global_id function_name_global) m)"

definition element_error :: error where
  "element_error = Fatal ''Element number out of range!''"

definition create_callsite_global ::
  "DecoratePass \<Rightarrow> string \<Rightarrow> val \<Rightarrow> 32 word \<Rightarrow> module \<Rightarrow> error + val \<times> module" where
  "create_callsite_global st function_name landing_global call_number m =
     (let zero = ConstantInt 64 0;
          callsite_type = the (m_drti_callsite_type (the (m_inline st)))
      in case getElementType m callsite_type 3 of
           None \<Rightarrow> Inl element_error
         | Some vector_type \<Rightarrow>
             (let callsite_members =
                    [zero, landing_global, ConstantInt 32 (unat call_number),
                     ConstantAggregateZero vector_type];
                  callsite_constant = ConstantStruct callsite_type callsite_members
              in Inr (new_GlobalVariable (getType callsite_constant) False InternalLinkage
                        callsite_constant (''_drti_callsite_'' @ function_name) None m)))"

fun decorate_calls ::
  "DecoratePass \<Rightarrow> string \<Rightarrow> (32 word \<times> nat) list \<Rightarrow> val \<Rightarrow> val \<Rightarrow> editing \<Rightarrow> error + editing" where
  "decorate_calls st function_name [] caller landing_global s = Inr s"
| "decorate_calls st function_name ((call_number, callInst) # collected) caller landing_global s =
     (case create_callsite_global st function_name landing_global call_number (fst s) of
        Inl e \<Rightarrow> Inl e
      | Inr (callsite_global, m) \<Rightarrow>
          (case decorate_call st caller callInst callsite_global (m, snd s) of
             Inl e \<Rightarrow> Inl e
           | Inr s' \<Rightarrow> decorate_calls st function_name collected caller landing_global s'))"

definition set_blocks :: "string \<Rightarrow> block list \<Rightarrow> module \<Rightarrow> module" where
  "set_blocks name bs m =
     m\<lparr>function_list := map (\<lambda>f. if fname f = name then f\<lparr>blocks := bs\<rparr> else f) (function_list m)\<rparr>"

text \<open>The body of the loop of \<open>add_landing_globals\<close>, for one function definition.\<close>

definition add_landing_globals_body :: "extern \<Rightarrow> DecoratePass \<Rightarrow> func \<Rightarrow> module \<Rightarrow> error + module" where
  "add_landing_globals_body x st f m0 =
     (let calls = collect_calls st (blocks f);
          (landing_global, m) = create_landing_global st (fname f) m0
      in case add_landing_update x st (fname f) landing_global (m, blocks f) of
           Inl e \<Rightarrow> Inl e
         | Inr (caller, s) \<Rightarrow>
             (case decorate_calls st (fname f) calls caller landing_global s of
                Inl e \<Rightarrow> Inl e
              | Inr (m', bs) \<Rightarrow> Inr (set_blocks (fname f) bs m')))"

text \<open>
  The loop of \<open>add_landing_globals\<close>. After a definition has been decorated it is printed
  to \<^verbatim>\<open>llvm::dbgs()\<close>, as it then stands in the module.
\<close>

fun add_landing_globals_loop ::
  "extern \<Rightarrow> DecoratePass \<Rightarrow> string list \<Rightarrow> module \<Rightarrow> world \<Rightarrow> error + module \<times> world" where
  "add_landing_globals_loop x st [] m w = Inr (m, w)"
| "add_landing_globals_loop x st (name # names) m w =
     (case getFunction m name of
        None \<Rightarrow> add_landing_globals_loop x st names m w
      | Some f \<Rightarrow>
          if \<not> isDeclaration f then
            (case add_landing_globals_body x st f m of
               Inl e \<Rightarrow> Inl e
             | Inr m' \<Rightarrow>
                 add_landing_globals_loop x st names m'
                   (w\<lparr>trace := trace w @ [Dbgs (PrintFunctionPass x m' name)]\<rparr>))
          else add_landing_globals_loop x st names m w)"

definition add_landing_globals ::
  "extern \<Rightarrow> DecoratePass \<Rightarrow> world \<Rightarrow> error + DecoratePass \<times> world" where
  "add_landing_globals x st w =
     (case add_landing_globals_loop x st (m_target_functions st) (m_module st) w of
        Inl e \<Rightarrow> Inl e
      | Inr (m, w') \<Rightarrow> Inr (st\<lparr>m_module := m\<rparr>, w'))"

subsection \<open>The pass\<close>

definition supported_triple :: string where
  "supported_triple = ''x86_64-unknown-linux-gnu''"

definition drti_triple :: string where
  "drti_triple = ''x86_64_drti-unknown-linux-gnu''"

text \<open>
  The result is the value \<open>runOnModule\<close> returns, the module as the pass leaves it and
  the world with its trace, or the fatal error that ended the process.
\<close>

definition runOnModule :: "extern \<Rightarrow> module \<Rightarrow> world \<Rightarrow> error + bool \<times> module \<times> world" where
  "runOnModule x m w =
     (let targetTriple = triple m
      in if targetTriple \<noteq> supported_triple then
           Inr (False, m,
                w\<lparr>trace := trace w @
                   [Dbgs (''drti: skipping module for target '' @ targetTriple @ [CHR 0x0A])]\<rparr>)
         else
           (case new_DecoratePass m w of
              Inl e \<Rightarrow> Inl e
            | Inr (decorator, w) \<Rightarrow>
                (case find_target_functions decorator of
                   (False, decorator) \<Rightarrow> Inr (False, m_module decorator, w)
                 | (True, decorator) \<Rightarrow>
                     (case add_helpers x decorator of
                        Inl e \<Rightarrow> Inl e
                      | Inr (False, decorator) \<Rightarrow> Inr (False, m_module decorator, w)
                      | Inr (True, decorator) \<Rightarrow>
                          (case lookup_helpers decorator of
                             (False, decorator) \<Rightarrow> Inr (True, m_module decorator, w)
                           | (True, decorator) \<Rightarrow>
                               (case add_landing_globals x (create_self x decorator) w of
                                  Inl e \<Rightarrow> Inl e
                                | Inr (decorator, w) \<Rightarrow>
                                    Inr (True, (m_module decorator)\<lparr>triple := drti_triple\<rparr>, w)))))))"

section \<open>TargetSpecification never yields an empty set\<close>

text \<open>
  A configuration source yields a name exactly when it holds a character that is not
  whitespace.
\<close>

definition yields_name :: "string \<Rightarrow> bool" where
  "yields_name s = (\<exists>c \<in> set s. \<not> isspace c)"

definition config_yields_name :: "world \<Rightarrow> bool" where
  "config_yields_name w =
     ((case environ w ''DRTI_TARGET_NAMES'' of
         None \<Rightarrow> False | Some names \<Rightarrow> yields_name names) \<or>
      (case environ w ''DRTI_TARGETS_FILE'' of
         None \<Rightarrow> False
       | Some path \<Rightarrow> (case files w path of None \<Rightarrow> False | Some contents \<Rightarrow> yields_name contents)))"

lemma extract_symbol_None: "extract_symbol s = None \<longleftrightarrow> \<not> yields_name s"
  by (auto simp: extract_symbol_def yields_name_def Let_def dropWhile_eq_Nil_conv)

lemma split_stream_empty_iff:
  "split_stream s A = {} \<longleftrightarrow> A = {} \<and> \<not> yields_name s"
proof (induction s A rule: split_stream.induct)
  case (1 stream symbols)
  show ?case
  proof (cases "extract_symbol stream")
    case None
    then have "\<not> yields_name stream" by (simp add: extract_symbol_None)
    with None show ?thesis
      by (simp add: split_stream.simps [of stream])
  next
    case (Some p)
    obtain symbol rest where p: "p = (symbol, rest)" by (cases p)
    from Some have y: "yields_name stream"
      using extract_symbol_None [of stream] by auto
    from "1.IH" [OF Some [unfolded p] refl]
    have "split_stream rest (insert symbol symbols) \<noteq> {}" by simp
    with Some p y show ?thesis
      by (simp add: split_stream.simps [of stream])
  qed
qed

definition w_names :: world where
  "w_names = \<lparr>environ = [''DRTI_TARGET_NAMES'' \<mapsto> ''hot_fn helper''], files = Map.empty, trace = []\<rparr>"

definition w_blank :: world where
  "w_blank = \<lparr>environ = [''DRTI_TARGET_NAMES'' \<mapsto> '' '', ''DRTI_TARGETS_FILE'' \<mapsto> ''/nonexistent''],
              files = Map.empty, trace = []\<rparr>"

text \<open>
  Claim C7. TargetSet construction never returns an empty set: when the inline name list
  or the names file holds at least one non-whitespace character (at least one name), the
  result is a non-empty set; when neither does, construction aborts with the fatal
  diagnostic, which names both \<^verbatim>\<open>DRTI_TARGET_NAMES\<close> and \<^verbatim>\<open>DRTI_TARGETS_FILE\<close>.
\<close>

theorem targets_from_environment_never_empty:
  "(config_yields_name w \<longrightarrow>
      (\<exists>S w'. targets_from_environment w = Inr (S, w') \<and> S \<noteq> {})) \<and>
   (\<not> config_yields_name w \<longrightarrow>
      targets_from_environment w = Inl (Fatal no_targets_message)) \<and>
   (\<forall>S w'. targets_from_environment w = Inr (S, w') \<longrightarrow> S \<noteq> {}) \<and>
   sublist ''DRTI_TARGET_NAMES'' no_targets_message \<and>
   sublist ''DRTI_TARGETS_FILE'' no_targets_message"
proof -
  have msg1: "sublist ''DRTI_TARGET_NAMES'' no_targets_message"
    unfolding sublist_def no_targets_message_def
    by (rule exI [of _ "''No target functions found. Have you set ''"],
        rule exI [of _ "'' and/or DRTI_TARGETS_FILE?''"]) simp
  have msg2: "sublist ''DRTI_TARGETS_FILE'' no_targets_message"
    unfolding sublist_def no_targets_message_def
    by (rule exI [of _ "''No target functions found. Have you set DRTI_TARGET_NAMES and/or ''"],
        rule exI [of _ "''?''"]) simp
  have ne: "\<And>S w'. targets_from_environment w = Inr (S, w') \<Longrightarrow> S \<noteq> {}"
    by (auto simp: targets_from_environment_def Let_def split: prod.splits if_splits)
  have yes: "config_yields_name w \<Longrightarrow> \<exists>S w'. targets_from_environment w = Inr (S, w') \<and> S \<noteq> {}"
    by (auto simp: targets_from_environment_def config_yields_name_def getenv_def ifstream_def
          Let_def split_stream_empty_iff split: option.splits)
  have no: "\<not> config_yields_name w \<Longrightarrow> targets_from_environment w = Inl (Fatal no_targets_message)"
    by (auto simp: targets_from_environment_def config_yields_name_def getenv_def ifstream_def
          Let_def split_stream_empty_iff yields_name_def split: option.splits)
  from msg1 msg2 ne yes no show ?thesis by blast
qed

theorem targets_from_environment_never_empty_witness:
  "config_yields_name w_names \<and>
   (\<exists>S w'. targets_from_environment w_names = Inr (S, w') \<and> S \<noteq> {}) \<and>
   \<not> config_yields_name w_blank \<and>
   targets_from_environment w_blank = Inl (Fatal no_targets_message)"
proof -
  have h1: "config_yields_name w_names"
    by (simp add: config_yields_name_def w_names_def yields_name_def isspace_def)
  have h2: "\<not> config_yields_name w_blank"
    by (simp add: config_yields_name_def w_blank_def yields_name_def isspace_def)
  from h1 h2 targets_from_environment_never_empty [of w_names]
    targets_from_environment_never_empty [of w_blank]
  show ?thesis by blast
qed

section \<open>A module, a support blob and an environment to run the pass on\<close>

definition callback_type :: ty where
  "callback_type = FunctionTy VoidTy []"

definition hot_fn :: func where
  "hot_fn =
     \<lparr>fname = ''hot_fn'', fret = VoidTy, fparams = [PointerTy callback_type], fattrs = {OptimizeNone, NoInline},
      blocks =
        [\<lparr>bid = 0, bname = ''entry'', insts =
           [\<lparr>iid = 1, iname = ''slot'', itype = PointerTy (IntegerTy 32), iop = Alloca (IntegerTy 32)\<rparr>,
            \<lparr>iid = 2, iname = [], itype = VoidTy,
             iop = CallBase (CallInst TCK_Tail) (FunctionV ''helper'' VoidTy []) []\<rparr>,
            \<lparr>iid = 3, iname = [], itype = VoidTy,
             iop = CallBase (CallInst TCK_None) (InlineAsmV 0 (PointerTy callback_type)) []\<rparr>,
            \<lparr>iid = 4, iname = [], itype = VoidTy,
             iop = CallBase (CallInst TCK_None) (FunctionV ''other'' VoidTy []) []\<rparr>,
            \<lparr>iid = 5, iname = [], itype = IntegerTy 32,
             iop = CallBase (CallInst TCK_None) (FunctionV ''puts'' (IntegerTy 32) [void_star])
                     [ConstantPointerNull void_star]\<rparr>,
            \<lparr>iid = 6, iname = [], itype = VoidTy,
             iop = CallBase (CallInst TCK_None) (ArgumentV 0 (PointerTy callback_type)) []\<rparr>,
            \<lparr>iid = 7, iname = [], itype = VoidTy, iop = OtherInst True\<rparr>]\<rparr>]\<rparr>"

definition helper_decl :: func where
  "helper_decl = \<lparr>fname = ''helper'', fret = VoidTy, fparams = [], fattrs = {}, blocks = []\<rparr>"

definition other_fn :: func where
  "other_fn =
     \<lparr>fname = ''other'', fret = VoidTy, fparams = [], fattrs = {},
      blocks = [\<lparr>bid = 8, bname = ''entry'', insts =
                  [\<lparr>iid = 9, iname = [], itype = VoidTy, iop = OtherInst True\<rparr>]\<rparr>]\<rparr>"

definition puts_decl :: func where
  "puts_decl = \<lparr>fname = ''puts'', fret = IntegerTy 32, fparams = [void_star], fattrs = {}, blocks = []\<rparr>"

definition example_module :: module where
  "example_module =
     \<lparr>triple = ''x86_64-unknown-linux-gnu'',
      function_list = [hot_fn, helper_decl, other_fn, puts_decl],
      globals = [], named_structs = Map.empty, next_id = 10\<rparr>"

definition foreign_module :: module where
  "foreign_module = example_module\<lparr>triple := ''aarch64-unknown-linux-gnu''\<rparr>"

definition empty_support :: module where
  "empty_support =
     \<lparr>triple = ''x86_64-unknown-linux-gnu'', function_list = [], globals = [],
      named_structs = Map.empty, next_id = 0\<rparr>"

text \<open>A linker that appends the functions of the source and adds its named struct types.\<close>

definition example_link :: "module \<Rightarrow> module \<Rightarrow> bool \<times> module" where
  "example_link dst src =
     (False,
      dst\<lparr>function_list := function_list dst @ function_list src,
          named_structs := named_structs dst ++ named_structs src,
          next_id := max (next_id dst) (next_id src)\<rparr>)"

definition bare_extern :: extern where
  "bare_extern =
     \<lparr>parseBitcodeFile = Inr empty_support, linkInModule = example_link,
      writeModule = (\<lambda>m. concat (map fname (function_list m))),
      visit_listed_globals = (\<lambda>m. []), PrintFunctionPass = (\<lambda>m name. CHR 0x0A # name),
      DRTI_RETALIGN = 16, DRTI_MAGIC = 0x4954524449545244\<rparr>"

definition example_pass :: DecoratePass where
  "example_pass =
     \<lparr>m_target_function_names = {''hot_fn'', ''helper''}, m_module = example_module,
      m_target_functions = [], m_target_function_types = {}, m_inline = None,
      m_reflect_global = None\<rparr>"

lemma w_names_targets:
  "targets_from_environment w_names =
     Inr ({''hot_fn'', ''helper''},
          w_names\<lparr>trace := [Getenv ''DRTI_TARGET_NAMES'', Getenv ''DRTI_TARGETS_FILE'']\<rparr>)"
  by (simp add: targets_from_environment_def w_names_def getenv_def split_stream.simps
        extract_symbol_def isspace_def insert_commute)

section \<open>Skips and aborts of the pass\<close>

text \<open>
  Claim C9. A module whose target triple is not the supported one is returned as it is and
  without error: \<open>runOnModule\<close> returns \<open>false\<close> and the module is the one given, so no
  global is added, no function changes and the triple stays.
\<close>

theorem unsupported_triple_unmodified:
  assumes "triple m \<noteq> supported_triple"
  shows "\<exists>w'. runOnModule x m w = Inr (False, m, w')"
  using assms by (simp add: runOnModule_def)

theorem unsupported_triple_unmodified_witness:
  "triple foreign_module \<noteq> supported_triple \<and>
   (\<exists>w'. runOnModule bare_extern foreign_module w_names = Inr (False, foreign_module, w'))"
proof -
  have h: "triple foreign_module \<noteq> supported_triple"
    by (simp add: foreign_module_def example_module_def supported_triple_def)
  from h unsupported_triple_unmodified [OF h, of bare_extern w_names] show ?thesis by blast
qed

definition is_config_read :: "event \<Rightarrow> bool" where
  "is_config_read e = (case e of Getenv name \<Rightarrow> True | OpenFile path \<Rightarrow> True | Dbgs text \<Rightarrow> False)"

text \<open>
  Claim C10. The triple is checked before the configuration is read: for a module of
  another triple the pass returns the module unchanged without reading either environment
  variable or opening the names file, so an empty or absent configuration causes no abort.
\<close>

theorem triple_check_before_configuration:
  assumes "triple m \<noteq> supported_triple"
  shows "\<exists>w'. runOnModule x m w = Inr (False, m, w') \<and>
           filter is_config_read (trace w') = filter is_config_read (trace w) \<and>
           environ w' = environ w \<and> files w' = files w"
  using assms by (simp add: runOnModule_def is_config_read_def)

theorem triple_check_before_configuration_witness:
  "triple foreign_module \<noteq> supported_triple \<and>
   targets_from_environment w_blank = Inl (Fatal no_targets_message) \<and>
   (\<exists>w'. runOnModule bare_extern foreign_module w_blank = Inr (False, foreign_module, w') \<and>
      filter is_config_read (trace w') = filter is_config_read (trace w_blank) \<and>
      environ w' = environ w_blank \<and> files w' = files w_blank)"
proof -
  have h: "triple foreign_module \<noteq> supported_triple"
    by (simp add: foreign_module_def example_module_def supported_triple_def)
  have a: "targets_from_environment w_blank = Inl (Fatal no_targets_message)"
    by (simp add: targets_from_environment_def w_blank_def getenv_def ifstream_def
          split_stream.simps extract_symbol_def isspace_def)
  from h a triple_check_before_configuration [OF h, of bare_extern w_blank] show ?thesis by blast
qed

text \<open>With the supported triple the same configuration does abort the pass.\<close>

lemma supported_empty_configuration_aborts:
  "runOnModule bare_extern example_module w_blank = Inl (Fatal no_targets_message)"
  by (simp add: runOnModule_def example_module_def supported_triple_def new_DecoratePass_def
        targets_from_environment_def w_blank_def getenv_def ifstream_def
        split_stream.simps extract_symbol_def isspace_def)

section \<open>TargetDiscovery\<close>

lemma find_target_functions_loop_module [simp]:
  "m_module (find_target_functions_loop fs st) = m_module st"
  by (induction fs arbitrary: st) auto

lemma find_target_functions_loop_inline [simp]:
  "m_inline (find_target_functions_loop fs st) = m_inline st"
  by (induction fs arbitrary: st) auto

lemma find_target_functions_loop_names [simp]:
  "m_target_function_names (find_target_functions_loop fs st) = m_target_function_names st"
  by (induction fs arbitrary: st) auto

lemma find_target_functions_loop_functions:
  "set (m_target_functions (find_target_functions_loop fs st)) =
     set (m_target_functions st) \<union> {fname f | f. f \<in> set fs \<and> fname f \<in> m_target_function_names st}"
  by (induction fs arbitrary: st) auto

lemma find_target_functions_loop_types:
  "m_target_function_types (find_target_functions_loop fs st) =
     m_target_function_types st \<union>
     {getFunctionType f | f. f \<in> set fs \<and> fname f \<in> m_target_function_names st}"
  by (induction fs arbitrary: st) auto

text \<open>
  Claim C3, as stated, fails: a matched declaration is recorded among the target functions
  too. Here \<open>helper\<close> is a declaration of the module and is recorded.
\<close>

theorem declaration_recorded_as_target_function:
  "getFunction example_module ''helper'' = Some helper_decl \<and> isDeclaration helper_decl \<and>
   m_target_functions (snd (find_target_functions example_pass)) = [''helper'', ''hot_fn'']"
  by (simp add: find_target_functions_def example_pass_def example_module_def getFunction_def
        hot_fn_def helper_decl_def other_fn_def puts_decl_def isDeclaration_def)

text \<open>
  Claim C3, amended. Target discovery records every matched function, definition or
  declaration, among the target functions, and the function type of every matched
  function among the target signatures; it reports whether any function was recorded.
\<close>

theorem find_target_functions_records_every_match:
  "set (m_target_functions (snd (find_target_functions st))) =
     set (m_target_functions st) \<union>
     {fname f | f. f \<in> set (function_list (m_module st)) \<and> fname f \<in> m_target_function_names st} \<and>
   m_target_function_types (snd (find_target_functions st)) =
     m_target_function_types st \<union>
     {getFunctionType f | f. f \<in> set (function_list (m_module st)) \<and> fname f \<in> m_target_function_names st} \<and>
   fst (find_target_functions st) = (m_target_functions (snd (find_target_functions st)) \<noteq> [])"
  by (simp add: find_target_functions_def Let_def find_target_functions_loop_functions
        find_target_functions_loop_types)

section \<open>Missing support types or routines\<close>

text \<open>
  Claim C8. When, after support linking, one of the four struct types or one of the two
  hand-off routines is missing, the pass returns normally (with \<open>true\<close>, since linking
  changed the module) and the module is exactly the linker's result: no snapshot and no
  landing or call-site decoration is added.
\<close>

theorem missing_helpers_leave_module_linked:
  assumes "triple m = supported_triple"
    and "targets_from_environment w = Inr (names, w')"
    and "\<exists>f \<in> set (function_list m). fname f \<in> names"
    and "parseBitcodeFile x = Inr support"
    and "linkInModule x m support = (False, linked)"
    and "getTypeByName linked ''struct.drti::landing_site'' = None \<or>
         getTypeByName linked ''struct.drti::static_callsite'' = None \<or>
         getTypeByName linked ''struct.drti::treenode'' = None \<or>
         getTypeByName linked ''struct.drti::reflect'' = None \<or>
         getFunction linked ''_drti_landed'' = None \<or>
         getFunction linked ''_drti_call_from'' = None"
  shows "runOnModule x m w = Inr (True, linked, w')"
proof -
  let ?st = "\<lparr>m_target_function_names = names, m_module = m, m_target_functions = [],
       m_target_function_types = {}, m_inline = None, m_reflect_global = None\<rparr>"
  let ?st1 = "find_target_functions_loop (function_list m) ?st"
  have new: "new_DecoratePass m w = Inr (?st, w')"
    using assms(2) by (simp add: new_DecoratePass_def)
  have "set (m_target_functions ?st1) \<noteq> {}"
    using assms(3) by (auto simp: find_target_functions_loop_functions)
  then have found: "find_target_functions ?st = (True, ?st1)"
    by (auto simp: find_target_functions_def)
  have helpers: "add_helpers x ?st1 = Inr (True, ?st1\<lparr>m_module := linked\<rparr>)"
    using assms(4,5) by (simp add: add_helpers_def)
  have "\<not> ok (new_InlineHelpers linked)"
    using assms(6) by (auto simp: ok_def new_InlineHelpers_def)
  then have lookup: "lookup_helpers (?st1\<lparr>m_module := linked\<rparr>) =
      (False, ?st1\<lparr>m_module := linked, m_inline := Some (new_InlineHelpers linked)\<rparr>)"
    by (simp add: lookup_helpers_def)
  show ?thesis
    using assms(1) by (simp add: runOnModule_def new found helpers lookup)
qed

theorem missing_helpers_leave_module_linked_witness:
  "runOnModule bare_extern example_module w_names =
     Inr (True, example_module,
          w_names\<lparr>trace := [Getenv ''DRTI_TARGET_NAMES'', Getenv ''DRTI_TARGETS_FILE'']\<rparr>)"
proof -
  have 1: "triple example_module = supported_triple"
    by (simp add: example_module_def supported_triple_def)
  have 3: "\<exists>f \<in> set (function_list example_module). fname f \<in> {''hot_fn'', ''helper''}"
    by (simp add: example_module_def hot_fn_def)
  have 4: "parseBitcodeFile bare_extern = Inr empty_support"
    by (simp add: bare_extern_def)
  have 5: "linkInModule bare_extern example_module empty_support = (False, example_module)"
    by (simp add: bare_extern_def example_link_def empty_support_def example_module_def)
  have 6: "getTypeByName example_module ''struct.drti::landing_site'' = None"
    by (simp add: getTypeByName_def example_module_def)
  show ?thesis
    by (rule missing_helpers_leave_module_linked [OF 1 w_names_targets 3 4 5 disjI1 [OF 6]])
qed

section \<open>Call collection: which calls are selected, and their numbers\<close>

text \<open>
  A call is counted when it is not a call of inline assembly. It is selected when,
  moreover, the pointee type of its callee is a recorded target type and its callee is
  not a function outside the recorded target functions.
\<close>

definition counted_call :: "instr \<Rightarrow> bool" where
  "counted_call i = (case iop i of CallBase kind callee args \<Rightarrow> \<not> isInlineAsm callee | _ \<Rightarrow> False)"

definition selected_call :: "DecoratePass \<Rightarrow> instr \<Rightarrow> bool" where
  "selected_call st i =
     (case iop i of
        CallBase kind callee args \<Rightarrow>
          \<not> isInlineAsm callee \<and>
          getPointerElementType (getType callee) \<in> m_target_function_types st \<and>
          (case dyn_cast_Function callee of
             None \<Rightarrow> True
           | Some name \<Rightarrow> name \<in> set (m_target_functions st))
      | _ \<Rightarrow> False)"

lemma collect_calls_step_cases:
  "collect_calls_step st i (result, n) =
     (if selected_call st i then result @ [(n, iid i)] else result,
      if counted_call i then n + 1 else n)"
  by (auto simp: collect_calls_step_def selected_call_def counted_call_def Let_def
        split: opcode.splits option.splits)

lemma selected_counted: "selected_call st i \<Longrightarrow> counted_call i"
  by (auto simp: selected_call_def counted_call_def split: opcode.splits)

lemma fold_collect_calls_step:
  "fold (collect_calls_step st) is (result, of_nat k) =
     (result @ map (\<lambda>(j, i). (of_nat j, iid i))
                 (filter (\<lambda>(j, i). selected_call st i) (enumerate k (filter counted_call is))),
      of_nat (k + length (filter counted_call is)))"
proof (induction "is" arbitrary: result k)
  case Nil
  then show ?case by simp
next
  case (Cons i "is")
  define r where "r = (if selected_call st i then result @ [(of_nat k, iid i)] else result)"
  define k' where "k' = (if counted_call i then Suc k else k)"
  have step: "collect_calls_step st i (result, of_nat k) = (r, of_nat k')"
    by (simp add: collect_calls_step_cases r_def k'_def add.commute)
  have "fold (collect_calls_step st) (i # is) (result, of_nat k) =
      fold (collect_calls_step st) is (r, of_nat k')"
    by (simp only: fold_simps step)
  also have "\<dots> =
      (r @ map (\<lambda>(j, i). (of_nat j, iid i))
             (filter (\<lambda>(j, i). selected_call st i) (enumerate k' (filter counted_call is))),
       of_nat (k' + length (filter counted_call is)))"
    by (rule Cons.IH)
  also have "\<dots> =
      (result @ map (\<lambda>(j, i). (of_nat j, iid i))
                 (filter (\<lambda>(j, i). selected_call st i)
                    (enumerate k (filter counted_call (i # is)))),
       of_nat (k + length (filter counted_call (i # is))))"
    using selected_counted [of st i] by (auto simp: r_def k'_def)
  finally show ?case .
qed

lemma fold_blocks_concat:
  "fold (\<lambda>blk acc. fold f (insts blk) acc) bs acc = fold f (concat (map insts bs)) acc"
  by (induction bs arbitrary: acc) auto

lemma collect_calls_enumerate:
  "collect_calls st bs =
     map (\<lambda>(j, i). (of_nat j, iid i))
       (filter (\<lambda>(j, i). selected_call st i)
          (enumerate 0 (filter counted_call (concat (map insts bs)))))"
  using fold_collect_calls_step [of st "concat (map insts bs)" "[]" 0]
  by (simp add: collect_calls_def fold_blocks_concat)

lemma map_snd_filter_enumerate:
  "map snd (filter (\<lambda>(j, i). P i) (enumerate k xs)) = filter P xs"
  by (induction xs arbitrary: k) auto

definition found_pass :: DecoratePass where
  "found_pass = snd (find_target_functions example_pass)"

lemma found_pass_eq:
  "found_pass = example_pass\<lparr>m_target_functions := [''helper'', ''hot_fn''],
      m_target_function_types := {FunctionTy VoidTy [], FunctionTy VoidTy [PointerTy callback_type]}\<rparr>"
  by (simp add: found_pass_def find_target_functions_def example_pass_def example_module_def
        hot_fn_def helper_decl_def other_fn_def puts_decl_def getFunctionType_def insert_commute)

lemma collect_calls_hot_fn: "collect_calls found_pass (blocks hot_fn) = [(0, 2), (3, 6)]"
  by (simp add: found_pass_eq collect_calls_def collect_calls_step_def hot_fn_def isInlineAsm_def
        dyn_cast_Function_def getPointerElementType_def callback_type_def example_pass_def void_star_def)

text \<open>
  Claim C4, as stated, fails. In \<open>hot_fn\<close> the call of inline assembly (3) has a callee of
  a recorded target type and no known function as callee, and the direct call (4) has a
  callee of a recorded target type that is a definition of the module, not an external
  declaration; neither is collected.
\<close>

theorem matching_calls_not_collected:
  "map snd (collect_calls found_pass (blocks hot_fn)) = [2, 6] \<and>
   find_inst 3 (blocks hot_fn) =
     Some \<lparr>iid = 3, iname = [], itype = VoidTy,
           iop = CallBase (CallInst TCK_None) (InlineAsmV 0 (PointerTy callback_type)) []\<rparr> \<and>
   find_inst 4 (blocks hot_fn) =
     Some \<lparr>iid = 4, iname = [], itype = VoidTy,
           iop = CallBase (CallInst TCK_None) (FunctionV ''other'' VoidTy []) []\<rparr> \<and>
   callback_type \<in> m_target_function_types found_pass \<and>
   getFunction (m_module found_pass) ''other'' = Some other_fn \<and>
   \<not> isDeclaration other_fn"
proof -
  have 1: "map snd (collect_calls found_pass (blocks hot_fn)) = [2, 6]"
    by (simp add: collect_calls_hot_fn)
  have 2: "find_inst 3 (blocks hot_fn) =
     Some \<lparr>iid = 3, iname = [], itype = VoidTy,
           iop = CallBase (CallInst TCK_None) (InlineAsmV 0 (PointerTy callback_type)) []\<rparr>"
    by (simp add: find_inst_def hot_fn_def)
  have 3: "find_inst 4 (blocks hot_fn) =
     Some \<lparr>iid = 4, iname = [], itype = VoidTy,
           iop = CallBase (CallInst TCK_None) (FunctionV ''other'' VoidTy []) []\<rparr>"
    by (simp add: find_inst_def hot_fn_def)
  have 4: "callback_type \<in> m_target_function_types found_pass"
    by (simp add: found_pass_eq callback_type_def)
  have 5: "getFunction (m_module found_pass) ''other'' = Some other_fn"
    by (simp add: found_pass_eq example_pass_def example_module_def getFunction_def
          hot_fn_def helper_decl_def other_fn_def)
  have 6: "\<not> isDeclaration other_fn"
    by (simp add: other_fn_def isDeclaration_def)
  from 1 2 3 4 5 6 show ?thesis by blast
qed

lemma collect_calls_ids:
  "map snd (collect_calls st bs) =
     map iid (filter (selected_call st) (concat (map insts bs)))"
proof -
  have "map snd (collect_calls st bs) =
      map iid (map snd (filter (\<lambda>(j, i). selected_call st i)
          (enumerate 0 (filter counted_call (concat (map insts bs))))))"
    by (simp add: collect_calls_enumerate case_prod_beta comp_def)
  also have "\<dots> = map iid (filter (selected_call st) (filter counted_call (concat (map insts bs))))"
    by (simp only: map_snd_filter_enumerate)
  also have "\<dots> = map iid (filter (selected_call st) (concat (map insts bs)))"
    using selected_counted by (auto intro!: arg_cong [where f = "map iid"] filter_cong)
  finally show ?thesis .
qed

text \<open>
  Claim C4, amended. The calls collected in a function are, in encounter order, exactly
  the calls that are not inline assembly, whose callee's pointee type is a recorded
  target type, and whose callee is not a function (declared or defined) outside the
  recorded target functions. So a call through a function pointer of a recorded type is
  collected and a direct call to a function that is no target is not.
\<close>

theorem collect_calls_selects:
  "map snd (collect_calls st bs) =
     map iid (filter (selected_call st) (concat (map insts bs)))"
  by (rule collect_calls_ids)

theorem collect_calls_selects_witness:
  "map snd (collect_calls found_pass (blocks hot_fn)) = [2, 6] \<and>
   map iid (filter (selected_call found_pass) (concat (map insts (blocks hot_fn)))) = [2, 6]"
  using collect_calls_selects [of found_pass "blocks hot_fn"] by (simp add: collect_calls_hot_fn)

section \<open>Identities of instructions and blocks\<close>

text \<open>
  The sets of identities in a body, and what the editing operations do to a body whose
  identities are distinct and below the module's \<open>next_id\<close>.
\<close>

definition inst_ids :: "block list \<Rightarrow> nat set" where
  "inst_ids bs = iid ` set (concat (map insts bs))"

definition block_ids :: "block list \<Rightarrow> nat set" where
  "block_ids bs = bid ` set bs"

lemma inst_ids_simps [simp]:
  "inst_ids [] = {}"
  "inst_ids (b # bs) = iid ` set (insts b) \<union> inst_ids bs"
  "inst_ids (bs @ cs) = inst_ids bs \<union> inst_ids cs"
  by (auto simp: inst_ids_def)

lemma block_ids_simps [simp]:
  "block_ids [] = {}"
  "block_ids (b # bs) = insert (bid b) (block_ids bs)"
  "block_ids (bs @ cs) = block_ids bs \<union> block_ids cs"
  by (auto simp: block_ids_def)

lemma update_block_simps [simp]:
  "update_block e g [] = []"
  "update_block e g (b # bs) = (if bid b = e then g b else b) # update_block e g bs"
  "update_block e g (bs @ cs) = update_block e g bs @ update_block e g cs"
  by (simp_all add: update_block_def)

lemma update_block_notin [simp]: "e \<notin> block_ids bs \<Longrightarrow> update_block e g bs = bs"
  by (induction bs) auto

lemma insert_before_notin [simp]: "c \<notin> iid ` set xs \<Longrightarrow> insert_before c new xs = xs"
  by (induction xs) auto

lemma insert_before_append [simp]:
  "c \<notin> iid ` set xs \<Longrightarrow> insert_before c new (xs @ ys) = xs @ insert_before c new ys"
  by (induction xs) auto

lemma insert_inst_simps [simp]:
  "insert_inst ip new [] = []"
  "insert_inst (BeforeInst c) new (b # bs) =
     b\<lparr>insts := insert_before c new (insts b)\<rparr> # insert_inst (BeforeInst c) new bs"
  "insert_inst (AtEnd e) new (b # bs) =
     (if bid b = e then b\<lparr>insts := insts b @ [new]\<rparr> else b) # insert_inst (AtEnd e) new bs"
  "insert_inst ip new (bs @ cs) = insert_inst ip new bs @ insert_inst ip new cs"
  by (simp_all add: insert_inst_def split: insert_point.splits)

lemma insert_inst_before_notin [simp]:
  "c \<notin> inst_ids bs \<Longrightarrow> insert_inst (BeforeInst c) new bs = bs"
  by (induction bs) auto

lemma insert_inst_end_notin [simp]:
  "e \<notin> block_ids bs \<Longrightarrow> insert_inst (AtEnd e) new bs = bs"
  by (induction bs) auto

lemma map_update_notin: "p \<notin> iid ` set xs \<Longrightarrow> map (\<lambda>i. if iid i = p then g i else i) xs = xs"
  by (induction xs) auto

lemma update_inst_simps [simp]:
  "update_inst p g [] = []"
  "update_inst p g (b # bs) =
     b\<lparr>insts := map (\<lambda>i. if iid i = p then g i else i) (insts b)\<rparr> # update_inst p g bs"
  "update_inst p g (bs @ cs) = update_inst p g bs @ update_inst p g cs"
  by (simp_all add: update_inst_def)

lemma update_inst_notin [simp]: "p \<notin> inst_ids bs \<Longrightarrow> update_inst p g bs = bs"
  by (induction bs) (auto simp: map_update_notin)

definition replace_phis :: "nat \<Rightarrow> nat \<Rightarrow> block list \<Rightarrow> block list" where
  "replace_phis old new bs = map (\<lambda>blk. blk\<lparr>insts := map (replacePhiUsesWith old new) (insts blk)\<rparr>) bs"

lemma replacePhiUsesWith_iid [simp]: "iid (replacePhiUsesWith a b i) = iid i"
  by (simp add: replacePhiUsesWith_def split: opcode.splits)

lemma replacePhiUsesWith_alloca [simp]: "isAllocaInst i \<Longrightarrow> replacePhiUsesWith a b i = i"
  by (auto simp: replacePhiUsesWith_def isAllocaInst_def split: opcode.splits)

lemma replacePhiUsesWith_isAlloca [simp]: "isAllocaInst (replacePhiUsesWith a b i) = isAllocaInst i"
  by (auto simp: replacePhiUsesWith_def isAllocaInst_def split: opcode.splits)

lemma replace_phis_ids [simp]:
  "inst_ids (replace_phis a b bs) = inst_ids bs" "block_ids (replace_phis a b bs) = block_ids bs"
  by (auto simp: replace_phis_def inst_ids_def block_ids_def image_iff) force+

lemma map_replace_allocas: "\<forall>i \<in> set xs. isAllocaInst i \<Longrightarrow> map (replacePhiUsesWith a b) xs = xs"
  by (induction xs) auto

lemma getOrInsertFunction_next_id:
  "getOrInsertFunction name ret params (m\<lparr>next_id := k\<rparr>) =
     (fst (getOrInsertFunction name ret params m), (snd (getOrInsertFunction name ret params m))\<lparr>next_id := k\<rparr>)"
  by (simp add: getOrInsertFunction_def getNamedValue_def getFunction_def split: option.splits)

lemma getOrInsertFunction_next_id' [simp]:
  "next_id (snd (getOrInsertFunction name ret params m)) = next_id m"
  by (simp add: getOrInsertFunction_def split: option.splits)

lemma splitBasicBlock_entry:
  assumes "insts entryBlock = allocas @ splitPoint # tail"
    and "iid splitPoint \<notin> iid ` set allocas"
    and "bid entryBlock \<notin> block_ids rest"
  shows "splitBasicBlock (bid entryBlock) (iid splitPoint) name (m, entryBlock # rest) =
     (next_id m,
      (m\<lparr>next_id := Suc (Suc (next_id m))\<rparr>,
       entryBlock\<lparr>insts := map (replacePhiUsesWith (bid entryBlock) (next_id m)) allocas @
            [\<lparr>iid = Suc (next_id m), iname = [], itype = VoidTy, iop = Br (next_id m)\<rparr>]\<rparr> #
       \<lparr>bid = next_id m, bname = name,
         insts = map (replacePhiUsesWith (bid entryBlock) (next_id m)) (splitPoint # tail)\<rparr> #
       replace_phis (bid entryBlock) (next_id m) rest))"
proof -
  have tw: "takeWhile (\<lambda>i. iid i \<noteq> iid splitPoint) (allocas @ splitPoint # tail) = allocas"
    using assms(2) by (induction allocas) auto
  have dw: "dropWhile (\<lambda>i. iid i \<noteq> iid splitPoint) (allocas @ splitPoint # tail) = splitPoint # tail"
    using assms(2) by (induction allocas) auto
  have rest: "concat (map (\<lambda>blk. if bid blk = bid entryBlock then f blk else [blk]) rest) = rest" for f
    using assms(3) by (induction rest) auto
  show ?thesis
    by (simp add: splitBasicBlock_def Let_def assms(1) tw dw rest replace_phis_def
          replacePhiUsesWith_def)
qed

section \<open>The code that \<open>add_landing_update\<close> inserts\<close>

text \<open>
  The instructions \<open>add_landing_update\<close> creates, by block, numbered from the module's
  \<open>next_id\<close> \<open>n\<close>: the blocks \<open>drti_land1\<close>, \<open>drti_land2\<close>, \<open>drti_land3\<close> get
  \<open>n\<close>, \<open>n + 2\<close>, \<open>n + 3\<close> (\<open>n + 1\<close> goes to the branch that \<open>splitBasicBlock\<close>
  appends and \<open>erase_back\<close> removes) and the instructions \<open>n + 4\<close> to \<open>n + 17\<close>.
  \<open>add_landing_update_shape\<close> shows that the function returns exactly these blocks.
\<close>

definition entry_check :: "extern \<Rightarrow> val \<Rightarrow> nat \<Rightarrow> instr list" where
  "entry_check x builtinRet n =
     [\<lparr>iid = n + 4, iname = ''drtiRetAddress'', itype = PointerTy (IntegerTy 8),
       iop = CallBase (CallInst TCK_None) builtinRet [ConstantInt 32 0]\<rparr>,
      \<lparr>iid = n + 5, iname = ''drtiRetAddressCast'', itype = IntegerTy 64,
       iop = PtrToInt (InstructionV (n + 4) (PointerTy (IntegerTy 8))) (IntegerTy 64)\<rparr>,
      \<lparr>iid = n + 6, iname = ''drtiAndRetalign'', itype = IntegerTy 64,
       iop = And (InstructionV (n + 5) (IntegerTy 64)) (ConstantInt 64 (retalign_mask x))\<rparr>,
      \<lparr>iid = n + 7, iname = ''drtiRetIsAligned'', itype = IntegerTy 1,
       iop = ICmpEQ (InstructionV (n + 6) (IntegerTy 64)) (ConstantInt 64 0)\<rparr>,
      \<lparr>iid = n + 8, iname = [], itype = VoidTy,
       iop = CondBr (InstructionV (n + 7) (IntegerTy 1)) (n + 2) n\<rparr>]"

definition probe_code :: "extern \<Rightarrow> nat \<Rightarrow> instr list" where
  "probe_code x n =
     [\<lparr>iid = n + 10, iname = ''drtiRetAddressCast'', itype = PointerTy (IntegerTy 64),
       iop = IntToPtr (InstructionV (n + 5) (IntegerTy 64)) (PointerTy (IntegerTy 64))\<rparr>,
      \<lparr>iid = n + 11, iname = ''drtiGep'', itype = PointerTy (IntegerTy 64),
       iop = GetElementPtr False (InstructionV (n + 10) (PointerTy (IntegerTy 64)))
               [ConstantInt 64 (magic_index x)]\<rparr>,
      \<lparr>iid = n + 12, iname = ''drtiMaybeMagic'', itype = IntegerTy 64,
       iop = Load (InstructionV (n + 11) (PointerTy (IntegerTy 64)))\<rparr>,
      \<lparr>iid = n + 13, iname = ''drtiMatches'', itype = IntegerTy 1,
       iop = ICmpEQ (InstructionV (n + 12) (IntegerTy 64)) (ConstantInt 64 (DRTI_MAGIC x mod 2 ^ 64))\<rparr>,
      \<lparr>iid = n + 14, iname = [], itype = VoidTy,
       iop = CondBr (InstructionV (n + 13) (IntegerTy 1)) (n + 3) n\<rparr>]"

definition confirmed_code :: "ty \<Rightarrow> val \<Rightarrow> func \<Rightarrow> val \<Rightarrow> nat \<Rightarrow> instr list" where
  "confirmed_code tnp drtiCaller landed landing_global n =
     [\<lparr>iid = n + 15, iname = ''drtiTreenode'', itype = tnp,
       iop = CallBase (CallInst TCK_None) drtiCaller []\<rparr>,
      \<lparr>iid = n + 16, iname = [], itype = fret landed,
       iop = CallBase (CallInst TCK_None) (function_value landed)
               [landing_global, InstructionV (n + 15) tnp]\<rparr>,
      \<lparr>iid = n + 17, iname = [], itype = VoidTy, iop = Br n\<rparr>]"

definition caller_phi :: "ty \<Rightarrow> nat \<Rightarrow> nat \<Rightarrow> instr" where
  "caller_phi tnp entry n =
     \<lparr>iid = n + 9, iname = ''drtiCallerTreenode'', itype = tnp,
      iop = PHI [(ConstantPointerNull tnp, entry), (ConstantPointerNull tnp, n + 2),
                 (InstructionV (n + 15) tnp, n + 3)]\<rparr>"

lemma plus_Sucs:
  fixes n :: nat
  shows "n + 2 = Suc (Suc n)"
    and "n + 3 = Suc (Suc (Suc n))"
    and "n + 4 = Suc (Suc (Suc (Suc n)))"
    and "n + 5 = Suc (Suc (Suc (Suc (Suc n))))"
    and "n + 6 = Suc (Suc (Suc (Suc (Suc (Suc n)))))"
    and "n + 7 = Suc (Suc (Suc (Suc (Suc (Suc (Suc n))))))"
    and "n + 8 = Suc (Suc (Suc (Suc (Suc (Suc (Suc (Suc n)))))))"
    and "n + 9 = Suc (Suc (Suc (Suc (Suc (Suc (Suc (Suc (Suc n))))))))"
    and "n + 10 = Suc (Suc (Suc (Suc (Suc (Suc (Suc (Suc (Suc (Suc n)))))))))"
    and "n + 11 = Suc (Suc (Suc (Suc (Suc (Suc (Suc (Suc (Suc (Suc (Suc n))))))))))"
    and "n + 12 = Suc (Suc (Suc (Suc (Suc (Suc (Suc (Suc (Suc (Suc (Suc (Suc n)))))))))))"
    and "n + 13 = Suc (Suc (Suc (Suc (Suc (Suc (Suc (Suc (Suc (Suc (Suc (Suc (Suc n))))))))))))"
    and "n + 14 = Suc (Suc (Suc (Suc (Suc (Suc (Suc (Suc (Suc (Suc (Suc (Suc (Suc (Suc n)))))))))))))"
    and "n + 15 = Suc (Suc (Suc (Suc (Suc (Suc (Suc (Suc (Suc (Suc (Suc (Suc (Suc (Suc (Suc n))))))))))))))"
    and "n + 16 = Suc (Suc (Suc (Suc (Suc (Suc (Suc (Suc (Suc (Suc (Suc (Suc (Suc (Suc (Suc (Suc n)))))))))))))))"
    and "n + 17 = Suc (Suc (Suc (Suc (Suc (Suc (Suc (Suc (Suc (Suc (Suc (Suc (Suc (Suc (Suc (Suc (Suc n))))))))))))))))"
    and "n + 18 = Suc (Suc (Suc (Suc (Suc (Suc (Suc (Suc (Suc (Suc (Suc (Suc (Suc (Suc (Suc (Suc (Suc (Suc n)))))))))))))))))"
  by simp_all

lemma find_first_non_alloca:
  "\<forall>i \<in> set allocas. isAllocaInst i \<Longrightarrow> \<not> isAllocaInst splitPoint \<Longrightarrow>
   find (\<lambda>i. \<not> isAllocaInst i) (allocas @ splitPoint # tail) = Some splitPoint"
  by (induction allocas) auto

lemma add_landing_update_shape:
  assumes a1: "insts entryBlock = allocas @ splitPoint # tail"
    and a2: "\<forall>i \<in> set allocas. isAllocaInst i"
    and a3: "\<not> isAllocaInst splitPoint"
    and a4: "distinct (map iid (concat (map insts (entryBlock # rest))))"
    and a5: "distinct (map bid (entryBlock # rest))"
    and a6: "\<forall>k \<in> inst_ids (entryBlock # rest) \<union> block_ids (entryBlock # rest). k < next_id m"
    and a7: "retalign_mask x \<noteq> 2 ^ 64 - 1"
    and tnp: "tnp = PointerTy (the (m_drti_treenode_type (the (m_inline st))))"
    and m1: "m1 = snd (getOrInsertFunction ''llvm.returnaddress'' (PointerTy (IntegerTy 8)) [IntegerTy 32] m)"
    and n: "n = next_id m"
  shows "add_landing_update x st function_name landing_global (m, entryBlock # rest) =
     Inr (InstructionV (n + 9) tnp,
          ((snd (getOrInsertFunction ''_drti_caller'' tnp [] m1))\<lparr>next_id := n + 18\<rparr>,
           [entryBlock\<lparr>insts := allocas @
              entry_check x (fst (getOrInsertFunction ''llvm.returnaddress''
                                   (PointerTy (IntegerTy 8)) [IntegerTy 32] m)) n\<rparr>,
            \<lparr>bid = n, bname = ''drti_land1'',
             insts = caller_phi tnp (bid entryBlock) n #
                     map (replacePhiUsesWith (bid entryBlock) n) (splitPoint # tail)\<rparr>] @
           replace_phis (bid entryBlock) n rest @
           [\<lparr>bid = n + 2, bname = ''drti_land2'', insts = probe_code x n\<rparr>,
            \<lparr>bid = n + 3, bname = ''drti_land3'',
             insts = confirmed_code tnp (fst (getOrInsertFunction ''_drti_caller'' tnp [] m1))
                       (the (m_drti_landed (the (m_inline st)))) landing_global n\<rparr>]))"
proof -
  have sp: "iid splitPoint \<notin> iid ` set allocas"
    using a4 by (auto simp: a1)
  have e: "bid entryBlock \<notin> block_ids rest"
    using a5 by (auto simp: block_ids_def)
  have b6: "\<And>k. k \<in> block_ids rest \<Longrightarrow> k < n"
    and i6: "\<And>k. k \<in> inst_ids rest \<Longrightarrow> k < n"
    and e6: "\<And>k. k \<in> iid ` set (insts entryBlock) \<Longrightarrow> k < n"
    and be6: "bid entryBlock < n"
    using a6 n by simp_all
  have fresh_b [simp]: "\<And>j. n \<le> j \<Longrightarrow> j \<notin> block_ids rest"
    using b6 by fastforce
  have fresh_i [simp]: "\<And>j. n \<le> j \<Longrightarrow> j \<notin> inst_ids rest"
    using i6 by fastforce
  have fresh_a [simp]: "\<And>j. n \<le> j \<Longrightarrow> j \<notin> iid ` set allocas"
    using e6 by (fastforce simp: a1)
  have fresh_t [simp]: "\<And>j. n \<le> j \<Longrightarrow> j \<notin> iid ` set tail"
    using e6 by (fastforce simp: a1)
  have fresh_s [simp]: "\<And>j. n \<le> j \<Longrightarrow> iid splitPoint \<noteq> j"
    using e6 by (fastforce simp: a1)
  have fresh_e [simp]: "\<And>j. n \<le> j \<Longrightarrow> bid entryBlock \<noteq> j"
    using be6 by fastforce
  have fresh_e' [simp]: "\<And>j. n \<le> j \<Longrightarrow> j \<noteq> bid entryBlock"
    using be6 by fastforce
  have fresh_s' [simp]: "\<And>j. n \<le> j \<Longrightarrow> j \<noteq> iid splitPoint"
    using e6 by (fastforce simp: a1)
  have sp_rest [simp]: "iid splitPoint \<notin> inst_ids rest"
    using a4 by (auto simp: a1 inst_ids_def)
  have sp_tail [simp]: "iid splitPoint \<notin> iid ` set tail"
    using a4 by (auto simp: a1)
  note sp [simp] e [simp]
  have mask [simp]: "\<not> isMinusOne (ConstantInt 64 (retalign_mask x))"
    using a7 by (simp add: isMinusOne_def)
  define tail' where "tail' = map (replacePhiUsesWith (bid entryBlock) n) tail"
  have tail'_ids: "iid ` set tail' = iid ` set tail"
    by (simp add: tail'_def image_image)
  have fresh_t' [simp]: "\<And>j. n \<le> j \<Longrightarrow> j \<notin> iid ` set tail'"
    unfolding tail'_ids by simp
  have sp_tail' [simp]: "iid splitPoint \<notin> iid ` set tail'"
    unfolding tail'_ids by simp
  have split: "splitBasicBlock (bid entryBlock) (iid splitPoint) ''drti_land1'' (m, entryBlock # rest) =
     (n, (m\<lparr>next_id := Suc (Suc n)\<rparr>,
       entryBlock\<lparr>insts := allocas @
            [\<lparr>iid = Suc n, iname = [], itype = VoidTy, iop = Br n\<rparr>]\<rparr> #
       \<lparr>bid = n, bname = ''drti_land1'',
         insts = replacePhiUsesWith (bid entryBlock) n splitPoint # tail'\<rparr> #
       replace_phis (bid entryBlock) n rest))"
    using splitBasicBlock_entry [OF a1 sp e, of "''drti_land1''" m]
    by (simp add: n tail'_def map_replace_allocas [OF a2])
  show ?thesis
    unfolding add_landing_update_def
    apply (simp add: a1 find_first_non_alloca [OF a2 a3] split del: if_split)
    apply (simp add: split n [symmetric] Let_def BasicBlock_Create_def erase_back_def
        getOrInsertFunction_editing_def getOrInsertFunction_next_id
        CreateCall_def CreatePtrToInt_def CreateAnd_def CreateICmpEQ_def CreateCondBr_def
        CreatePHI_def CreateIntToPtr_def CreateGEP_def CreateLoad_def CreateBr_def Insert_def
        value_of_def addIncoming_def getPointerElementType_def
        map_replace_allocas [OF a2] map_update_notin
        entry_check_def probe_code_def confirmed_code_def caller_phi_def
        tnp [symmetric] m1 [symmetric] plus_Sucs tail'_def [symmetric]
        cong: let_weak_cong prod.case_cong_weak)
    done
qed

section \<open>Running the inserted landing code\<close>

text \<open>
  What the inserted instructions compute is LLVM's semantics, not this file's; the part
  of it the landing code uses is written out here. A machine state gives the return
  address of the current call, the memory (64-bit words by address), the tree node
  \<open>_drti_caller\<close> returns and the addresses of global variables. All values are 64-bit
  words; \<^verbatim>\<open>llvm.returnaddress\<close> and \<open>_drti_caller\<close> read the machine state and every
  other call is recorded as an event with its arguments. \<open>run\<close> follows branches from
  the entry block, with fuel, and stops when the instruction \<open>stop\<close> has been computed,
  returning its value and the calls made so far.
\<close>

unbundle bit_operations_syntax

record machine =
  return_address :: "64 word"
  memory :: "64 word \<Rightarrow> 64 word"
  caller_handle :: "64 word"
  global_address :: "nat \<Rightarrow> 64 word"

datatype call_event = Called string "64 word list"

type_synonym frame = "(nat \<Rightarrow> 64 word option) \<times> call_event list"

fun eval_val :: "machine \<Rightarrow> (nat \<Rightarrow> 64 word option) \<Rightarrow> val \<Rightarrow> 64 word option" where
  "eval_val mc regs (InstructionV i t) = regs i"
| "eval_val mc regs (ConstantInt bits n) = Some (of_nat n)"
| "eval_val mc regs (ConstantPointerNull t) = Some 0"
| "eval_val mc regs (GlobalVariableV g t) = Some (global_address mc g)"
| "eval_val mc regs (ConstantExprBitCast c t) = eval_val mc regs c"
| "eval_val mc regs v = None"

fun eval_args :: "machine \<Rightarrow> (nat \<Rightarrow> 64 word option) \<Rightarrow> val list \<Rightarrow> 64 word list option" where
  "eval_args mc regs [] = Some []"
| "eval_args mc regs (v # vs) =
     (case eval_val mc regs v of
        None \<Rightarrow> None
      | Some w \<Rightarrow> map_option ((#) w) (eval_args mc regs vs))"

fun callee_name :: "val \<Rightarrow> string option" where
  "callee_name (FunctionV name ret params) = Some name"
| "callee_name (ConstantExprBitCast c t) = callee_name c"
| "callee_name v = None"

fun compute :: "machine \<Rightarrow> (nat \<Rightarrow> 64 word option) \<Rightarrow> nat \<Rightarrow> opcode \<Rightarrow> (64 word option \<times> call_event list) option" where
  "compute mc regs pred (Alloca t) = Some (None, [])"
| "compute mc regs pred (CallBase kind callee args) =
     (case callee_name callee of
        None \<Rightarrow> None
      | Some name \<Rightarrow>
          if name = ''llvm.returnaddress'' then Some (Some (return_address mc), [])
          else if name = ''_drti_caller'' then Some (Some (caller_handle mc), [])
          else map_option (\<lambda>ws. (None, [Called name ws])) (eval_args mc regs args))"
| "compute mc regs pred (BitCast v t) = map_option (\<lambda>w. (Some w, [])) (eval_val mc regs v)"
| "compute mc regs pred (PtrToInt v t) = map_option (\<lambda>w. (Some w, [])) (eval_val mc regs v)"
| "compute mc regs pred (IntToPtr v t) = map_option (\<lambda>w. (Some w, [])) (eval_val mc regs v)"
| "compute mc regs pred (And a b) =
     (case (eval_val mc regs a, eval_val mc regs b) of
        (Some wa, Some wb) \<Rightarrow> Some (Some (wa AND wb), [])
      | _ \<Rightarrow> None)"
| "compute mc regs pred (ICmpEQ a b) =
     (case (eval_val mc regs a, eval_val mc regs b) of
        (Some wa, Some wb) \<Rightarrow> Some (Some (if wa = wb then 1 else 0), [])
      | _ \<Rightarrow> None)"
| "compute mc regs pred (GetElementPtr inbounds p idx) =
     (if getType p = PointerTy (IntegerTy 64) then
        (case idx of
           [i] \<Rightarrow>
             (case (eval_val mc regs p, eval_val mc regs i) of
                (Some wp, Some wi) \<Rightarrow> Some (Some (wp + 8 * wi), [])
              | _ \<Rightarrow> None)
         | _ \<Rightarrow> None)
      else None)"
| "compute mc regs pred (Load p) = map_option (\<lambda>w. (Some (memory mc w), [])) (eval_val mc regs p)"
| "compute mc regs pred (PHI inc) =
     (case find (\<lambda>(v, b). b = pred) inc of
        None \<Rightarrow> None
      | Some (v, b) \<Rightarrow> map_option (\<lambda>w. (Some w, [])) (eval_val mc regs v))"
| "compute mc regs pred operation = None"

datatype outcome = Stuck | Goto nat frame | Stop "64 word option" "call_event list"

fun exec_insts :: "machine \<Rightarrow> nat \<Rightarrow> nat \<Rightarrow> instr list \<Rightarrow> frame \<Rightarrow> outcome" where
  "exec_insts mc stop pred [] fr = Stuck"
| "exec_insts mc stop pred (i # is) fr =
     (case iop i of
        Br d \<Rightarrow> Goto d fr
      | CondBr c t f \<Rightarrow>
          (case eval_val mc (fst fr) c of
             None \<Rightarrow> Stuck
           | Some w \<Rightarrow> Goto (if w \<noteq> 0 then t else f) fr)
      | _ \<Rightarrow>
          (case compute mc (fst fr) pred (iop i) of
             None \<Rightarrow> Stuck
           | Some (w, calls) \<Rightarrow>
               if iid i = stop then Stop w (snd fr @ calls)
               else exec_insts mc stop pred is ((fst fr)(iid i := w), snd fr @ calls)))"

fun run :: "nat \<Rightarrow> machine \<Rightarrow> nat \<Rightarrow> block list \<Rightarrow> nat \<Rightarrow> nat \<Rightarrow> frame \<Rightarrow> (64 word option \<times> call_event list) option" where
  "run 0 mc stop bs cur pred fr = None"
| "run (Suc fuel) mc stop bs cur pred fr =
     (case find (\<lambda>b. bid b = cur) bs of
        None \<Rightarrow> None
      | Some b \<Rightarrow>
          (case exec_insts mc stop pred (insts b) fr of
             Stuck \<Rightarrow> None
           | Goto d fr' \<Rightarrow> run fuel mc stop bs d cur fr'
           | Stop w calls \<Rightarrow> Some (w, calls)))"

definition run_function :: "nat \<Rightarrow> machine \<Rightarrow> nat \<Rightarrow> block list \<Rightarrow> (64 word option \<times> call_event list) option" where
  "run_function fuel mc stop bs =
     (case bs of
        [] \<Rightarrow> None
      | entryBlock # other_blocks \<Rightarrow>
          run fuel mc stop bs (bid entryBlock) (bid entryBlock) (\<lambda>i. None, []))"

definition aligned :: "extern \<Rightarrow> machine \<Rightarrow> bool" where
  "aligned x mc = (return_address mc AND of_nat (retalign_mask x) = 0)"

definition has_magic :: "extern \<Rightarrow> machine \<Rightarrow> bool" where
  "has_magic x mc =
     (memory mc (return_address mc + 8 * of_nat (magic_index x)) = of_nat (DRTI_MAGIC x mod 2 ^ 64))"

lemma exec_insts_allocas:
  "\<forall>i \<in> set allocas. isAllocaInst i \<Longrightarrow> stop \<notin> iid ` set allocas \<Longrightarrow>
   exec_insts mc stop pred (allocas @ rest) (\<lambda>i. None, calls) =
   exec_insts mc stop pred rest (\<lambda>i. None, calls)"
proof (induction allocas)
  case Nil
  then show ?case by simp
next
  case (Cons a allocas)
  from Cons.prems obtain t where a: "iop a = Alloca t"
    by (auto simp: isAllocaInst_def split: opcode.splits)
  have upd: "(\<lambda>i. None)(iid a := None) = (\<lambda>i. None :: 64 word option)"
    by auto
  from Cons show ?case by (simp add: a upd)
qed

lemma find_block_skip:
  "k \<notin> block_ids bs \<Longrightarrow> find (\<lambda>b. bid b = k) (bs @ cs) = find (\<lambda>b. bid b = k) cs"
  by (induction bs) auto

lemma callee_name_getOrInsertFunction:
  assumes "\<forall>g \<in> set (globals m). gname g \<noteq> name"
  shows "callee_name (fst (getOrInsertFunction name ret params m)) = Some name"
proof (cases "getFunction m name")
  case None
  moreover have "find (\<lambda>g. gname g = name) (globals m) = None"
    using assms by (auto simp: find_None_iff)
  ultimately show ?thesis
    by (simp add: getOrInsertFunction_def getNamedValue_def)
next
  case (Some f)
  then have "fname f = name"
    by (auto simp: getFunction_def dest: find_Some_iff [THEN iffD1])
  with Some show ?thesis
    by (simp add: getOrInsertFunction_def getNamedValue_def function_value_def)
qed

lemma globals_getOrInsertFunction [simp]:
  "globals (snd (getOrInsertFunction name ret params m)) = globals m"
  by (simp add: getOrInsertFunction_def split: option.splits)

lemma run_landing_code:
  assumes allocas: "\<forall>i \<in> set allocas. isAllocaInst i"
    and fresh: "\<forall>k \<in> iid ` set allocas \<union> block_ids rest' \<union> {e}. k < n"
    and ret: "callee_name builtinRet = Some ''llvm.returnaddress''"
    and cal: "callee_name drtiCaller = Some ''_drti_caller''"
    and landed: "fname landed = ''_drti_landed''"
    and lg: "landing_global = GlobalVariableV g t"
    and mask: "retalign_mask x \<noteq> 2 ^ 64 - 1"
  shows "run_function 4 mc (n + 9)
           ([\<lparr>bid = e, bname = en, insts = allocas @ entry_check x builtinRet n\<rparr>,
             \<lparr>bid = n, bname = ''drti_land1'', insts = caller_phi tnp e n # body\<rparr>] @
            rest' @
            [\<lparr>bid = n + 2, bname = ''drti_land2'', insts = probe_code x n\<rparr>,
             \<lparr>bid = n + 3, bname = ''drti_land3'',
              insts = confirmed_code tnp drtiCaller landed landing_global n\<rparr>]) =
         (if aligned x mc \<and> has_magic x mc
          then Some (Some (caller_handle mc),
                     [Called ''_drti_landed'' [global_address mc g, caller_handle mc]])
          else Some (Some 0, []))"
proof -
  have stop: "n + 9 \<notin> iid ` set allocas" using fresh by fastforce
  have e: "e \<noteq> n" "e \<noteq> Suc (Suc n)" "e \<noteq> Suc (Suc (Suc n))" "e \<noteq> n + 2" "e \<noteq> n + 3"
    using fresh by auto
  have r: "n \<notin> block_ids rest'" "Suc (Suc n) \<notin> block_ids rest'"
    "Suc (Suc (Suc n)) \<notin> block_ids rest'" "n + 3 \<notin> block_ids rest'"
  proof -
    have "\<And>k. k \<in> block_ids rest' \<Longrightarrow> k < n" using fresh by blast
    then have "\<And>j. n \<le> j \<Longrightarrow> j \<notin> block_ids rest'" by fastforce
    then show "n \<notin> block_ids rest'" "Suc (Suc n) \<notin> block_ids rest'"
      "Suc (Suc (Suc n)) \<notin> block_ids rest'" "n + 3 \<notin> block_ids rest'"
      by simp_all
  qed
  have four: "(4::nat) = Suc (Suc (Suc (Suc 0)))" by simp
  note find_block_skip [simp]
  show ?thesis
    unfolding four
    by (simp add: run_function_def exec_insts_allocas [OF allocas stop] e r
          entry_check_def probe_code_def confirmed_code_def caller_phi_def
          ret cal landed lg function_value_def aligned_def has_magic_def)
qed

lemma block_update_insts:
  "(B :: block)\<lparr>insts := xs\<rparr> = \<lparr>bid = bid B, bname = bname B, insts = xs\<rparr>"
  by (cases B) simp

section \<open>The code that \<open>decorate_call\<close> inserts\<close>

text \<open>
  The instructions \<open>decorate_call\<close> creates before a call with callee \<open>callee\<close>,
  numbered from \<open>n\<close>. \<open>CreateBitCast\<close> inserts nothing when the types agree or the
  value is a constant, so the two casts are lists of at most one instruction.
  \<open>expand\<close> replaces, in a body, every call that has a decoration by the inserted code
  followed by the rewritten call; \<open>decorate_calls_expand\<close> shows that \<open>decorate_calls\<close>
  computes it and appends one CallSite record per collected call.
\<close>

definition cast_old_target :: "val \<Rightarrow> nat \<Rightarrow> instr list" where
  "cast_old_target callee n =
     (if getType callee = void_star \<or> isConstant callee then []
      else [\<lparr>iid = n, iname = ''castOldTarget'', itype = void_star, iop = BitCast callee void_star\<rparr>])"

definition old_target :: "val \<Rightarrow> nat \<Rightarrow> val" where
  "old_target callee n =
     (if getType callee = void_star then callee
      else if isConstant callee then ConstantExprBitCast callee void_star
      else InstructionV n void_star)"

definition cast_resolved_target :: "val \<Rightarrow> ty \<Rightarrow> nat \<Rightarrow> instr list" where
  "cast_resolved_target callee rt n =
     (if rt = getType callee then []
      else [\<lparr>iid = n + 3, iname = ''castResolvedTarget'', itype = getType callee,
             iop = BitCast (InstructionV (n + 2) rt) (getType callee)\<rparr>])"

definition new_target :: "val \<Rightarrow> ty \<Rightarrow> nat \<Rightarrow> val" where
  "new_target callee rt n =
     (if rt = getType callee then InstructionV (n + 2) rt
      else InstructionV (n + 3) (getType callee))"

definition resolve_code :: "func \<Rightarrow> ty \<Rightarrow> val \<Rightarrow> val \<Rightarrow> val \<Rightarrow> nat \<Rightarrow> instr list" where
  "resolve_code call_from rt callsite caller oldTarget n =
     [\<lparr>iid = n, iname = ''treenode'', itype = fret call_from,
       iop = CallBase (CallInst TCK_None) (function_value call_from) [callsite, caller, oldTarget]\<rparr>,
      \<lparr>iid = n + 1, iname = ''resolved_target'', itype = PointerTy rt,
       iop = GetElementPtr True (InstructionV n (fret call_from)) [ConstantInt 32 0, ConstantInt 32 5]\<rparr>,
      \<lparr>iid = n + 2, iname = [], itype = rt, iop = Load (InstructionV (n + 1) (PointerTy rt))\<rparr>]"

definition set_caller_code :: "val \<Rightarrow> val \<Rightarrow> nat \<Rightarrow> instr" where
  "set_caller_code drtiSetCaller treenode n =
     \<lparr>iid = n, iname = [], itype = VoidTy,
      iop = CallBase (CallInst TCK_None) drtiSetCaller [treenode]\<rparr>"

definition decoration_code :: "func \<Rightarrow> ty \<Rightarrow> val \<Rightarrow> val \<Rightarrow> val \<Rightarrow> val \<Rightarrow> nat \<Rightarrow> instr list" where
  "decoration_code call_from rt drtiSetCaller callsite caller callee n =
     (let n1 = n + length (cast_old_target callee n);
          n2 = n1 + 3 + length (cast_resolved_target callee rt n1)
      in cast_old_target callee n @
         resolve_code call_from rt callsite caller (old_target callee n) n1 @
         cast_resolved_target callee rt n1 @
         [set_caller_code drtiSetCaller (InstructionV n1 (fret call_from)) n2])"

definition decorated_call :: "instr \<Rightarrow> val \<Rightarrow> instr" where
  "decorated_call ci target = setTailCallKind TCK_NoTail (setCalledOperand target ci)"

lemma getElementType_next_id [simp]:
  "getElementType (m\<lparr>next_id := k\<rparr>) t i = getElementType m t i"
  by (simp add: getElementType_def split: ty.splits)

lemma find_skip: "\<forall>x \<in> set xs. \<not> P x \<Longrightarrow> find P (xs @ ys) = find P ys"
  by (induction xs) auto

lemma find_distinct_middle:
  "distinct (map f (xs @ x # ys)) \<Longrightarrow> find (\<lambda>i. f i = f x) (xs @ x # ys) = Some x"
  by (induction xs) auto

lemma find_inst_here:
  assumes "distinct (map iid (concat (map insts (pre_bs @ B # post_bs))))"
    and "insts B = pre @ ci # post"
  shows "find_inst (iid ci) (pre_bs @ B # post_bs) = Some ci"
proof -
  have eq: "concat (map insts (pre_bs @ B # post_bs)) =
      (concat (map insts pre_bs) @ pre) @ ci # (post @ concat (map insts post_bs))"
    by (simp add: assms(2))
  from assms(1) show ?thesis
    unfolding find_inst_def eq by (rule find_distinct_middle)
qed

lemma distinct_middle_notin:
  assumes "distinct (map f (as @ xs @ x # ys @ bs))"
  shows "f x \<notin> f ` set as" "f x \<notin> f ` set xs" "f x \<notin> f ` set ys" "f x \<notin> f ` set bs"
proof -
  from assms have d: "distinct (map f as @ map f xs @ f x # map f ys @ map f bs)"
    by simp
  from d have "f x \<notin> set (map f as)" by (simp only: distinct_append set_append) auto
  then show "f x \<notin> f ` set as" by simp
  from d have "f x \<notin> set (map f xs)" by (simp only: distinct_append set_append) auto
  then show "f x \<notin> f ` set xs" by simp
  from d have "f x \<notin> set (map f ys)" by (simp only: distinct_append distinct.simps set_append) auto
  then show "f x \<notin> f ` set ys" by simp
  from d have "f x \<notin> set (map f bs)" by (simp only: distinct_append distinct.simps set_append) auto
  then show "f x \<notin> f ` set bs" by simp
qed

lemma iid_setCalledOperand [simp]: "iid (setCalledOperand v i) = iid i"
  by (simp add: setCalledOperand_def split: opcode.splits)

lemma iid_setTailCallKind [simp]: "iid (setTailCallKind k i) = iid i"
  by (simp add: setTailCallKind_def split: opcode.splits call_kind.splits)

lemma decorate_call_shape:
  assumes d: "distinct (map iid (concat (map insts (pre_bs @ B # post_bs))))"
    and f: "\<forall>k \<in> inst_ids (pre_bs @ B # post_bs). k < next_id m"
    and B: "insts B = pre @ ci # post"
    and ci: "iop ci = CallBase kind callee args"
    and inl: "m_inline st = Some inl"
    and cf: "m_drti_call_from inl = Some call_from"
    and tn: "fret call_from = PointerTy tn"
    and rt: "getElementType m tn 5 = Some rt"
    and n: "n = next_id m"
    and sc: "drtiSetCaller = fst (getOrInsertFunction ''_drti_set_caller'' VoidTy [fret call_from] m)"
    and code: "code = decoration_code call_from rt drtiSetCaller callsite caller callee n"
  shows "decorate_call st caller (iid ci) callsite (m, pre_bs @ B # post_bs) =
     Inr ((snd (getOrInsertFunction ''_drti_set_caller'' VoidTy [fret call_from] m))
            \<lparr>next_id := n + length code\<rparr>,
          pre_bs @
          B\<lparr>insts := pre @ code @
               decorated_call ci (new_target callee rt (n + length (cast_old_target callee n))) # post\<rparr> #
          post_bs)"
proof -
  have c_pre_bs [simp]: "iid ci \<notin> inst_ids pre_bs" and c_post_bs [simp]: "iid ci \<notin> inst_ids post_bs"
    and c_pre [simp]: "iid ci \<notin> iid ` set pre" and c_post [simp]: "iid ci \<notin> iid ` set post"
  proof -
    have eq: "concat (map insts (pre_bs @ B # post_bs)) =
        concat (map insts pre_bs) @ pre @ ci # post @ concat (map insts post_bs)"
      by (simp add: B)
    from d have dd: "distinct (map iid (concat (map insts pre_bs) @ pre @ ci # post @ concat (map insts post_bs)))"
      unfolding eq .
    note dm = distinct_middle_notin [OF dd]
    from dm(1) show "iid ci \<notin> inst_ids pre_bs" unfolding inst_ids_def .
    from dm(4) show "iid ci \<notin> inst_ids post_bs" unfolding inst_ids_def .
    from dm(2) show "iid ci \<notin> iid ` set pre" .
    from dm(3) show "iid ci \<notin> iid ` set post" .
  qed
  have "iid ci < n" using f n by (simp add: B)
  then have c_new [simp]: "\<And>j. n \<le> j \<Longrightarrow> j \<noteq> iid ci" "\<And>j. n \<le> j \<Longrightarrow> iid ci \<noteq> j"
    by auto
  have found: "find_inst (iid ci) (pre_bs @ B # post_bs) = Some ci"
    by (rule find_inst_here [OF d B])
  have upd: "\<And>g. map (\<lambda>i. if iid i = iid ci then g i else i) pre = pre"
    "\<And>g. map (\<lambda>i. if iid i = iid ci then g i else i) post = post"
    by (simp_all add: map_update_notin)
  have sc': "drtiSetCaller = fst (getOrInsertFunction ''_drti_set_caller'' VoidTy [PointerTy tn] m)"
    using sc tn by simp
  consider (same) "getType callee = void_star" | (const) "getType callee \<noteq> void_star" "isConstant callee"
    | (inst) "getType callee \<noteq> void_star" "\<not> isConstant callee"
    by blast
  then show ?thesis
  proof cases
    case same
    show ?thesis
      unfolding decorate_call_def code
      by (cases "rt = getType callee")
        (simp_all add: found ci inl cf tn rt same B upd n [symmetric] sc' [symmetric]
          Let_def CreateBitCast_def CreateCall_def CreateStructGEP_def CreateLoad_def Insert_def
          getOrInsertFunction_editing_def getOrInsertFunction_next_id value_of_def
          getPointerElementType_def decoration_code_def cast_old_target_def old_target_def
          cast_resolved_target_def new_target_def resolve_code_def set_caller_code_def
          decorated_call_def plus_Sucs
          cong: let_weak_cong prod.case_cong_weak)
  next
    case const
    show ?thesis
      unfolding decorate_call_def code
      by (cases "rt = getType callee")
        (simp_all add: found ci inl cf tn rt const B upd n [symmetric] sc' [symmetric]
          Let_def CreateBitCast_def CreateCall_def CreateStructGEP_def CreateLoad_def Insert_def
          getOrInsertFunction_editing_def getOrInsertFunction_next_id value_of_def getBitCast_def
          getPointerElementType_def decoration_code_def cast_old_target_def old_target_def
          cast_resolved_target_def new_target_def resolve_code_def set_caller_code_def
          decorated_call_def plus_Sucs
          cong: let_weak_cong prod.case_cong_weak)
  next
    case inst
    show ?thesis
      unfolding decorate_call_def code
      by (cases "rt = getType callee")
        (simp_all add: found ci inl cf tn rt inst B upd n [symmetric] sc' [symmetric]
          Let_def CreateBitCast_def CreateCall_def CreateStructGEP_def CreateLoad_def Insert_def
          getOrInsertFunction_editing_def getOrInsertFunction_next_id value_of_def
          getPointerElementType_def decoration_code_def cast_old_target_def old_target_def
          cast_resolved_target_def new_target_def resolve_code_def set_caller_code_def
          decorated_call_def plus_Sucs
          cong: let_weak_cong prod.case_cong_weak)
  qed
qed

definition callsite_global :: "ty \<Rightarrow> ty \<Rightarrow> string \<Rightarrow> val \<Rightarrow> 32 word \<Rightarrow> nat \<Rightarrow> gvar" where
  "callsite_global cs vt function_name landing_global call_number g =
     \<lparr>gid = g, gname = ''_drti_callsite_'' @ function_name, gtype = cs, gconstant = False,
      glinkage = InternalLinkage,
      ginit = Some (ConstantStruct cs
                [ConstantInt 64 0, landing_global, ConstantInt 32 (unat call_number),
                 ConstantAggregateZero vt])\<rparr>"

lemma create_callsite_global_eq:
  assumes "m_inline st = Some inl" and "m_drti_callsite_type inl = Some cs"
    and "getElementType m cs 3 = Some vt"
  shows "create_callsite_global st function_name landing_global call_number m =
     Inr (GlobalVariableV (next_id m) cs,
          m\<lparr>globals := globals m @
                 [callsite_global cs vt function_name landing_global call_number (next_id m)],
            next_id := Suc (next_id m)\<rparr>)"
  using assms
  by (simp add: create_callsite_global_def new_GlobalVariable_def callsite_global_def
        global_value_def Let_def)

definition expand_inst :: "(nat \<Rightarrow> (instr list \<times> instr) option) \<Rightarrow> instr \<Rightarrow> instr list" where
  "expand_inst \<sigma> i = (case \<sigma> (iid i) of None \<Rightarrow> [i] | Some (code, i') \<Rightarrow> code @ [i'])"

definition expand :: "(nat \<Rightarrow> (instr list \<times> instr) option) \<Rightarrow> block list \<Rightarrow> block list" where
  "expand \<sigma> bs = map (\<lambda>B. B\<lparr>insts := concat (map (expand_inst \<sigma>) (insts B))\<rparr>) bs"

lemma expand_simps [simp]:
  "expand \<sigma> [] = []"
  "expand \<sigma> (B # bs) = B\<lparr>insts := concat (map (expand_inst \<sigma>) (insts B))\<rparr> # expand \<sigma> bs"
  "expand \<sigma> (bs @ cs) = expand \<sigma> bs @ expand \<sigma> cs"
  by (simp_all add: expand_def)

lemma expand_insts_upd_notin:
  "c \<notin> iid ` set xs \<Longrightarrow>
   concat (map (expand_inst (\<sigma>(c \<mapsto> v))) xs) = concat (map (expand_inst \<sigma>) xs)"
  by (induction xs) (auto simp: expand_inst_def)

lemma expand_upd_notin:
  "c \<notin> inst_ids bs \<Longrightarrow> expand (\<sigma>(c \<mapsto> v)) bs = expand \<sigma> bs"
  by (induction bs) (auto simp: expand_insts_upd_notin)

lemma expand_insts_empty [simp]: "concat (map (expand_inst Map.empty) xs) = xs"
  by (induction xs) (auto simp: expand_inst_def)

lemma expand_empty [simp]: "expand Map.empty bs = bs"
  by (induction bs) auto

lemma find_append_cases:
  "find P (xs @ ys) = (case find P xs of None \<Rightarrow> find P ys | Some x \<Rightarrow> Some x)"
  by (induction xs) auto

lemma getNamedValue_next_id [simp]:
  "getNamedValue (m\<lparr>next_id := k\<rparr>) name = getNamedValue m name"
  by (simp add: getNamedValue_def getFunction_def split: option.splits)

lemma getNamedValue_new_global:
  "gname g \<noteq> name \<Longrightarrow> getNamedValue (m\<lparr>globals := globals m @ [g]\<rparr>) name = getNamedValue m name"
  by (simp add: getNamedValue_def getFunction_def find_append_cases split: option.splits)

lemma getOrInsertFunction_new_global:
  "gname g \<noteq> name \<Longrightarrow>
   fst (getOrInsertFunction name ret params (m\<lparr>globals := globals m @ [g]\<rparr>)) =
   fst (getOrInsertFunction name ret params m)"
  by (simp add: getOrInsertFunction_def getNamedValue_new_global split: option.splits)

lemma getOrInsertFunction_idem:
  "fst (getOrInsertFunction name ret params (snd (getOrInsertFunction name ret params m))) =
   fst (getOrInsertFunction name ret params m)"
proof (cases "getNamedValue m name")
  case None
  then have nf: "find (\<lambda>f. fname f = name) (function_list m) = None"
    by (simp add: getNamedValue_def getFunction_def split: option.splits)
  have "getNamedValue (m\<lparr>function_list := function_list m @
          [\<lparr>fname = name, fret = ret, fparams = params, fattrs = {}, blocks = []\<rparr>]\<rparr>) name =
        Some (FunctionV name ret params)"
    by (simp add: getNamedValue_def getFunction_def find_append_cases nf function_value_def)
  with None show ?thesis by (simp add: getOrInsertFunction_def)
next
  case (Some v)
  then show ?thesis by (simp add: getOrInsertFunction_def)
qed

lemma getOrInsertFunction_idem_module:
  "snd (getOrInsertFunction name ret params (snd (getOrInsertFunction name ret params m))) =
   snd (getOrInsertFunction name ret params m)"
proof (cases "getNamedValue m name")
  case None
  then have nf: "find (\<lambda>f. fname f = name) (function_list m) = None"
    by (simp add: getNamedValue_def getFunction_def split: option.splits)
  have "getNamedValue (m\<lparr>function_list := function_list m @
          [\<lparr>fname = name, fret = ret, fparams = params, fattrs = {}, blocks = []\<rparr>]\<rparr>) name =
        Some (FunctionV name ret params)"
    by (simp add: getNamedValue_def getFunction_def find_append_cases nf function_value_def)
  with None show ?thesis by (simp add: getOrInsertFunction_def)
next
  case (Some v)
  then show ?thesis by (simp add: getOrInsertFunction_def)
qed

lemma getOrInsertFunction_fields [simp]:
  "globals (snd (getOrInsertFunction name ret params m)) = globals m"
  "named_structs (snd (getOrInsertFunction name ret params m)) = named_structs m"
  "triple (snd (getOrInsertFunction name ret params m)) = triple m"
  by (simp_all add: getOrInsertFunction_def split: option.splits)

lemma getElementType_frame [simp]:
  "getElementType (m\<lparr>globals := gs\<rparr>) t i = getElementType m t i"
  "getElementType (snd (getOrInsertFunction name ret params m)) t i = getElementType m t i"
  by (simp_all add: getElementType_def split: ty.splits)

definition wf_body :: "nat \<Rightarrow> block list \<Rightarrow> bool" where
  "wf_body n bs = (distinct (map iid (concat (map insts bs))) \<and> (\<forall>k \<in> inst_ids bs. k < n))"

lemma decoration_code_ids:
  "map iid (decoration_code call_from rt drtiSetCaller callsite caller callee n) =
     [n ..< n + length (decoration_code call_from rt drtiSetCaller callsite caller callee n)]"
  by (simp add: decoration_code_def cast_old_target_def cast_resolved_target_def resolve_code_def
        set_caller_code_def Let_def upt_rec)

lemma distinct_insert_fresh:
  "distinct (xs @ ys) \<Longrightarrow> distinct zs \<Longrightarrow> set zs \<inter> (set xs \<union> set ys) = {} \<Longrightarrow>
   distinct (xs @ zs @ ys)"
  by auto

lemma wf_body_decorated:
  assumes wf: "wf_body n (pre_bs @ B # post_bs)"
    and B: "insts B = pre @ ci # post"
    and ids: "map iid code = [n ..< n + length code]"
    and ci': "iid ci' = iid ci"
  shows "wf_body (n + length code) (pre_bs @ B\<lparr>insts := pre @ code @ ci' # post\<rparr> # post_bs)"
proof -
  let ?A = "map iid (concat (map insts pre_bs) @ pre)"
  let ?C = "map iid (ci # post @ concat (map insts post_bs))"
  from wf have d: "distinct (?A @ ?C)" and lt: "\<forall>k \<in> set (?A @ ?C). k < n"
    by (auto simp: wf_body_def B inst_ids_def)
  have dz: "distinct (map iid code)" unfolding ids by simp
  have lt': "\<And>k. k \<in> set (?A @ ?C) \<Longrightarrow> k < n" using lt by blast
  have ge: "\<And>k. k \<in> set (map iid code) \<Longrightarrow> n \<le> k" unfolding ids by simp
  have "set (map iid code) \<inter> set (?A @ ?C) = {}"
    using lt' ge by (meson disjoint_iff not_le)
  then have fresh: "set (map iid code) \<inter> (set ?A \<union> set ?C) = {}"
    by (simp only: set_append)
  have "distinct (?A @ map iid code @ ?C)"
    by (rule distinct_insert_fresh [OF d dz fresh])
  then have 1: "distinct (map iid (concat (map insts (pre_bs @ B\<lparr>insts := pre @ code @ ci' # post\<rparr> # post_bs))))"
    by (simp add: ci')
  have eq: "inst_ids (pre_bs @ B\<lparr>insts := pre @ code @ ci' # post\<rparr> # post_bs) =
      set (?A @ ?C) \<union> set (map iid code)"
    by (auto simp: inst_ids_def ci')
  have lt2: "\<And>k. k \<in> set (map iid code) \<Longrightarrow> k < n + length code" unfolding ids by simp
  have 2: "\<forall>k \<in> inst_ids (pre_bs @ B\<lparr>insts := pre @ code @ ci' # post\<rparr> # post_bs). k < n + length code"
    unfolding eq using lt' lt2 by (meson UnE trans_less_add1)
  from 1 2 show ?thesis by (simp add: wf_body_def)
qed

definition decoration :: "func \<Rightarrow> ty \<Rightarrow> ty \<Rightarrow> val \<Rightarrow> val \<Rightarrow> instr \<Rightarrow> nat \<Rightarrow> instr list \<times> instr" where
  "decoration call_from rt cs drtiSetCaller caller ci g =
     (case iop ci of
        CallBase kind callee args \<Rightarrow>
          (decoration_code call_from rt drtiSetCaller (GlobalVariableV g cs) caller callee (Suc g),
           decorated_call ci (new_target callee rt (Suc g + length (cast_old_target callee (Suc g)))))
      | _ \<Rightarrow> ([], ci))"

fun decoration_plan ::
  "func \<Rightarrow> ty \<Rightarrow> ty \<Rightarrow> val \<Rightarrow> val \<Rightarrow> block list \<Rightarrow> (32 word \<times> nat) list \<Rightarrow> nat \<Rightarrow>
   (nat \<Rightarrow> (instr list \<times> instr) option)" where
  "decoration_plan call_from rt cs sc caller bs [] g = Map.empty"
| "decoration_plan call_from rt cs sc caller bs ((call_number, c) # collected) g =
     (case find_inst c bs of
        None \<Rightarrow> decoration_plan call_from rt cs sc caller bs collected g
      | Some ci \<Rightarrow>
          (decoration_plan call_from rt cs sc caller bs collected
             (Suc g + length (fst (decoration call_from rt cs sc caller ci g))))
          (c \<mapsto> decoration call_from rt cs sc caller ci g))"

fun plan_globals ::
  "func \<Rightarrow> ty \<Rightarrow> ty \<Rightarrow> val \<Rightarrow> val \<Rightarrow> block list \<Rightarrow> ty \<Rightarrow> string \<Rightarrow> val \<Rightarrow>
   (32 word \<times> nat) list \<Rightarrow> nat \<Rightarrow> gvar list" where
  "plan_globals call_from rt cs sc caller bs vt fn lg [] g = []"
| "plan_globals call_from rt cs sc caller bs vt fn lg ((call_number, c) # collected) g =
     (case find_inst c bs of
        None \<Rightarrow> plan_globals call_from rt cs sc caller bs vt fn lg collected g
      | Some ci \<Rightarrow>
          callsite_global cs vt fn lg call_number g #
          plan_globals call_from rt cs sc caller bs vt fn lg collected
            (Suc g + length (fst (decoration call_from rt cs sc caller ci g))))"

lemma dom_decoration_plan:
  "dom (decoration_plan call_from rt cs sc caller bs collected g) \<subseteq> snd ` set collected"
proof (induction collected arbitrary: g)
  case Nil
  then show ?case by simp
next
  case (Cons a collected)
  obtain call_number c where a: "a = (call_number, c)" by (cases a)
  have set: "snd ` set (a # collected) = insert c (snd ` set collected)"
    by (simp add: a)
  show ?case
  proof (cases "find_inst c bs")
    case None
    have "decoration_plan call_from rt cs sc caller bs (a # collected) g =
        decoration_plan call_from rt cs sc caller bs collected g"
      by (simp add: a None)
    then show ?thesis
      unfolding set using Cons.IH [of g] by (simp add: subset_insertI2)
  next
    case (Some ci)
    have "dom (decoration_plan call_from rt cs sc caller bs (a # collected) g) =
        insert c (dom (decoration_plan call_from rt cs sc caller bs collected
             (Suc g + length (fst (decoration call_from rt cs sc caller ci g)))))"
      by (simp add: a Some)
    then show ?thesis
      unfolding set
      using Cons.IH [of "Suc g + length (fst (decoration call_from rt cs sc caller ci g))"]
      by (simp add: subset_insertI2)
  qed
qed

lemma find_Some_member: "find P xs = Some x \<Longrightarrow> P x \<and> x \<in> set xs"
  by (induction xs) (auto split: if_splits)

lemma find_inst_split:
  assumes "find_inst c bs = Some ci"
  shows "iid ci = c \<and> (\<exists>pre_bs B post_bs pre post. bs = pre_bs @ B # post_bs \<and> insts B = pre @ ci # post)"
proof -
  from find_Some_member [OF assms [unfolded find_inst_def]]
  have c: "iid ci = c" and mem: "ci \<in> set (concat (map insts bs))"
    by simp_all
  from mem obtain B where B: "B \<in> set bs" "ci \<in> set (insts B)" by auto
  from B(1) obtain pre_bs post_bs where 1: "bs = pre_bs @ B # post_bs" by (auto dest: split_list)
  from B(2) obtain pre post where 2: "insts B = pre @ ci # post" by (auto dest: split_list)
  from c 1 2 show ?thesis by blast
qed

lemma wf_body_mono: "wf_body n bs \<Longrightarrow> n \<le> n' \<Longrightarrow> wf_body n' bs"
  by (auto simp: wf_body_def)

lemma decorate_calls_expand:
  assumes inl: "m_inline st = Some inl"
    and cs: "m_drti_callsite_type inl = Some cs"
    and cf: "m_drti_call_from inl = Some call_from"
    and tn: "fret call_from = PointerTy tn"
    and d0: "distinct (map iid (concat (map insts bs)))"
  shows "getElementType m cs 3 = Some vt \<Longrightarrow> getElementType m tn 5 = Some rt \<Longrightarrow>
     fst (getOrInsertFunction ''_drti_set_caller'' VoidTy [fret call_from] m) = sc \<Longrightarrow>
     \<forall>(call_number, c) \<in> set collected. \<exists>ci kind callee args.
        find_inst c bs = Some ci \<and> iop ci = CallBase kind callee args \<Longrightarrow>
     distinct (map snd collected) \<Longrightarrow>
     dom \<sigma> \<inter> snd ` set collected = {} \<Longrightarrow>
     wf_body (next_id m) (expand \<sigma> bs) \<Longrightarrow>
     \<exists>m'. decorate_calls st fn collected caller lg (m, expand \<sigma> bs) =
            Inr (m', expand (\<sigma> ++ decoration_plan call_from rt cs sc caller bs collected (next_id m)) bs) \<and>
          globals m' = globals m @ plan_globals call_from rt cs sc caller bs vt fn lg collected (next_id m) \<and>
          named_structs m' = named_structs m \<and> triple m' = triple m \<and>
          function_list m' =
            (if collected = [] then function_list m
             else function_list (snd (getOrInsertFunction ''_drti_set_caller'' VoidTy [fret call_from] m)))"
proof (induction collected arbitrary: m \<sigma>)
  case Nil
  then show ?case by simp
next
  case (Cons a collected)
  obtain call_number c where a: "a = (call_number, c)" by (cases a)
  from Cons.prems(4) a obtain ci kind callee args where
    found: "find_inst c bs = Some ci" and op: "iop ci = CallBase kind callee args"
    by auto
  from find_inst_split [OF found] obtain pre_bs B post_bs pre post where
    c: "iid ci = c" and bs: "bs = pre_bs @ B # post_bs" and B: "insts B = pre @ ci # post"
    by blast
  let ?n = "next_id m"
  let ?m1 = "m\<lparr>globals := globals m @ [callsite_global cs vt fn lg call_number ?n], next_id := Suc ?n\<rparr>"
  let ?code = "decoration_code call_from rt sc (GlobalVariableV ?n cs) caller callee (Suc ?n)"
  let ?ci' = "decorated_call ci (new_target callee rt (Suc ?n + length (cast_old_target callee (Suc ?n))))"
  let ?m2 = "(snd (getOrInsertFunction ''_drti_set_caller'' VoidTy [fret call_from] ?m1))
               \<lparr>next_id := Suc ?n + length ?code\<rparr>"
  let ?\<sigma>' = "\<sigma>(c \<mapsto> (?code, ?ci'))"
  have dec: "decoration call_from rt cs sc caller ci ?n = (?code, ?ci')"
    by (simp add: decoration_def op)
  have cnot: "c \<notin> dom \<sigma>" using Cons.prems(6) a by auto
  from cnot have "\<sigma> c = None" by blast
  then have "\<sigma> (iid ci) = None" by (simp only: c)
  then have ci_exp: "expand_inst \<sigma> ci = [ci]"
    by (simp add: expand_inst_def)
  note dm = distinct_middle_notin [of iid "concat (map insts pre_bs)" pre ci post "concat (map insts post_bs)"]
  have dd: "distinct (map iid (concat (map insts pre_bs) @ pre @ ci # post @ concat (map insts post_bs)))"
    using d0 by (simp add: bs B)
  have notin: "c \<notin> inst_ids pre_bs" "c \<notin> inst_ids post_bs" "c \<notin> iid ` set pre" "c \<notin> iid ` set post"
    using dm [OF dd] by (simp_all add: c inst_ids_def)
  let ?pre_bs = "expand \<sigma> pre_bs" and ?post_bs = "expand \<sigma> post_bs"
  let ?pre = "concat (map (expand_inst \<sigma>) pre)" and ?post = "concat (map (expand_inst \<sigma>) post)"
  let ?B = "B\<lparr>insts := ?pre @ ci # ?post\<rparr>"
  have exp: "expand \<sigma> bs = ?pre_bs @ ?B # ?post_bs"
    by (simp add: bs B ci_exp)
  have wf1: "wf_body (Suc ?n) (?pre_bs @ ?B # ?post_bs)"
    using wf_body_mono [OF Cons.prems(7), of "Suc ?n"] unfolding exp by simp
  have Bi: "insts ?B = ?pre @ ci # ?post" by simp
  from wf1 have dshape: "distinct (map iid (concat (map insts (?pre_bs @ ?B # ?post_bs))))"
    and fshape: "\<forall>k \<in> inst_ids (?pre_bs @ ?B # ?post_bs). k < next_id ?m1"
    unfolding wf_body_def by simp_all
  have sc1: "sc = fst (getOrInsertFunction ''_drti_set_caller'' VoidTy [fret call_from] ?m1)"
    by (simp add: getOrInsertFunction_next_id getOrInsertFunction_new_global callsite_global_def
          Cons.prems(3))
  have step1: "create_callsite_global st fn lg call_number m = Inr (GlobalVariableV ?n cs, ?m1)"
    by (rule create_callsite_global_eq [OF inl cs Cons.prems(1)])
  have rt1: "getElementType ?m1 tn 5 = Some rt" using Cons.prems(2) by simp
  have step2: "decorate_call st caller (iid ci) (GlobalVariableV ?n cs) (?m1, ?pre_bs @ ?B # ?post_bs) =
      Inr (?m2, ?pre_bs @ ?B\<lparr>insts := ?pre @ ?code @ ?ci' # ?post\<rparr> # ?post_bs)"
    using decorate_call_shape [OF dshape fshape Bi op inl cf tn rt1 refl sc1 refl,
        where caller = caller and callsite = "GlobalVariableV ?n cs"]
    by simp
  have exp': "?pre_bs @ ?B\<lparr>insts := ?pre @ ?code @ ?ci' # ?post\<rparr> # ?post_bs = expand ?\<sigma>' bs"
    using notin by (simp add: bs B expand_upd_notin expand_insts_upd_notin expand_inst_def c)
  have wf2: "wf_body (next_id ?m2) (expand ?\<sigma>' bs)"
    using wf_body_decorated [OF wf1 Bi decoration_code_ids, where ci' = ?ci' and ?call_from1 = call_from
        and ?rt1 = rt and ?drtiSetCaller1 = sc and ?callsite1 = "GlobalVariableV ?n cs"
        and ?caller1 = caller and ?callee1 = callee]
    unfolding exp' by (simp add: decorated_call_def)
  have unfold: "decorate_calls st fn (a # collected) caller lg (m, expand \<sigma> bs) =
      decorate_calls st fn collected caller lg (?m2, expand ?\<sigma>' bs)"
    unfolding a exp using step1 step2 exp' by (simp add: c)
  have p1: "getElementType ?m2 cs 3 = Some vt" using Cons.prems(1) by simp
  have p2: "getElementType ?m2 tn 5 = Some rt" using Cons.prems(2) by simp
  have p3: "fst (getOrInsertFunction ''_drti_set_caller'' VoidTy [fret call_from] ?m2) = sc"
    using sc1 by (simp add: getOrInsertFunction_next_id getOrInsertFunction_idem)
  have p4: "\<forall>(call_number, c) \<in> set collected. \<exists>ci kind callee args.
        find_inst c bs = Some ci \<and> iop ci = CallBase kind callee args"
    using Cons.prems(4) by simp
  have p5: "distinct (map snd collected)" using Cons.prems(5) by simp
  have cnew: "c \<notin> snd ` set collected" using Cons.prems(5) by (simp add: a)
  have "dom \<sigma> \<inter> snd ` set collected = {}"
    using Cons.prems(6) by (simp add: a)
  then have p6: "dom ?\<sigma>' \<inter> snd ` set collected = {}"
    using cnew by simp
  from Cons.IH [OF p1 p2 p3 p4 p5 p6 wf2] obtain m' where
    r: "decorate_calls st fn collected caller lg (?m2, expand ?\<sigma>' bs) =
          Inr (m', expand (?\<sigma>' ++ decoration_plan call_from rt cs sc caller bs collected (next_id ?m2)) bs)"
    and g: "globals m' = globals ?m2 @ plan_globals call_from rt cs sc caller bs vt fn lg collected (next_id ?m2)"
    and ns: "named_structs m' = named_structs ?m2" and tr: "triple m' = triple ?m2"
    and fl: "function_list m' =
            (if collected = [] then function_list ?m2
             else function_list (snd (getOrInsertFunction ''_drti_set_caller'' VoidTy [fret call_from] ?m2)))"
    by blast
  have cdom: "c \<notin> dom (decoration_plan call_from rt cs sc caller bs collected (next_id ?m2))"
    using dom_decoration_plan cnew by blast
  have maps: "?\<sigma>' ++ decoration_plan call_from rt cs sc caller bs collected (next_id ?m2) =
      \<sigma> ++ decoration_plan call_from rt cs sc caller bs (a # collected) ?n"
    using cdom by (simp add: a found dec map_add_upd_left)
  have gl: "globals ?m2 @ plan_globals call_from rt cs sc caller bs vt fn lg collected (next_id ?m2) =
      globals m @ plan_globals call_from rt cs sc caller bs vt fn lg (a # collected) ?n"
    by (simp add: a found dec)
  have fl1: "function_list (snd (getOrInsertFunction ''_drti_set_caller'' VoidTy [fret call_from] ?m1)) =
      function_list (snd (getOrInsertFunction ''_drti_set_caller'' VoidTy [fret call_from] m))"
    by (simp add: getOrInsertFunction_def getNamedValue_new_global callsite_global_def
          getNamedValue_def getFunction_def find_append_cases split: option.splits)
  have fl2: "function_list m' =
      function_list (snd (getOrInsertFunction ''_drti_set_caller'' VoidTy [fret call_from] m))"
    using fl fl1
    by (simp add: getOrInsertFunction_next_id getOrInsertFunction_idem_module split: if_splits)
  have r': "decorate_calls st fn (a # collected) caller lg (m, expand \<sigma> bs) =
      Inr (m', expand (\<sigma> ++ decoration_plan call_from rt cs sc caller bs (a # collected) ?n) bs)"
    using r unfolding unfold maps .
  have g': "globals m' = globals m @ plan_globals call_from rt cs sc caller bs vt fn lg (a # collected) ?n"
    using g unfolding gl .
  have ns': "named_structs m' = named_structs m" using ns by simp
  have tr': "triple m' = triple m" using tr by simp
  show ?case
    by (intro exI [of _ m'] conjI) (simp_all only: r' g' ns' tr' fl2 list.simps if_False)
qed

lemma plan_lookup:
  assumes "distinct (map snd collected)" and "(call_number, c) \<in> set collected"
    and "find_inst c bs = Some ci"
  shows "\<exists>g \<ge> n. decoration_plan call_from rt cs sc caller bs collected n c =
              Some (decoration call_from rt cs sc caller ci g) \<and>
            callsite_global cs vt fn lg call_number g \<in>
              set (plan_globals call_from rt cs sc caller bs vt fn lg collected n)"
  using assms(1,2)
proof (induction collected arbitrary: n)
  case Nil
  then show ?case by simp
next
  case (Cons a collected)
  obtain num' c' where a: "a = (num', c')" by (cases a)
  show ?case
  proof (cases "a = (call_number, c)")
    case True
    then have "num' = call_number" "c' = c" using a by simp_all
    then show ?thesis
      by (intro exI [of _ n]) (simp add: a assms(3))
  next
    case False
    with Cons.prems have mem: "(call_number, c) \<in> set collected" by simp
    from Cons.prems(1) have d: "distinct (map snd collected)" by simp
    from Cons.prems(1) mem have ne: "c \<noteq> c'"
      by (auto simp: a image_iff)
    show ?thesis
    proof (cases "find_inst c' bs")
      case None
      from Cons.IH [OF d mem, of n] show ?thesis by (simp add: a None)
    next
      case (Some ci')
      let ?n' = "Suc n + length (fst (decoration call_from rt cs sc caller ci' n))"
      from Cons.IH [OF d mem, of ?n'] obtain g where
        "g \<ge> ?n'" "decoration_plan call_from rt cs sc caller bs collected ?n' c =
              Some (decoration call_from rt cs sc caller ci g)"
        "callsite_global cs vt fn lg call_number g \<in>
              set (plan_globals call_from rt cs sc caller bs vt fn lg collected ?n')"
        by blast
      then show ?thesis
        using ne by (intro exI [of _ g]) (simp add: a Some)
    qed
  qed
qed

lemma find_distinct_member:
  "distinct (map f xs) \<Longrightarrow> x \<in> set xs \<Longrightarrow> find (\<lambda>i. f i = f x) xs = Some x"
  by (induction xs) (auto simp: image_iff)

section \<open>What landing and call decoration leave in the module\<close>

text \<open>
  Editing a body changes no global variable, and the global variables a module holds
  are still there, unchanged, after \<open>add_landing_globals\<close>. \<open>stripped\<close> is the module
  after \<open>collect_globals\<close>: the same functions without the two attributes.
\<close>

definition same_globals :: "editing \<Rightarrow> editing \<Rightarrow> bool" where
  "same_globals s s' = (globals (fst s') = globals (fst s) \<and> named_structs (fst s') = named_structs (fst s)
      \<and> triple (fst s') = triple (fst s))"

lemma same_globals_refl [simp]: "same_globals s s"
  by (simp add: same_globals_def)

lemma same_globals_trans: "same_globals s s' \<Longrightarrow> same_globals s' s'' \<Longrightarrow> same_globals s s''"
  by (simp add: same_globals_def)

lemma Insert_frame: "Insert ip name t operation s = (v, s') \<Longrightarrow> same_globals s s'"
  by (cases s) (auto simp: Insert_def same_globals_def Let_def)

lemma getOrInsertFunction_frame:
  "getOrInsertFunction_editing name ret params s = (v, s') \<Longrightarrow> same_globals s s'"
  by (cases s) (auto simp: getOrInsertFunction_editing_def getOrInsertFunction_def same_globals_def
        split: option.splits prod.splits)

lemma Create_frames:
  "CreateBitCast ip v1 t name s = (v, s') \<Longrightarrow> same_globals s s'"
  "CreatePtrToInt ip v1 t name s = (v, s') \<Longrightarrow> same_globals s s'"
  "CreateIntToPtr ip v1 t name s = (v, s') \<Longrightarrow> same_globals s s'"
  "CreateAnd ip v1 v2 name s = (v, s') \<Longrightarrow> same_globals s s'"
  "CreateICmpEQ ip v1 v2 name s = (v, s') \<Longrightarrow> same_globals s s'"
  "CreateGEP ip v1 vs name s = (v, s') \<Longrightarrow> same_globals s s'"
  "CreateLoad ip v1 name s = (v, s') \<Longrightarrow> same_globals s s'"
  "CreateCall ip t v1 vs name s = (v, s') \<Longrightarrow> same_globals s s'"
  "CreateCondBr ip v1 b1 b2 s = (v, s') \<Longrightarrow> same_globals s s'"
  "CreateBr ip b1 s = (v, s') \<Longrightarrow> same_globals s s'"
  "CreatePHI ip t name s = (v, s') \<Longrightarrow> same_globals s s'"
  by (auto simp: CreateBitCast_def CreatePtrToInt_def CreateIntToPtr_def CreateAnd_def
        CreateICmpEQ_def CreateGEP_def CreateLoad_def CreateCall_def CreateCondBr_def CreateBr_def
        CreatePHI_def split: if_splits dest: Insert_frame)

lemma CreateStructGEP_frame:
  "CreateStructGEP ip v1 k name s = Inr (v, s') \<Longrightarrow> same_globals s s'"
  by (auto simp: CreateStructGEP_def split: ty.splits option.splits dest: Insert_frame)

lemma block_frames:
  "splitBasicBlock b sp name s = (k, s') \<Longrightarrow> same_globals s s'"
  "BasicBlock_Create name s = (k, s') \<Longrightarrow> same_globals s s'"
  "same_globals s (erase_back b s)"
  by (cases s; auto simp: splitBasicBlock_def BasicBlock_Create_def erase_back_def
        same_globals_def Let_def)+

lemma same_globals_fst: "same_globals s (m, bs) \<Longrightarrow> fst s' = m \<Longrightarrow> same_globals s s'"
  by (simp add: same_globals_def)

lemma add_landing_update_frame:
  assumes "add_landing_update x st function_name landing_global s0 = Inr (caller, s')"
  shows "same_globals s0 s'"
  using assms unfolding add_landing_update_def
  apply (simp add: Let_def split: list.splits option.splits prod.splits)
  apply (auto dest!: Create_frames block_frames(1,2) getOrInsertFunction_frame
      simp: same_globals_def erase_back_def)
  done

lemma decorate_call_frame:
  assumes "decorate_call st caller callInst callsite s0 = Inr s'"
  shows "same_globals s0 s'"
  using assms unfolding decorate_call_def
  apply (simp add: Let_def split: option.splits opcode.splits sum.splits prod.splits)
  apply (auto dest!: Create_frames CreateStructGEP_frame getOrInsertFunction_frame
      simp: same_globals_def)
  done

definition globals_kept :: "module \<Rightarrow> module \<Rightarrow> bool" where
  "globals_kept m m' = (set (globals m) \<subseteq> set (globals m'))"

lemma globals_kept_refl [simp]: "globals_kept m m"
  by (simp add: globals_kept_def)

lemma globals_kept_trans: "globals_kept m m' \<Longrightarrow> globals_kept m' m'' \<Longrightarrow> globals_kept m m''"
  by (auto simp: globals_kept_def)

lemma set_insert_before_global: "set (insert_before_global b g xs) = insert g (set xs)"
  by (induction xs) auto

lemma new_GlobalVariable_kept:
  "globals_kept m (snd (new_GlobalVariable t c l init name before m))"
  by (auto simp: new_GlobalVariable_def globals_kept_def Let_def set_insert_before_global
        split: option.splits)

lemma create_callsite_global_kept:
  "create_callsite_global st fn lg num m = Inr (v, m') \<Longrightarrow> globals_kept m m'"
  by (auto simp: create_callsite_global_def Let_def new_GlobalVariable_def globals_kept_def
        split: option.splits)

lemma decorate_calls_kept:
  "decorate_calls st fn collected caller lg s = Inr s' \<Longrightarrow> globals_kept (fst s) (fst s')"
proof (induction collected arbitrary: s)
  case Nil
  then show ?case by simp
next
  case (Cons a collected)
  obtain num c where a: "a = (num, c)" by (cases a)
  from Cons.prems obtain v m1 s1 where
    1: "create_callsite_global st fn lg num (fst s) = Inr (v, m1)"
    and 2: "decorate_call st caller c v (m1, snd s) = Inr s1"
    and 3: "decorate_calls st fn collected caller lg s1 = Inr s'"
    by (auto simp: a split: sum.splits)
  from decorate_call_frame [OF 2] have "globals_kept m1 (fst s1)"
    by (simp add: same_globals_def globals_kept_def)
  with create_callsite_global_kept [OF 1] Cons.IH [OF 3] show ?case
    by (blast intro: globals_kept_trans)
qed

lemma create_landing_global_kept:
  "globals_kept m (snd (create_landing_global st fn m))"
  unfolding create_landing_global_def Let_def split_def
  by (blast intro: globals_kept_trans new_GlobalVariable_kept)

lemma set_blocks_globals [simp]: "globals (set_blocks name bs m) = globals m"
  by (simp add: set_blocks_def)

lemma add_landing_globals_body_kept:
  assumes "add_landing_globals_body x st f m = Inr m'"
  shows "globals_kept m m'"
proof -
  obtain lg m1 where 1: "create_landing_global st (fname f) m = (lg, m1)"
    by (cases "create_landing_global st (fname f) m")
  from assms 1 obtain caller s m2 bs where
    2: "add_landing_update x st (fname f) lg (m1, blocks f) = Inr (caller, s)"
    and 3: "decorate_calls st (fname f) (collect_calls st (blocks f)) caller lg s = Inr (m2, bs)"
    and 4: "m' = set_blocks (fname f) bs m2"
    by (auto simp: add_landing_globals_body_def Let_def split: sum.splits)
  have "globals_kept m m1" using create_landing_global_kept [of m st "fname f"] 1 by simp
  moreover have "globals_kept m1 (fst s)"
    using add_landing_update_frame [OF 2] by (simp add: same_globals_def globals_kept_def)
  moreover have "globals_kept (fst s) m2" using decorate_calls_kept [OF 3] by simp
  moreover have "globals_kept m2 m'" by (simp add: 4 globals_kept_def)
  ultimately show ?thesis by (blast intro: globals_kept_trans)
qed

lemma add_landing_globals_loop_kept:
  "add_landing_globals_loop x st names m w = Inr (m', w') \<Longrightarrow> globals_kept m m'"
proof (induction names arbitrary: m w)
  case Nil
  then show ?case by simp
next
  case (Cons name names)
  show ?case
  proof (cases "getFunction m name")
    case None
    with Cons show ?thesis by simp
  next
    case (Some f)
    show ?thesis
    proof (cases "isDeclaration f")
      case True
      with Some Cons show ?thesis by simp
    next
      case False
      with Some Cons.prems obtain m1 where
        1: "add_landing_globals_body x st f m = Inr m1"
        and 2: "add_landing_globals_loop x st names m1
                  (w\<lparr>trace := trace w @ [Dbgs (PrintFunctionPass x m1 name)]\<rparr>) = Inr (m', w')"
        by (auto split: sum.splits)
      from add_landing_globals_body_kept [OF 1] Cons.IH [OF 2] show ?thesis
        by (blast intro: globals_kept_trans)
    qed
  qed
qed

definition stripped :: "module \<Rightarrow> module" where
  "stripped m =
     m\<lparr>function_list :=
         map (\<lambda>f. if isIntrinsic f \<or> isDeclaration f then f else removeFnAttrs f) (function_list m)\<rparr>"

lemma collect_globals_loop_functions:
  "snd (collect_globals_loop fs result) =
     map (\<lambda>f. if isIntrinsic f \<or> isDeclaration f then f else removeFnAttrs f) fs"
  by (induction fs arbitrary: result) (auto simp: split_def)

lemma collect_globals_module: "snd (collect_globals x m) = stripped m"
  by (simp add: collect_globals_def stripped_def split_def Let_def collect_globals_loop_functions)

lemma collect_globals_fields:
  "(snd (collect_globals x m))\<lparr>function_list := []\<rparr> = m\<lparr>function_list := []\<rparr>"
  "map (\<lambda>f. f\<lparr>fattrs := {}\<rparr>) (function_list (snd (collect_globals x m))) =
     map (\<lambda>f. f\<lparr>fattrs := {}\<rparr>) (function_list m)"
  by (simp_all add: collect_globals_module stripped_def removeFnAttrs_def comp_def)

lemma collect_globals_strips:
  "function_list (snd (collect_globals x m)) =
     map (\<lambda>f. if isIntrinsic f \<or> isDeclaration f then f
               else f\<lparr>fattrs := fattrs f - {OptimizeNone, NoInline}\<rparr>)
       (function_list m)"
proof -
  have "removeFnAttrs f = f\<lparr>fattrs := fattrs f - {OptimizeNone, NoInline}\<rparr>" for f
  proof -
    have "fattrs f - {OptimizeNone} - {NoInline} = fattrs f - {OptimizeNone, NoInline}" by auto
    then show ?thesis by (simp add: removeFnAttrs_def)
  qed
  then show ?thesis by (simp add: collect_globals_module stripped_def)
qed

definition bitcode_global :: "extern \<Rightarrow> module \<Rightarrow> gvar" where
  "bitcode_global x m =
     \<lparr>gid = next_id m, gname = ''__drti_bitcode'',
      gtype = ArrayTy (IntegerTy 8) (length (writeModule x (stripped m))), gconstant = True,
      glinkage = InternalLinkage, ginit = Some (ConstantDataArray (writeModule x (stripped m)))\<rparr>"

lemma create_self_bitcode:
  "bitcode_global x (m_module st) \<in> set (globals (m_module (create_self x st)))"
  by (simp add: create_self_def split_def Let_def collect_globals_module new_GlobalVariable_def
        raw_bitcode_def bitcode_global_def stripped_def)

lemma add_landing_globals_kept:
  "add_landing_globals x st w = Inr (st', w') \<Longrightarrow> globals_kept (m_module st) (m_module st')"
  by (auto simp: add_landing_globals_def split: sum.splits dest: add_landing_globals_loop_kept)

section \<open>The body of the loop of \<open>add_landing_globals\<close>\<close>

text \<open>
  \<open>call_enumeration\<close> is the enumeration the comment in \<open>collect_calls\<close> speaks of: the
  calls of the function that are not calls of inline assembly, in encounter order, as the
  function is before it is modified.
\<close>

lemma create_landing_global_result:
  assumes "m_inline st = Some inl" and "m_drti_landing_site_type inl = Some ls"
  shows "fst (create_landing_global st fn m) = GlobalVariableV (next_id m + 2) ls"
    and "next_id (snd (create_landing_global st fn m)) = next_id m + 3"
    and "function_list (snd (create_landing_global st fn m)) = function_list m"
    and "named_structs (snd (create_landing_global st fn m)) = named_structs m"
    and "triple (snd (create_landing_global st fn m)) = triple m"
  using assms
  by (simp_all add: create_landing_global_def split_def Let_def new_GlobalVariable_def
        global_value_def global_id_def)

lemma getElementType_cong:
  "named_structs m' = named_structs m \<Longrightarrow> getElementType m' t i = getElementType m t i"
  by (simp add: getElementType_def split: ty.splits)

lemma distinct_interleave:
  fixes n :: nat
  assumes "distinct (A @ TR)" and "distinct (N1 @ N2)"
    and "\<forall>k \<in> set (A @ TR). k < n" and "\<forall>k \<in> set (N1 @ N2). n \<le> k"
  shows "distinct (A @ N1 @ TR @ N2)"
  using assms by (auto simp: not_le [symmetric] simp del: not_le) 

definition landing_blocks ::
  "extern \<Rightarrow> ty \<Rightarrow> val \<Rightarrow> val \<Rightarrow> func \<Rightarrow> val \<Rightarrow> block \<Rightarrow> instr list \<Rightarrow> instr list \<Rightarrow>
   block list \<Rightarrow> nat \<Rightarrow> block list" where
  "landing_blocks x tnp builtinRet drtiCaller landed landing_global entryBlock allocas body rest n =
     [entryBlock\<lparr>insts := allocas @ entry_check x builtinRet n\<rparr>,
      \<lparr>bid = n, bname = ''drti_land1'',
       insts = caller_phi tnp (bid entryBlock) n #
               map (replacePhiUsesWith (bid entryBlock) n) body\<rparr>] @
     replace_phis (bid entryBlock) n rest @
     [\<lparr>bid = n + 2, bname = ''drti_land2'', insts = probe_code x n\<rparr>,
      \<lparr>bid = n + 3, bname = ''drti_land3'',
       insts = confirmed_code tnp drtiCaller landed landing_global n\<rparr>]"

lemma concat_replace_phis:
  "concat (map insts (replace_phis a b bs)) = map (replacePhiUsesWith a b) (concat (map insts bs))"
  by (induction bs) (auto simp: replace_phis_def)

lemma landing_blocks_ids:
  "map iid (concat (map insts
      (landing_blocks x tnp builtinRet drtiCaller landed landing_global entryBlock allocas body rest n))) =
   map iid allocas @ [n + 4, n + 5, n + 6, n + 7, n + 8, n + 9] @
   (map iid body @ map iid (concat (map insts rest))) @
   [n + 10, n + 11, n + 12, n + 13, n + 14, n + 15, n + 16, n + 17]"
  by (simp add: landing_blocks_def entry_check_def probe_code_def confirmed_code_def caller_phi_def
        concat_replace_phis comp_def)

lemma landing_blocks_wf:
  assumes a1: "insts entryBlock = allocas @ body"
    and a4: "distinct (map iid (concat (map insts (entryBlock # rest))))"
    and a6: "\<forall>k \<in> inst_ids (entryBlock # rest). k < n"
  shows "wf_body (n + 18)
           (landing_blocks x tnp builtinRet drtiCaller landed landing_global entryBlock allocas body rest n)"
proof -
  let ?A = "map iid allocas" and ?TR = "map iid body @ map iid (concat (map insts rest))"
  let ?N1 = "[n + 4, n + 5, n + 6, n + 7, n + 8, n + 9]"
  let ?N2 = "[n + 10, n + 11, n + 12, n + 13, n + 14, n + 15, n + 16, n + 17]"
  have old: "map iid (concat (map insts (entryBlock # rest))) = ?A @ ?TR"
    by (simp add: a1)
  have d: "distinct (?A @ ?TR)" using a4 unfolding old .
  have "set (?A @ ?TR) = inst_ids (entryBlock # rest)"
    unfolding old [symmetric] inst_ids_def by (simp only: set_map)
  with a6 have lt: "\<forall>k \<in> set (?A @ ?TR). k < n"
    by presburger
  have dn: "distinct (?N1 @ ?N2)" by simp
  have ge: "\<forall>k \<in> set (?N1 @ ?N2). n \<le> k" by simp
  have 1: "distinct (?A @ ?N1 @ ?TR @ ?N2)"
    by (rule distinct_interleave [OF d dn lt ge])
  have 2: "\<forall>k \<in> set (?A @ ?N1 @ ?TR @ ?N2). k < n + 18"
  proof
    fix k assume "k \<in> set (?A @ ?N1 @ ?TR @ ?N2)"
    then have "k \<in> set (?A @ ?TR) \<or> k \<in> set (?N1 @ ?N2)" by auto
    then show "k < n + 18"
    proof
      assume "k \<in> set (?A @ ?TR)" with lt show ?thesis by fastforce
    next
      assume "k \<in> set (?N1 @ ?N2)" then show ?thesis by auto
    qed
  qed
  show ?thesis
    unfolding wf_body_def inst_ids_def
    using 1 2 by (simp only: landing_blocks_ids set_map [symmetric])
qed

lemma landing_blocks_member:
  assumes a1: "insts entryBlock = allocas @ body"
    and i: "i \<in> set (concat (map insts (entryBlock # rest)))"
    and call: "iop i = CallBase kind callee args"
  shows "i \<in> set (concat (map insts
      (landing_blocks x tnp builtinRet drtiCaller landed landing_global entryBlock allocas body rest n)))"
proof -
  have same: "replacePhiUsesWith (bid entryBlock) n i = i"
    by (simp add: replacePhiUsesWith_def call)
  from i have "i \<in> set allocas \<or> i \<in> set body \<or> i \<in> set (concat (map insts rest))"
    by (auto simp: a1)
  then have "i \<in> set allocas \<or> i \<in> replacePhiUsesWith (bid entryBlock) n ` set body \<or>
      i \<in> replacePhiUsesWith (bid entryBlock) n ` set (concat (map insts rest))"
    using same by (metis imageI)
  then show ?thesis
    by (auto simp: landing_blocks_def concat_replace_phis)
qed

definition call_enumeration :: "block list \<Rightarrow> nat list" where
  "call_enumeration bs = map iid (filter counted_call (concat (map insts bs)))"

lemma collect_calls_member:
  assumes "(call_number, c) \<in> set (collect_calls st bs)"
  shows "\<exists>j i kind callee args.
           j < length (call_enumeration bs) \<and> call_enumeration bs ! j = c \<and>
           call_number = of_nat j \<and> c = iid i \<and> i \<in> set (concat (map insts bs)) \<and>
           iop i = CallBase kind callee args"
proof -
  let ?calls = "filter counted_call (concat (map insts bs))"
  from assms obtain j i where ji: "(j, i) \<in> set (enumerate 0 ?calls)"
    and eq: "call_number = of_nat j" "c = iid i"
    unfolding collect_calls_enumerate by auto
  from ji have j: "j < length ?calls" and i: "?calls ! j = i"
    by (simp_all add: in_set_enumerate_eq)
  from j i have mem: "i \<in> set ?calls" by (metis nth_mem)
  then have "counted_call i" and all: "i \<in> set (concat (map insts bs))" by simp_all
  then obtain kind callee args where "iop i = CallBase kind callee args"
    by (auto simp: counted_call_def split: opcode.splits)
  with j i eq all show ?thesis
    unfolding call_enumeration_def by (intro exI [of _ j] exI [of _ i]) auto
qed

lemma distinct_collect_calls:
  "distinct (map iid (concat (map insts bs))) \<Longrightarrow> distinct (map snd (collect_calls st bs))"
  unfolding collect_calls_ids by (rule distinct_map_filter)

lemma split_first_non_alloca:
  assumes "\<exists>i \<in> set xs. \<not> isAllocaInst i"
  shows "\<exists>allocas splitPoint tail. xs = allocas @ splitPoint # tail \<and>
           (\<forall>i \<in> set allocas. isAllocaInst i) \<and> \<not> isAllocaInst splitPoint"
  using split_list_first_prop [OF assms] by auto

lemma add_landing_globals_body_decorated:
  assumes f: "blocks f = entryBlock # rest"
    and nonalloca: "\<exists>i \<in> set (insts entryBlock). \<not> isAllocaInst i"
    and d_i: "distinct (map iid (concat (map insts (blocks f))))"
    and d_b: "distinct (map bid (blocks f))"
    and fresh: "\<forall>k \<in> inst_ids (blocks f) \<union> block_ids (blocks f). k < next_id m"
    and inl: "m_inline st = Some inl"
    and cs: "m_drti_callsite_type inl = Some cs"
    and ls: "m_drti_landing_site_type inl = Some ls"
    and cf: "m_drti_call_from inl = Some call_from"
    and tn: "fret call_from = PointerTy tn"
    and rt: "getElementType m tn 5 = Some rt"
    and vt: "getElementType m cs 3 = Some vt"
    and mask: "retalign_mask x \<noteq> 2 ^ 64 - 1"
  shows "\<exists>m' mU bs \<sigma> caller sc.
     add_landing_update x st (fname f) (GlobalVariableV (next_id m + 2) ls)
       (snd (create_landing_global st (fname f) m), blocks f) = Inr (caller, mU, bs) \<and>
     sc = fst (getOrInsertFunction ''_drti_set_caller'' VoidTy [fret call_from] mU) \<and>
     add_landing_globals_body x st f m = Inr (set_blocks (fname f) (expand \<sigma> bs) m') \<and>
     globals m' = globals (snd (create_landing_global st (fname f) m)) @
        plan_globals call_from rt cs sc caller bs vt (fname f) (GlobalVariableV (next_id m + 2) ls)
          (collect_calls st (blocks f)) (next_id mU) \<and>
     (\<forall>call_number c. (call_number, c) \<in> set (collect_calls st (blocks f)) \<longrightarrow> (\<exists>ci g.
         find_inst c (blocks f) = Some ci \<and> find_inst c bs = Some ci \<and>
         \<sigma> c = Some (decoration call_from rt cs sc caller ci g) \<and>
         callsite_global cs vt (fname f) (GlobalVariableV (next_id m + 2) ls) call_number g
           \<in> set (plan_globals call_from rt cs sc caller bs vt (fname f)
                    (GlobalVariableV (next_id m + 2) ls) (collect_calls st (blocks f)) (next_id mU))))"
proof -
  from split_first_non_alloca [OF nonalloca] obtain allocas splitPoint tail where
    a1: "insts entryBlock = allocas @ splitPoint # tail"
    and a2: "\<forall>i \<in> set allocas. isAllocaInst i" and a3: "\<not> isAllocaInst splitPoint"
    by blast
  define lg where "lg = GlobalVariableV (next_id m + 2) ls"
  define mL where "mL = snd (create_landing_global st (fname f) m)"
  define n where "n = next_id mL"
  define tnp where "tnp = PointerTy (the (m_drti_treenode_type (the (m_inline st))))"
  define m1 where "m1 = snd (getOrInsertFunction ''llvm.returnaddress'' (PointerTy (IntegerTy 8)) [IntegerTy 32] mL)"
  define mU where "mU = (snd (getOrInsertFunction ''_drti_caller'' tnp [] m1))\<lparr>next_id := n + 18\<rparr>"
  define bsU where "bsU = landing_blocks x tnp
      (fst (getOrInsertFunction ''llvm.returnaddress'' (PointerTy (IntegerTy 8)) [IntegerTy 32] mL))
      (fst (getOrInsertFunction ''_drti_caller'' tnp [] m1))
      (the (m_drti_landed (the (m_inline st)))) lg entryBlock allocas (splitPoint # tail) rest n"
  define caller where "caller = InstructionV (n + 9) tnp"
  define sc where "sc = fst (getOrInsertFunction ''_drti_set_caller'' VoidTy [fret call_from] mU)"
  define calls where "calls = collect_calls st (blocks f)"
  define \<sigma> where "\<sigma> = decoration_plan call_from rt cs sc caller bsU calls (n + 18)"
  note lgr = create_landing_global_result [OF inl ls, of "fname f" m]
  have nL: "n = next_id m + 3" by (simp add: n_def mL_def lgr)
  have cl: "create_landing_global st (fname f) m = (lg, mL)"
    by (simp add: prod_eq_iff lgr lg_def mL_def)
  have a4: "distinct (map iid (concat (map insts (entryBlock # rest))))" using d_i by (simp add: f)
  have a5: "distinct (map bid (entryBlock # rest))" using d_b by (simp add: f)
  have "\<And>k. k \<in> inst_ids (entryBlock # rest) \<union> block_ids (entryBlock # rest) \<Longrightarrow> k < next_id m"
    using fresh unfolding f by blast
  then have a6: "\<forall>k \<in> inst_ids (entryBlock # rest) \<union> block_ids (entryBlock # rest). k < next_id mL"
    unfolding n_def [symmetric] nL by (meson trans_less_add1)
  have shape: "add_landing_update x st (fname f) lg (mL, entryBlock # rest) = Inr (caller, (mU, bsU))"
    using add_landing_update_shape [OF a1 a2 a3 a4 a5 a6 mask tnp_def m1_def n_def, of "fname f" lg]
    by (simp add: caller_def mU_def bsU_def landing_blocks_def)
  have a6i: "\<forall>k \<in> inst_ids (entryBlock # rest). k < n"
    using a6 unfolding n_def by blast
  have wfU: "wf_body (n + 18) bsU"
    unfolding bsU_def by (rule landing_blocks_wf [OF a1 a4 a6i])
  have nU: "next_id mU = n + 18" by (simp add: mU_def)
  have nsU: "named_structs mU = named_structs m"
    by (simp add: mU_def m1_def mL_def lgr)
  have dU: "distinct (map iid (concat (map insts bsU)))" using wfU by (simp add: wf_body_def)
  have vtU: "getElementType mU cs 3 = Some vt" using vt getElementType_cong [OF nsU] by simp
  have rtU: "getElementType mU tn 5 = Some rt" using rt getElementType_cong [OF nsU] by simp
  have found: "\<exists>ci kind callee args. find_inst c (blocks f) = Some ci \<and> find_inst c bsU = Some ci \<and>
      iop ci = CallBase kind callee args"
    if "(call_number, c) \<in> set calls" for call_number c
  proof -
    from collect_calls_member [OF that [unfolded calls_def]] obtain i kind callee args where
      c: "c = iid i" and i: "i \<in> set (concat (map insts (blocks f)))"
      and op: "iop i = CallBase kind callee args"
      by blast
    from i have iU: "i \<in> set (concat (map insts bsU))"
      unfolding bsU_def f by (rule landing_blocks_member [OF a1 _ op])
    have "find_inst c (blocks f) = Some i"
      unfolding find_inst_def c by (rule find_distinct_member [OF d_i i])
    moreover have "find_inst c bsU = Some i"
      unfolding find_inst_def c by (rule find_distinct_member [OF dU iU])
    ultimately show ?thesis using op by blast
  qed
  then have callsU: "\<forall>(call_number, c) \<in> set calls. \<exists>ci kind callee args.
        find_inst c bsU = Some ci \<and> iop ci = CallBase kind callee args"
    by blast
  have dc: "distinct (map snd calls)"
    unfolding calls_def by (rule distinct_collect_calls [OF d_i])
  have wf0: "wf_body (next_id mU) (expand Map.empty bsU)" using wfU nU by simp
  from decorate_calls_expand [OF inl cs cf tn dU vtU rtU sc_def [symmetric] callsU dc _ wf0,
      of "fname f" caller lg]
  obtain m' where
    dec: "decorate_calls st (fname f) calls caller lg (mU, bsU) = Inr (m', expand \<sigma> bsU)"
    and gl: "globals m' = globals mU @ plan_globals call_from rt cs sc caller bsU vt (fname f) lg calls (n + 18)"
    by (auto simp: \<sigma>_def nU)
  have body: "add_landing_globals_body x st f m = Inr (set_blocks (fname f) (expand \<sigma> bsU) m')"
    using dec [unfolded calls_def f]
    by (simp add: add_landing_globals_body_def Let_def cl f shape)
  have each: "\<exists>ci g. find_inst c (blocks f) = Some ci \<and> find_inst c bsU = Some ci \<and>
         \<sigma> c = Some (decoration call_from rt cs sc caller ci g) \<and>
         callsite_global cs vt (fname f) lg call_number g \<in>
           set (plan_globals call_from rt cs sc caller bsU vt (fname f) lg calls (n + 18))"
    if mem: "(call_number, c) \<in> set calls" for call_number c
  proof -
    from found [OF mem] obtain ci where
      1: "find_inst c (blocks f) = Some ci" and 2: "find_inst c bsU = Some ci"
      by blast
    from plan_lookup [OF dc mem 2, of "n + 18" call_from rt cs sc caller vt "fname f" lg]
    obtain g where "\<sigma> c = Some (decoration call_from rt cs sc caller ci g)"
      "callsite_global cs vt (fname f) lg call_number g \<in>
         set (plan_globals call_from rt cs sc caller bsU vt (fname f) lg calls (n + 18))"
      unfolding \<sigma>_def by auto
    with 1 2 show ?thesis by blast
  qed
  have gU: "globals mU = globals mL" by (simp add: mU_def m1_def)
  have shape': "add_landing_update x st (fname f) lg (snd (create_landing_global st (fname f) m), blocks f) =
      Inr (caller, mU, bsU)"
    using shape by (simp add: mL_def f)
  have gl': "globals m' = globals (snd (create_landing_global st (fname f) m)) @
        plan_globals call_from rt cs sc caller bsU vt (fname f) (GlobalVariableV (next_id m + 2) ls)
          (collect_calls st (blocks f)) (next_id mU)"
    using gl unfolding gU nU mL_def calls_def lg_def .
  have each': "\<forall>call_number c. (call_number, c) \<in> set (collect_calls st (blocks f)) \<longrightarrow> (\<exists>ci g.
         find_inst c (blocks f) = Some ci \<and> find_inst c bsU = Some ci \<and>
         \<sigma> c = Some (decoration call_from rt cs sc caller ci g) \<and>
         callsite_global cs vt (fname f) (GlobalVariableV (next_id m + 2) ls) call_number g
           \<in> set (plan_globals call_from rt cs sc caller bsU vt (fname f)
                    (GlobalVariableV (next_id m + 2) ls) (collect_calls st (blocks f)) (next_id mU)))"
    using each unfolding calls_def lg_def nU by blast
  from shape' [unfolded lg_def] sc_def body gl' each' show ?thesis by blast
qed

lemma expand_member:
  assumes "find_inst c bs = Some ci" and "\<sigma> c = Some (code, call')"
  shows "\<exists>B \<in> set (expand \<sigma> bs). \<exists>pre post. insts B = pre @ code @ call' # post"
proof -
  from find_inst_split [OF assms(1)] obtain pre_bs B post_bs pre post where
    c: "iid ci = c" and bs: "bs = pre_bs @ B # post_bs" and B: "insts B = pre @ ci # post"
    by blast
  let ?B = "B\<lparr>insts := concat (map (expand_inst \<sigma>) (insts B))\<rparr>"
  have "?B \<in> set (expand \<sigma> bs)" by (simp add: bs)
  moreover have "insts ?B = concat (map (expand_inst \<sigma>) pre) @ code @ call' #
      concat (map (expand_inst \<sigma>) post)"
    by (simp add: B expand_inst_def c assms(2))
  ultimately show ?thesis by blast
qed

lemma plan_globals_inits:
  assumes "\<forall>(call_number, c) \<in> set collected. \<exists>ci. find_inst c bs = Some ci"
  shows "map ginit (plan_globals call_from rt cs sc caller bs vt fn lg collected g) =
     map (\<lambda>(call_number, c).
            Some (ConstantStruct cs [ConstantInt 64 0, lg, ConstantInt 32 (unat call_number),
                                      ConstantAggregateZero vt])) collected"
  using assms
proof (induction collected arbitrary: g)
  case Nil
  then show ?case by simp
next
  case (Cons a collected)
  obtain call_number c where a: "a = (call_number, c)" by (cases a)
  from Cons.prems obtain ci where ci: "find_inst c bs = Some ci" by (auto simp: a)
  from Cons.prems have "\<forall>(call_number, c) \<in> set collected. \<exists>ci. find_inst c bs = Some ci"
    by simp
  from Cons.IH [OF this] show ?case by (simp add: a ci callsite_global_def)
qed

lemma decoration_call:
  assumes "iop ci = CallBase kind callee args"
  shows "decoration call_from rt cs sc caller ci g =
     (decoration_code call_from rt sc (GlobalVariableV g cs) caller callee (Suc g),
      ci\<lparr>iop := CallBase (case kind of CallInst old \<Rightarrow> CallInst TCK_NoTail | _ \<Rightarrow> kind)
                  (new_target callee rt (Suc g + length (cast_old_target callee (Suc g)))) args\<rparr>)"
  using assms
  by (simp add: decoration_def decorated_call_def setCalledOperand_def setTailCallKind_def
        split: call_kind.splits)

lemma unat_call_number:
  "j < n \<Longrightarrow> n \<le> 2 ^ 32 \<Longrightarrow> unat (of_nat j :: 32 word) = j"
  by (simp add: unat_of_nat take_bit_nat_eq_self)

section \<open>A support module and a complete run of the pass\<close>

text \<open>
  A support module with the four struct types and the two hand-off routines, linked into
  \<open>example_module\<close>; \<open>decorating_pass\<close> is the pass object as \<open>runOnModule\<close> hands it to
  \<open>add_landing_globals\<close>.
\<close>

definition reflect_type :: ty where "reflect_type = StructTy ''struct.drti::reflect''"
definition landing_site_type :: ty where "landing_site_type = StructTy ''struct.drti::landing_site''"
definition callsite_type :: ty where "callsite_type = StructTy ''struct.drti::static_callsite''"
definition treenode_type :: ty where "treenode_type = StructTy ''struct.drti::treenode''"

definition drti_landed :: func where
  "drti_landed =
     \<lparr>fname = ''_drti_landed'', fret = VoidTy,
      fparams = [PointerTy landing_site_type, PointerTy treenode_type], fattrs = {},
      blocks = [\<lparr>bid = 100, bname = ''entry'', insts =
                  [\<lparr>iid = 101, iname = [], itype = VoidTy, iop = OtherInst True\<rparr>]\<rparr>]\<rparr>"

definition drti_call_from :: func where
  "drti_call_from =
     \<lparr>fname = ''_drti_call_from'', fret = PointerTy treenode_type,
      fparams = [PointerTy callsite_type, PointerTy treenode_type, void_star], fattrs = {},
      blocks = [\<lparr>bid = 102, bname = ''entry'', insts =
                  [\<lparr>iid = 103, iname = [], itype = VoidTy, iop = OtherInst True\<rparr>]\<rparr>]\<rparr>"

definition support_structs :: "string \<rightharpoonup> ty list" where
  "support_structs =
     [''struct.drti::reflect'' \<mapsto> [void_star, IntegerTy 64, PointerTy void_star, IntegerTy 64],
      ''struct.drti::landing_site'' \<mapsto>
         [IntegerTy 64, void_star, void_star, PointerTy reflect_type],
      ''struct.drti::static_callsite'' \<mapsto>
         [IntegerTy 64, PointerTy landing_site_type, IntegerTy 32, ArrayTy void_star 4],
      ''struct.drti::treenode'' \<mapsto>
         [PointerTy treenode_type, PointerTy landing_site_type, PointerTy callsite_type,
          IntegerTy 64, void_star, void_star]]"

definition support_module :: module where
  "support_module =
     \<lparr>triple = ''x86_64-unknown-linux-gnu'', function_list = [drti_landed, drti_call_from],
      globals = [], named_structs = support_structs, next_id = 104\<rparr>"

text \<open>
  The writer of this environment shows, for every function, its name and which of the two
  attributes it carries.
\<close>

definition attribute_text :: "func \<Rightarrow> string" where
  "attribute_text f =
     (if OptimizeNone \<in> fattrs f then ''+optnone'' else []) @
     (if NoInline \<in> fattrs f then ''+noinline'' else [])"

definition example_extern :: extern where
  "example_extern =
     bare_extern\<lparr>parseBitcodeFile := Inr support_module,
       writeModule := (\<lambda>m. concat (map (\<lambda>f. fname f @ attribute_text f @ '';'') (function_list m)))\<rparr>"

definition linked_module :: module where
  "linked_module =
     \<lparr>triple = ''x86_64-unknown-linux-gnu'',
      function_list = [hot_fn, helper_decl, other_fn, puts_decl, drti_landed, drti_call_from],
      globals = [], named_structs = support_structs, next_id = 104\<rparr>"

definition example_helpers :: InlineHelpers where
  "example_helpers =
     \<lparr>m_drti_landing_site_type = Some landing_site_type, m_drti_callsite_type = Some callsite_type,
      m_drti_treenode_type = Some treenode_type, m_drti_reflect_type = Some reflect_type,
      m_drti_landed = Some drti_landed, m_drti_call_from = Some drti_call_from\<rparr>"

definition decorating_pass :: DecoratePass where
  "decorating_pass =
     create_self example_extern (found_pass\<lparr>m_module := linked_module, m_inline := Some example_helpers\<rparr>)"

lemma example_link_support:
  "linkInModule example_extern example_module support_module = (False, linked_module)"
  by (simp add: example_extern_def bare_extern_def example_link_def example_module_def
        support_module_def linked_module_def)

lemma support_structs_simps:
  "support_structs ''struct.drti::reflect'' =
     Some [void_star, IntegerTy 64, PointerTy void_star, IntegerTy 64]"
  "support_structs ''struct.drti::landing_site'' =
     Some [IntegerTy 64, void_star, void_star, PointerTy reflect_type]"
  "support_structs ''struct.drti::static_callsite'' =
     Some [IntegerTy 64, PointerTy landing_site_type, IntegerTy 32, ArrayTy void_star 4]"
  "support_structs ''struct.drti::treenode'' =
     Some [PointerTy treenode_type, PointerTy landing_site_type, PointerTy callsite_type,
           IntegerTy 64, void_star, void_star]"
  by (simp_all add: support_structs_def)

lemma new_InlineHelpers_linked: "new_InlineHelpers linked_module = example_helpers"
  by (simp add: new_InlineHelpers_def example_helpers_def linked_module_def getTypeByName_def
        getFunction_def support_structs_simps hot_fn_def helper_decl_def other_fn_def puts_decl_def
        drti_landed_def drti_call_from_def landing_site_type_def callsite_type_def
        treenode_type_def reflect_type_def)

lemma ok_example_helpers: "ok example_helpers"
  by (simp add: ok_def example_helpers_def)

lemma create_self_fields:
  "m_inline (create_self x st) = m_inline st"
  "m_target_functions (create_self x st) = m_target_functions st"
  "m_target_function_types (create_self x st) = m_target_function_types st"
  "named_structs (m_module (create_self x st)) = named_structs (m_module st)"
  "next_id (m_module (create_self x st)) = next_id (m_module st) + 3"
  "function_list (m_module (create_self x st)) = function_list (stripped (m_module st))"
  "triple (m_module (create_self x st)) = triple (m_module st)"
  by (simp_all add: create_self_def split_def Let_def new_GlobalVariable_def collect_globals_module
        stripped_def)

lemma collect_calls_cong:
  "m_target_functions st' = m_target_functions st \<Longrightarrow>
   m_target_function_types st' = m_target_function_types st \<Longrightarrow>
   collect_calls st' bs = collect_calls st bs"
proof -
  assume a: "m_target_functions st' = m_target_functions st"
    "m_target_function_types st' = m_target_function_types st"
  have "collect_calls_step st' = collect_calls_step st"
    by (intro ext) (unfold collect_calls_step_def a, rule refl)
  then show ?thesis by (simp add: collect_calls_def)
qed

lemma collect_calls_decorating:
  "collect_calls decorating_pass (blocks (removeFnAttrs hot_fn)) = [(0, 2), (3, 6)]"
proof -
  have "collect_calls decorating_pass (blocks hot_fn) = collect_calls found_pass (blocks hot_fn)"
    by (rule collect_calls_cong) (simp_all add: decorating_pass_def create_self_fields)
  then show ?thesis by (simp add: collect_calls_hot_fn removeFnAttrs_def)
qed

lemma call_enumeration_hot_fn: "call_enumeration (blocks (removeFnAttrs hot_fn)) = [2, 4, 5, 6]"
  by (simp add: call_enumeration_def counted_call_def hot_fn_def isInlineAsm_def removeFnAttrs_def)

definition hot_entry :: block where
  "hot_entry = hd (blocks hot_fn)"

lemma hot_fn_hyps:
  "blocks (removeFnAttrs hot_fn) = hot_entry # []"
  "\<exists>i \<in> set (insts hot_entry). \<not> isAllocaInst i"
  "distinct (map iid (concat (map insts (blocks (removeFnAttrs hot_fn)))))"
  "distinct (map bid (blocks (removeFnAttrs hot_fn)))"
  "\<forall>k \<in> inst_ids (blocks (removeFnAttrs hot_fn)) \<union> block_ids (blocks (removeFnAttrs hot_fn)).
      k < next_id (m_module decorating_pass)"
  by (simp_all add: hot_entry_def hot_fn_def removeFnAttrs_def isAllocaInst_def decorating_pass_def
        create_self_fields linked_module_def inst_ids_def block_ids_def)

lemma decorating_pass_hyps:
  "m_inline decorating_pass = Some example_helpers"
  "m_drti_callsite_type example_helpers = Some callsite_type"
  "m_drti_landing_site_type example_helpers = Some landing_site_type"
  "m_drti_call_from example_helpers = Some drti_call_from"
  "fret drti_call_from = PointerTy treenode_type"
  "getElementType (m_module decorating_pass) treenode_type 5 = Some void_star"
  "getElementType (m_module decorating_pass) callsite_type 3 = Some (ArrayTy void_star 4)"
  "retalign_mask example_extern \<noteq> 2 ^ 64 - 1"
  by (simp_all add: decorating_pass_def create_self_fields example_helpers_def drti_call_from_def
        getElementType_def treenode_type_def callsite_type_def linked_module_def
        support_structs_simps retalign_mask_def example_extern_def bare_extern_def)

lemma next_id_decorating: "next_id (m_module decorating_pass) = 107"
  by (simp add: decorating_pass_def create_self_fields linked_module_def)

definition landing_machine :: machine where
  "landing_machine =
     \<lparr>return_address = 0x1000,
      memory = (\<lambda>a. if a = 0xFF0 then 0x4954524449545244 else 0),
      caller_handle = 7, global_address = (\<lambda>g. 0x2000)\<rparr>"

definition plain_machine :: machine where
  "plain_machine = landing_machine\<lparr>memory := (\<lambda>a. 0)\<rparr>"

definition unaligned_machine :: machine where
  "unaligned_machine = landing_machine\<lparr>return_address := 0x1001\<rparr>"

lemma example_machines:
  "aligned example_extern landing_machine" "has_magic example_extern landing_machine"
  "aligned example_extern plain_machine" "\<not> has_magic example_extern plain_machine"
  "\<not> aligned example_extern unaligned_machine"
  by (simp_all add: aligned_def has_magic_def landing_machine_def plain_machine_def
        unaligned_machine_def retalign_mask_def magic_index_def example_extern_def bare_extern_def)

lemma hot_entry_split:
  "insts hot_entry = take 1 (insts hot_entry) @ insts hot_entry ! 1 # drop 2 (insts hot_entry)"
  "\<forall>i \<in> set (take 1 (insts hot_entry)). isAllocaInst i"
  "\<not> isAllocaInst (insts hot_entry ! 1)"
  "distinct (map iid (concat (map insts (hot_entry # []))))"
  "distinct (map bid (hot_entry # []))"
  "\<forall>k \<in> inst_ids (hot_entry # []) \<union> block_ids (hot_entry # []). k < next_id linked_module"
  by (simp_all add: hot_entry_def hot_fn_def isAllocaInst_def linked_module_def inst_ids_def
        block_ids_def)

lemma example_helpers_hyps:
  "m_drti_treenode_type example_helpers = Some treenode_type"
  "m_drti_landed example_helpers = Some drti_landed"
  "fname drti_landed = ''_drti_landed''"
  "\<forall>v \<in> set (globals linked_module). gname v \<noteq> ''llvm.returnaddress'' \<and> gname v \<noteq> ''_drti_caller''"
  by (simp_all add: example_helpers_def drti_landed_def linked_module_def)


lemma runOnModule_decorates:
  assumes "triple m = supported_triple"
    and "targets_from_environment w = Inr (names, w1)"
    and "find_target_functions
           \<lparr>m_target_function_names = names, m_module = m, m_target_functions = [],
            m_target_function_types = {}, m_inline = None, m_reflect_global = None\<rparr> = (True, st1)"
    and "parseBitcodeFile x = Inr support"
    and "linkInModule x (m_module st1) support = (False, linked)"
    and "ok (new_InlineHelpers linked)"
    and "add_landing_globals x
           (create_self x (st1\<lparr>m_module := linked, m_inline := Some (new_InlineHelpers linked)\<rparr>)) w1 =
         Inr (st5, w5)"
  shows "runOnModule x m w = Inr (True, (m_module st5)\<lparr>triple := drti_triple\<rparr>, w5)"
  using assms
  by (simp add: runOnModule_def new_DecoratePass_def add_helpers_def lookup_helpers_def)

lemma example_functions:
  "getFunction (m_module decorating_pass) ''helper'' = Some helper_decl"
  "isDeclaration helper_decl"
  "getFunction (m_module decorating_pass) ''hot_fn'' = Some (removeFnAttrs hot_fn)"
  "\<not> isDeclaration (removeFnAttrs hot_fn)"
  by (simp_all add: decorating_pass_def create_self_fields stripped_def linked_module_def
        getFunction_def isDeclaration_def isIntrinsic_def removeFnAttrs_def
        hot_fn_def helper_decl_def)

lemma example_decorated:
  "\<exists>st5. add_landing_globals example_extern decorating_pass w =
     Inr (st5, w\<lparr>trace := trace w @ [Dbgs (CHR 0x0A # ''hot_fn'')]\<rparr>)"
proof -
  from add_landing_globals_body_decorated [OF hot_fn_hyps decorating_pass_hyps]
  obtain m5 where "add_landing_globals_body example_extern decorating_pass (removeFnAttrs hot_fn)
      (m_module decorating_pass) = Inr m5"
    by blast
  moreover have "m_target_functions decorating_pass = [''helper'', ''hot_fn'']"
    by (simp add: decorating_pass_def create_self_fields found_pass_eq)
  moreover have "PrintFunctionPass example_extern m5 ''hot_fn'' = CHR 0x0A # ''hot_fn''"
    by (simp add: example_extern_def bare_extern_def)
  ultimately show ?thesis
    by (simp add: add_landing_globals_def example_functions)
qed

lemma run_example:
  "\<exists>m'. runOnModule example_extern example_module w_names =
     Inr (True, m',
          w_names\<lparr>trace := [Getenv ''DRTI_TARGET_NAMES'', Getenv ''DRTI_TARGETS_FILE'',
                            Dbgs (CHR 0x0A # ''hot_fn'')]\<rparr>)"
proof -
  have 1: "triple example_module = supported_triple"
    by (simp add: example_module_def supported_triple_def)
  have 3: "find_target_functions
           \<lparr>m_target_function_names = {''hot_fn'', ''helper''}, m_module = example_module,
            m_target_functions = [], m_target_function_types = {}, m_inline = None,
            m_reflect_global = None\<rparr> = (True, found_pass)"
    unfolding example_pass_def [symmetric]
    by (simp add: prod_eq_iff found_pass_def [symmetric])
      (simp add: find_target_functions_def Let_def found_pass_eq [unfolded found_pass_def find_target_functions_def Let_def snd_conv])
  have 4: "parseBitcodeFile example_extern = Inr support_module"
    by (simp add: example_extern_def)
  have 5: "linkInModule example_extern (m_module found_pass) support_module = (False, linked_module)"
    by (simp add: found_pass_eq example_pass_def example_link_support)
  have 6: "ok (new_InlineHelpers linked_module)"
    by (simp add: new_InlineHelpers_linked ok_example_helpers)
  let ?w1 = "w_names\<lparr>trace := [Getenv ''DRTI_TARGET_NAMES'', Getenv ''DRTI_TARGETS_FILE'']\<rparr>"
  from example_decorated [of ?w1] obtain st5 where
    7: "add_landing_globals example_extern
           (create_self example_extern
              (found_pass\<lparr>m_module := linked_module, m_inline := Some (new_InlineHelpers linked_module)\<rparr>))
           ?w1 =
         Inr (st5, ?w1\<lparr>trace := trace ?w1 @ [Dbgs (CHR 0x0A # ''hot_fn'')]\<rparr>)"
    unfolding decorating_pass_def new_InlineHelpers_linked by blast
  from runOnModule_decorates [OF 1 w_names_targets 3 4 5 6 7] show ?thesis by simp
qed

section \<open>Landing instrumentation\<close>

text \<open>
  Claim C6. On a function whose entry block holds an instruction that is no
  \<^verbatim>\<open>alloca\<close>, \<open>add_landing_update\<close> returns the phi of the continue block and leaves
  the four-block shape \<open>landing_blocks\<close>: the entry block (its allocas, the alignment test
  of the return address, a branch to the probe block or to the continue block), the
  continue block \<open>drti_land1\<close> (the phi, then the rest of the old entry block), the old
  other blocks, the probe block \<open>drti_land2\<close> (the comparison of the word at the return
  address with the magic constant, a branch to the confirmed block or to the continue
  block) and the confirmed block \<open>drti_land3\<close> (the calls of \<open>_drti_caller\<close> and of
  \<open>_drti_landed\<close>, a branch to the continue block). Run on any machine state up to the
  phi, this code calls \<open>_drti_landed\<close> (once, with the landing-site global and the
  caller's tree node) exactly when the return address is aligned and the magic constant
  is found, and the phi is then that tree node; otherwise nothing is called and the phi
  is null.
\<close>

theorem landing_state_machine:
  assumes "insts entryBlock = allocas @ splitPoint # tail"
    and "\<forall>i \<in> set allocas. isAllocaInst i"
    and "\<not> isAllocaInst splitPoint"
    and "distinct (map iid (concat (map insts (entryBlock # rest))))"
    and "distinct (map bid (entryBlock # rest))"
    and "\<forall>k \<in> inst_ids (entryBlock # rest) \<union> block_ids (entryBlock # rest). k < next_id m"
    and "retalign_mask x \<noteq> 2 ^ 64 - 1"
    and "m_inline st = Some inl"
    and "m_drti_treenode_type inl = Some treenode"
    and "m_drti_landed inl = Some landed"
    and "fname landed = ''_drti_landed''"
    and "\<forall>v \<in> set (globals m). gname v \<noteq> ''llvm.returnaddress'' \<and> gname v \<noteq> ''_drti_caller''"
  shows "\<exists>m' builtinRet drtiCaller body.
     add_landing_update x st function_name (GlobalVariableV g t) (m, entryBlock # rest) =
       Inr (InstructionV (next_id m + 9) (PointerTy treenode), m', body) \<and>
     body = landing_blocks x (PointerTy treenode) builtinRet drtiCaller landed (GlobalVariableV g t)
              entryBlock allocas (splitPoint # tail) rest (next_id m) \<and>
     callee_name builtinRet = Some ''llvm.returnaddress'' \<and>
     callee_name drtiCaller = Some ''_drti_caller'' \<and>
     (\<forall>mc. run_function 4 mc (next_id m + 9) body =
        (if aligned x mc \<and> has_magic x mc
         then Some (Some (caller_handle mc),
                    [Called ''_drti_landed'' [global_address mc g, caller_handle mc]])
         else Some (Some 0, [])))"
proof -
  define tnp where "tnp = PointerTy treenode"
  define builtinRet where
    "builtinRet = fst (getOrInsertFunction ''llvm.returnaddress'' (PointerTy (IntegerTy 8)) [IntegerTy 32] m)"
  define m1 where
    "m1 = snd (getOrInsertFunction ''llvm.returnaddress'' (PointerTy (IntegerTy 8)) [IntegerTy 32] m)"
  define drtiCaller where "drtiCaller = fst (getOrInsertFunction ''_drti_caller'' tnp [] m1)"
  define n where "n = next_id m"
  define body where "body = landing_blocks x tnp builtinRet drtiCaller landed (GlobalVariableV g t)
              entryBlock allocas (splitPoint # tail) rest n"
  have tnp: "tnp = PointerTy (the (m_drti_treenode_type (the (m_inline st))))"
    by (simp add: tnp_def assms(8,9))
  have landed: "the (m_drti_landed (the (m_inline st))) = landed"
    by (simp add: assms(8,10))
  have shape: "add_landing_update x st function_name (GlobalVariableV g t) (m, entryBlock # rest) =
     Inr (InstructionV (n + 9) tnp,
          (snd (getOrInsertFunction ''_drti_caller'' tnp [] m1))\<lparr>next_id := n + 18\<rparr>, body)"
    using add_landing_update_shape [OF assms(1-7) tnp m1_def n_def, of function_name "GlobalVariableV g t"]
    by (simp add: body_def landing_blocks_def builtinRet_def drtiCaller_def landed)
  have ret: "callee_name builtinRet = Some ''llvm.returnaddress''"
    unfolding builtinRet_def by (rule callee_name_getOrInsertFunction) (use assms(12) in blast)
  have "\<forall>v \<in> set (globals m1). gname v \<noteq> ''_drti_caller''"
    using assms(12) by (simp add: m1_def)
  then have cal: "callee_name drtiCaller = Some ''_drti_caller''"
    unfolding drtiCaller_def by (rule callee_name_getOrInsertFunction)
  have fresh: "\<forall>k \<in> iid ` set allocas \<union> block_ids (replace_phis (bid entryBlock) n rest) \<union> {bid entryBlock}.
      k < n"
  proof -
    have "iid ` set allocas \<subseteq> inst_ids (entryBlock # rest)"
      by (auto simp: inst_ids_def assms(1))
    moreover have "block_ids (replace_phis (bid entryBlock) n rest) \<union> {bid entryBlock} \<subseteq>
        block_ids (entryBlock # rest)"
      by (auto simp: block_ids_def [of "entryBlock # rest"] block_ids_def [of rest])
    ultimately show ?thesis using assms(6) unfolding n_def by blast
  qed
  have run: "run_function 4 mc (n + 9) body =
        (if aligned x mc \<and> has_magic x mc
         then Some (Some (caller_handle mc),
                    [Called ''_drti_landed'' [global_address mc g, caller_handle mc]])
         else Some (Some 0, []))" for mc
    using run_landing_code [OF assms(2) fresh ret cal assms(11) refl assms(7),
        of mc "bname entryBlock" tnp "map (replacePhiUsesWith (bid entryBlock) n) (splitPoint # tail)" g t]
    by (simp add: body_def landing_blocks_def block_update_insts)
  from shape ret cal run show ?thesis
    unfolding body_def n_def tnp_def by blast
qed

theorem landing_state_machine_witness:
  "\<exists>m' body.
     add_landing_update example_extern decorating_pass ''hot_fn''
       (GlobalVariableV 109 landing_site_type) (linked_module, hot_entry # []) =
       Inr (InstructionV 113 (PointerTy treenode_type), m', body) \<and>
     run_function 4 landing_machine 113 body =
       Some (Some 7, [Called ''_drti_landed'' [0x2000, 7]]) \<and>
     run_function 4 plain_machine 113 body = Some (Some 0, []) \<and>
     run_function 4 unaligned_machine 113 body = Some (Some 0, [])"
proof -
  have n: "next_id linked_module + 9 = 113" by (simp add: linked_module_def)
  from landing_state_machine [OF hot_entry_split decorating_pass_hyps(8) decorating_pass_hyps(1)
      example_helpers_hyps, of "''hot_fn''" 109 landing_site_type]
  obtain m' :: module and body where
    1: "add_landing_update example_extern decorating_pass ''hot_fn''
       (GlobalVariableV 109 landing_site_type) (linked_module, hot_entry # []) =
       Inr (InstructionV 113 (PointerTy treenode_type), m', body)"
    and 2: "\<And>mc. run_function 4 mc 113 body =
        (if aligned example_extern mc \<and> has_magic example_extern mc
         then Some (Some (caller_handle mc),
                    [Called ''_drti_landed'' [global_address mc 109, caller_handle mc]])
         else Some (Some 0, []))"
    unfolding n by blast
  have 3: "run_function 4 landing_machine 113 body =
       Some (Some 7, [Called ''_drti_landed'' [0x2000, 7]])"
    unfolding 2 by (simp add: example_machines) (simp add: landing_machine_def)
  have 4: "run_function 4 plain_machine 113 body = Some (Some 0, [])"
    unfolding 2 by (simp add: example_machines)
  have 5: "run_function 4 unaligned_machine 113 body = Some (Some 0, [])"
    unfolding 2 by (simp add: example_machines)
  show ?thesis
    by (rule exI [of _ m'], rule exI [of _ body]) (intro conjI 1 3 4 5)
qed

section \<open>Call-site decoration\<close>



section \<open>Call-site ordinals\<close>

text \<open>
  Claim C1. \<open>call_enumeration\<close> lists, in encounter order over the blocks and
  instructions of the function as it is before decoration, every call that is not a
  call of inline assembly. The body of the loop of \<open>add_landing_globals\<close>, on a
  function definition, adds after the landing-site globals exactly one CallSite record
  per collected call, in order, and the ordinal of each record is the position of its
  call in that enumeration; the record of a call is the one handed to the resolve
  routine in the code placed before that call. The counter is a 32-bit \<open>unsigned\<close>:
  the function has at most \<open>2 ^ 32\<close> counted calls.
\<close>

theorem callsite_ordinal_is_call_position:
  assumes "blocks f = entryBlock # rest"
    and "\<exists>i \<in> set (insts entryBlock). \<not> isAllocaInst i"
    and "distinct (map iid (concat (map insts (blocks f))))"
    and "distinct (map bid (blocks f))"
    and "\<forall>k \<in> inst_ids (blocks f) \<union> block_ids (blocks f). k < next_id m"
    and "m_inline st = Some inl"
    and "m_drti_callsite_type inl = Some cs"
    and "m_drti_landing_site_type inl = Some ls"
    and "m_drti_call_from inl = Some call_from"
    and "fret call_from = PointerTy tn"
    and "getElementType m tn 5 = Some rt"
    and "getElementType m cs 3 = Some vt"
    and "retalign_mask x \<noteq> 2 ^ 64 - 1"
    and small: "length (call_enumeration (blocks f)) \<le> 2 ^ 32"
  shows "\<exists>m' body gs.
     add_landing_globals_body x st f m = Inr (set_blocks (fname f) body m') \<and>
     globals m' = globals (snd (create_landing_global st (fname f) m)) @ gs \<and>
     map ginit gs =
       map (\<lambda>(call_number, c).
              Some (ConstantStruct cs
                     [ConstantInt 64 0, GlobalVariableV (next_id m + 2) ls,
                      ConstantInt 32 (unat call_number), ConstantAggregateZero vt]))
         (collect_calls st (blocks f)) \<and>
     (\<forall>(call_number, c) \<in> set (collect_calls st (blocks f)).
        unat call_number < length (call_enumeration (blocks f)) \<and>
        call_enumeration (blocks f) ! unat call_number = c \<and>
        (\<exists>g \<in> set gs. \<exists>B \<in> set body. \<exists>pre call' post sc caller callee.
            ginit g = Some (ConstantStruct cs
                             [ConstantInt 64 0, GlobalVariableV (next_id m + 2) ls,
                              ConstantInt 32 (unat call_number), ConstantAggregateZero vt]) \<and>
            insts B = pre @ decoration_code call_from rt sc (global_value g) caller callee
                              (Suc (gid g)) @ call' # post \<and>
            iid call' = c))"
proof -
  let ?lg = "GlobalVariableV (next_id m + 2) ls"
  let ?calls = "collect_calls st (blocks f)"
  from add_landing_globals_body_decorated [OF assms(1-13)]
  obtain m' mU bs \<sigma> caller sc where
    body: "add_landing_globals_body x st f m = Inr (set_blocks (fname f) (expand \<sigma> bs) m')"
    and gl: "globals m' = globals (snd (create_landing_global st (fname f) m)) @
        plan_globals call_from rt cs sc caller bs vt (fname f) ?lg ?calls (next_id (mU :: module))"
    and each: "\<forall>call_number c. (call_number, c) \<in> set ?calls \<longrightarrow> (\<exists>ci g.
         find_inst c (blocks f) = Some ci \<and> find_inst c bs = Some ci \<and>
         \<sigma> c = Some (decoration call_from rt cs sc caller ci g) \<and>
         callsite_global cs vt (fname f) ?lg call_number g \<in>
           set (plan_globals call_from rt cs sc caller bs vt (fname f) ?lg ?calls (next_id mU)))"
    by blast
  let ?gs = "plan_globals call_from rt cs sc caller bs vt (fname f) ?lg ?calls (next_id mU)"
  from each have found: "\<forall>(call_number, c) \<in> set ?calls. \<exists>ci. find_inst c bs = Some ci"
    by blast
  note inits = plan_globals_inits [OF found, of call_from rt cs sc caller vt "fname f" ?lg "next_id mU"]
  have per_call: "unat call_number < length (call_enumeration (blocks f)) \<and>
        call_enumeration (blocks f) ! unat call_number = c \<and>
        (\<exists>g \<in> set ?gs. \<exists>B \<in> set (expand \<sigma> bs). \<exists>pre call' post sc caller callee.
            ginit g = Some (ConstantStruct cs
                             [ConstantInt 64 0, ?lg,
                              ConstantInt 32 (unat call_number), ConstantAggregateZero vt]) \<and>
            insts B = pre @ decoration_code call_from rt sc (global_value g) caller callee
                              (Suc (gid g)) @ call' # post \<and>
            iid call' = c)"
    if mem: "(call_number, c) \<in> set ?calls" for call_number c
  proof -
    from collect_calls_member [OF mem] obtain j i kind callee args where
      j: "j < length (call_enumeration (blocks f))" "call_enumeration (blocks f) ! j = c"
      "call_number = of_nat j"
      and i: "c = iid i" "i \<in> set (concat (map insts (blocks f)))" "iop i = CallBase kind callee args"
      by blast
    have u: "unat call_number = j"
      unfolding j(3) by (rule unat_call_number [OF j(1) small])
    from each mem obtain ci g where ci: "find_inst c (blocks f) = Some ci" "find_inst c bs = Some ci"
      and s: "\<sigma> c = Some (decoration call_from rt cs sc caller ci g)"
      and gm: "callsite_global cs vt (fname f) ?lg call_number g \<in> set ?gs"
      by blast
    have "find_inst c (blocks f) = Some i"
      unfolding find_inst_def i(1) by (rule find_distinct_member [OF assms(3) i(2)])
    with ci have cii: "ci = i" by simp
    let ?g = "callsite_global cs vt (fname f) ?lg call_number g"
    let ?call = "ci\<lparr>iop := CallBase (case kind of CallInst old \<Rightarrow> CallInst TCK_NoTail | _ \<Rightarrow> kind)
                  (new_target callee rt (Suc g + length (cast_old_target callee (Suc g)))) args\<rparr>"
    have s': "\<sigma> c = Some (decoration_code call_from rt sc (global_value ?g) caller callee (Suc (gid ?g)),
        ?call)"
      using s i(3) by (simp add: cii decoration_call callsite_global_def global_value_def)
    from expand_member [where \<sigma> = \<sigma>, OF ci(2) s'] obtain B pre post where
      B: "B \<in> set (expand \<sigma> bs)"
      "insts B = pre @ decoration_code call_from rt sc (global_value ?g) caller callee (Suc (gid ?g)) @
          ?call # post"
      by blast
    have gi: "ginit ?g = Some (ConstantStruct cs
                             [ConstantInt 64 0, ?lg,
                              ConstantInt 32 (unat call_number), ConstantAggregateZero vt])"
      by (simp add: callsite_global_def)
    have idc: "iid ?call = c" using i(1) cii by simp
    from gm B gi idc have "\<exists>g \<in> set ?gs. \<exists>B \<in> set (expand \<sigma> bs). \<exists>pre call' post sc caller callee.
            ginit g = Some (ConstantStruct cs
                             [ConstantInt 64 0, ?lg,
                              ConstantInt 32 (unat call_number), ConstantAggregateZero vt]) \<and>
            insts B = pre @ decoration_code call_from rt sc (global_value g) caller callee
                              (Suc (gid g)) @ call' # post \<and>
            iid call' = c"
      by blast
    with j(1,2) u show ?thesis by simp
  qed
  show ?thesis
    apply (rule exI [of _ m'], rule exI [of _ "expand \<sigma> bs"], rule exI [of _ ?gs])
    using body gl inits per_call by blast
qed

theorem callsite_ordinal_is_call_position_witness:
  "call_enumeration (blocks (removeFnAttrs hot_fn)) = [2, 4, 5, 6] \<and>
   collect_calls decorating_pass (blocks (removeFnAttrs hot_fn)) = [(0, 2), (3, 6)] \<and>
   (\<exists>m' body gs.
      add_landing_globals_body example_extern decorating_pass (removeFnAttrs hot_fn)
        (m_module decorating_pass) = Inr (set_blocks ''hot_fn'' body m') \<and>
      globals m' =
        globals (snd (create_landing_global decorating_pass ''hot_fn'' (m_module decorating_pass))) @ gs \<and>
      map ginit gs =
        [Some (ConstantStruct callsite_type
                 [ConstantInt 64 0, GlobalVariableV 109 landing_site_type, ConstantInt 32 0,
                  ConstantAggregateZero (ArrayTy void_star 4)]),
         Some (ConstantStruct callsite_type
                 [ConstantInt 64 0, GlobalVariableV 109 landing_site_type, ConstantInt 32 3,
                  ConstantAggregateZero (ArrayTy void_star 4)])])"
proof -
  have small: "length (call_enumeration (blocks (removeFnAttrs hot_fn))) \<le> 2 ^ 32"
    by (simp add: call_enumeration_hot_fn)
  have name: "fname (removeFnAttrs hot_fn) = ''hot_fn''"
    by (simp add: removeFnAttrs_def hot_fn_def)
  from callsite_ordinal_is_call_position [OF hot_fn_hyps decorating_pass_hyps small]
  obtain m' :: module and body gs where
    1: "add_landing_globals_body example_extern decorating_pass (removeFnAttrs hot_fn)
        (m_module decorating_pass) = Inr (set_blocks ''hot_fn'' body m')"
    and 2: "globals m' =
        globals (snd (create_landing_global decorating_pass ''hot_fn'' (m_module decorating_pass))) @ gs"
    and 3: "map ginit gs =
       map (\<lambda>(call_number, c).
              Some (ConstantStruct callsite_type
                     [ConstantInt 64 0, GlobalVariableV (next_id (m_module decorating_pass) + 2) landing_site_type,
                      ConstantInt 32 (unat call_number), ConstantAggregateZero (ArrayTy void_star 4)]))
         (collect_calls decorating_pass (blocks (removeFnAttrs hot_fn)))"
    unfolding name by blast
  from 3 have 4: "map ginit gs =
        [Some (ConstantStruct callsite_type
                 [ConstantInt 64 0, GlobalVariableV 109 landing_site_type, ConstantInt 32 0,
                  ConstantAggregateZero (ArrayTy void_star 4)]),
         Some (ConstantStruct callsite_type
                 [ConstantInt 64 0, GlobalVariableV 109 landing_site_type, ConstantInt 32 3,
                  ConstantAggregateZero (ArrayTy void_star 4)])]"
    by (simp add: collect_calls_decorating next_id_decorating)
  show ?thesis
    apply (intro conjI)
      apply (rule call_enumeration_hot_fn)
     apply (rule collect_calls_decorating)
    apply (rule exI [of _ m'], rule exI [of _ body], rule exI [of _ gs])
    apply (intro conjI 1 2 4)
    done
qed

section \<open>The embedded snapshot\<close>

text \<open>
  Claim C2. Whenever the pass decorates the module, the module it leaves holds a global
  \<open>__drti_bitcode\<close> whose initializer is the serialization of the module that
  \<open>collect_globals\<close> leaves of the linker's result. That module is the linker's result
  with the no-optimize and no-inline attributes removed from every function definition
  and nothing else changed: the same global variables, struct types and triple, the same
  declarations, and the same definitions with the same bodies. So no definition in the
  snapshot carries one of the two attributes, and the snapshot holds no landing global,
  no call-site global and no inserted instruction.
\<close>

theorem snapshot_taken_before_decoration:
  assumes run: "runOnModule x m w = Inr (True, m', w')"
    and parse: "parseBitcodeFile x = Inr support"
    and link: "linkInModule x m support = (failed, linked)"
    and ok: "ok (new_InlineHelpers linked)"
  shows "(\<exists>g \<in> set (globals m'). gname g = ''__drti_bitcode'' \<and>
            ginit g = Some (ConstantDataArray (writeModule x (snd (collect_globals x linked))))) \<and>
         (snd (collect_globals x linked))\<lparr>function_list := []\<rparr> = linked\<lparr>function_list := []\<rparr> \<and>
         function_list (snd (collect_globals x linked)) =
           map (\<lambda>f. if isIntrinsic f \<or> isDeclaration f then f
                     else f\<lparr>fattrs := fattrs f - {OptimizeNone, NoInline}\<rparr>)
             (function_list linked) \<and>
         (\<forall>f \<in> set (function_list (snd (collect_globals x linked))).
            \<not> isIntrinsic f \<and> \<not> isDeclaration f \<longrightarrow>
            OptimizeNone \<notin> fattrs f \<and> NoInline \<notin> fattrs f)"
proof -
  from run obtain names w1 where
    t: "triple m = supported_triple"
    and new: "targets_from_environment w = Inr (names, w1)"
    by (auto simp: runOnModule_def new_DecoratePass_def Let_def split: if_splits sum.splits)
  let ?d0 = "\<lparr>m_target_function_names = names, m_module = m, m_target_functions = [],
       m_target_function_types = {}, m_inline = None, m_reflect_global = None\<rparr>"
  let ?d1 = "find_target_functions_loop (function_list m) ?d0"
  let ?d2 = "?d1\<lparr>m_module := linked\<rparr>"
  let ?d3 = "?d2\<lparr>m_inline := Some (new_InlineHelpers linked)\<rparr>"
  have helpers: "add_helpers x ?d1 = Inr (\<not> failed, ?d2)"
    by (simp add: add_helpers_def parse link)
  have lookup: "lookup_helpers ?d2 = (True, ?d3)"
    by (simp add: lookup_helpers_def ok)
  from run t new helpers lookup obtain d5 w5 where
    dec: "add_landing_globals x (create_self x ?d3) w1 = Inr (d5, w5)"
    and m': "m' = (m_module d5)\<lparr>triple := drti_triple\<rparr>"
    by (auto simp: runOnModule_def new_DecoratePass_def find_target_functions_def Let_def
          split: if_splits sum.splits bool.splits)
  have "bitcode_global x linked \<in> set (globals (m_module (create_self x ?d3)))"
    using create_self_bitcode [of x ?d3] by simp
  with add_landing_globals_kept [OF dec] have "bitcode_global x linked \<in> set (globals m')"
    by (auto simp: globals_kept_def m')
  moreover have "gname (bitcode_global x linked) = ''__drti_bitcode''"
    "ginit (bitcode_global x linked) =
       Some (ConstantDataArray (writeModule x (snd (collect_globals x linked))))"
    by (simp_all add: bitcode_global_def collect_globals_module)
  ultimately have 1: "\<exists>g \<in> set (globals m'). gname g = ''__drti_bitcode'' \<and>
            ginit g = Some (ConstantDataArray (writeModule x (snd (collect_globals x linked))))"
    by blast
  have 2: "(snd (collect_globals x linked))\<lparr>function_list := []\<rparr> = linked\<lparr>function_list := []\<rparr>"
    by (rule collect_globals_fields)
  have 3: "function_list (snd (collect_globals x linked)) =
           map (\<lambda>f. if isIntrinsic f \<or> isDeclaration f then f
                     else f\<lparr>fattrs := fattrs f - {OptimizeNone, NoInline}\<rparr>)
             (function_list linked)"
    by (rule collect_globals_strips)
  have 4: "\<forall>f \<in> set (function_list (snd (collect_globals x linked))).
            \<not> isIntrinsic f \<and> \<not> isDeclaration f \<longrightarrow>
            OptimizeNone \<notin> fattrs f \<and> NoInline \<notin> fattrs f"
    unfolding 3 by (auto simp: isIntrinsic_def isDeclaration_def)
  from 1 2 3 4 show ?thesis by (intro conjI)
qed

theorem snapshot_taken_before_decoration_witness:
  "\<exists>m' w'. runOnModule example_extern example_module w_names = Inr (True, m', w') \<and>
     writeModule example_extern linked_module =
       ''hot_fn+optnone+noinline;helper;other;puts;_drti_landed;_drti_call_from;'' \<and>
     (\<exists>g \<in> set (globals m'). gname g = ''__drti_bitcode'' \<and>
        ginit g = Some (ConstantDataArray
                          ''hot_fn;helper;other;puts;_drti_landed;_drti_call_from;''))"
proof -
  from run_example obtain m' w' where
    run: "runOnModule example_extern example_module w_names = Inr (True, m', w')"
    by blast
  have 4: "parseBitcodeFile example_extern = Inr support_module"
    by (simp add: example_extern_def)
  have 6: "ok (new_InlineHelpers linked_module)"
    by (simp add: new_InlineHelpers_linked ok_example_helpers)
  note thm0 = snapshot_taken_before_decoration [OF run 4 example_link_support 6]
  from thm0 have fs: "function_list (snd (collect_globals example_extern linked_module)) =
      [hot_fn\<lparr>fattrs := {}\<rparr>, helper_decl, other_fn, puts_decl, drti_landed, drti_call_from]"
    by (simp add: linked_module_def isIntrinsic_def isDeclaration_def
        hot_fn_def helper_decl_def other_fn_def puts_decl_def drti_landed_def drti_call_from_def)
  have wm: "writeModule example_extern mm =
      concat (map (\<lambda>f. fname f @ attribute_text f @ '';'') (function_list mm))" for mm
    by (simp add: example_extern_def)
  have a: "writeModule example_extern (snd (collect_globals example_extern linked_module)) =
      ''hot_fn;helper;other;puts;_drti_landed;_drti_call_from;''"
    by (simp only: wm fs)
      (simp add: attribute_text_def hot_fn_def helper_decl_def other_fn_def puts_decl_def
        drti_landed_def drti_call_from_def)
  have b: "writeModule example_extern linked_module =
       ''hot_fn+optnone+noinline;helper;other;puts;_drti_landed;_drti_call_from;''"
    by (simp only: wm)
      (simp add: linked_module_def attribute_text_def
        hot_fn_def helper_decl_def other_fn_def puts_decl_def drti_landed_def drti_call_from_def)
  from thm0 have "\<exists>g \<in> set (globals m'). gname g = ''__drti_bitcode'' \<and>
        ginit g = Some (ConstantDataArray
                          ''hot_fn;helper;other;puts;_drti_landed;_drti_call_from;'')"
    unfolding a by blast
  with run b show ?thesis by blast
qed

end
